(* ===== verification/Ishtar_Prelude.thy ===== *)
theory Ishtar_Prelude
  imports Main "HOL-Library.Word" "HOL-Library.Multiset"
begin

text \<open>
  Shared vocabulary of the development: the machine types of the Rust sources, the standard
  library operations on integers and strings that the sources use, the error monad that renders
  the question-mark operator of Rust, and the transition-system layer (reachable states and
  inductive invariants) on which both servers are built.
\<close>

section \<open>Collections\<close>

named_theorems result_simps \<open>rewriting of chained fallible calls\<close>
named_theorems int_ops \<open>definitions of the standard library integer operations\<close>

section \<open>Machine types\<close>

text \<open>The deployed binaries are 64-bit, so \<open>usize\<close> is a 64-bit word. A \<open>Duration\<close> or an
  \<open>Instant\<close> is a number of nanoseconds.\<close>

type_synonym u8 = "8 word"
type_synonym u16 = "16 word"
type_synonym u32 = "32 word"
type_synonym u64 = "64 word"
type_synonym usize = "64 word"
type_synonym i32 = "32 word"
type_synonym bytes = "u8 list"
type_synonym duration = nat
type_synonym instant = nat

abbreviation nanos_per_sec :: nat where
  "nanos_per_sec \<equiv> 1000000000"

abbreviation nanos_per_micro :: nat where
  "nanos_per_micro \<equiv> 1000"

definition as_secs :: "duration \<Rightarrow> nat" where
  "as_secs d = d div nanos_per_sec"

text \<open>The bytes of a string (\<open>as_bytes\<close>): characters of the model are bytes already.\<close>

definition as_bytes :: "string \<Rightarrow> bytes" where
  "as_bytes s = map of_char s"

lemma length_as_bytes [simp]: "length (as_bytes s) = length s"
  by (simp add: as_bytes_def)

section \<open>Standard library integer operations\<close>

definition saturating_add :: "'a::len word \<Rightarrow> 'a word \<Rightarrow> 'a word" where
  [int_ops]: "saturating_add a b = (if unat a + unat b < 2 ^ LENGTH('a) then a + b else - 1)"

definition saturating_sub :: "'a::len word \<Rightarrow> 'a word \<Rightarrow> 'a word" where
  [int_ops]: "saturating_sub a b = (if b \<le> a then a - b else 0)"

definition saturating_mul :: "'a::len word \<Rightarrow> 'a word \<Rightarrow> 'a word" where
  [int_ops]: "saturating_mul a b = (if unat a * unat b < 2 ^ LENGTH('a) then a * b else - 1)"

definition checked_add :: "'a::len word \<Rightarrow> 'a word \<Rightarrow> 'a word option" where
  [int_ops]: "checked_add a b = (if unat a + unat b < 2 ^ LENGTH('a) then Some (a + b) else None)"

lemma unat_max_word: "unat (- 1 :: 'a::len word) = 2 ^ LENGTH('a) - 1"
  by (simp add: unsigned_minus_1_eq_mask mask_eq_exp_minus_1)

lemma unat_of_nat_less: "n < 2 ^ LENGTH('a) \<Longrightarrow> unat (of_nat n :: 'a::len word) = n"
  by (simp add: unsigned_of_nat take_bit_nat_eq_self)

lemma sint_of_nat_less: "n < 2 ^ 31 \<Longrightarrow> sint (of_nat n :: i32) = int n"
  by (simp add: signed_of_nat signed_take_bit_int_eq_self)

lemma unat_saturating_add:
  "unat (saturating_add a (b :: 'a::len word)) = min (unat a + unat b) (2 ^ LENGTH('a) - 1)"
proof (cases "unat a + unat b < 2 ^ LENGTH('a)")
  case True
  then show ?thesis by (simp add: saturating_add_def unat_add_lem [THEN iffD1])
next
  case False
  then show ?thesis by (simp add: saturating_add_def unat_max_word)
qed

lemma unat_saturating_sub: "unat (saturating_sub a b) = unat a - unat b"
  by (auto simp: saturating_sub_def word_le_nat_alt unat_sub)

lemma checked_add_Some:
  "checked_add a (b :: 'a::len word) = Some c \<longleftrightarrow> unat a + unat b < 2 ^ LENGTH('a) \<and> c = a + b"
  by (auto simp: checked_add_def)

lemma unat_checked_add: "checked_add a b = Some c \<Longrightarrow> unat c = unat a + unat b"
  by (auto simp: checked_add_Some unat_add_lem [THEN iffD1])

section \<open>Results and the question-mark operator\<close>

text \<open>A fallible call returns \<open>Inl e\<close> for \<open>Err(e)\<close> and \<open>Inr v\<close> for \<open>Ok(v)\<close>. The operator
  \<open>r?\<close> followed by the rest of the function is \<open>try_bind r rest\<close>; \<open>bail!\<close> under a condition is
  \<open>ensure\<close> with the negated condition.\<close>

definition try_bind :: "'e + 'a \<Rightarrow> ('a \<Rightarrow> 'e + 'b) \<Rightarrow> 'e + 'b" where
  "try_bind r f = (case r of Inl e \<Rightarrow> Inl e | Inr v \<Rightarrow> f v)"

definition ensure :: "bool \<Rightarrow> 'e \<Rightarrow> 'e + unit" where
  "ensure c e = (if c then Inr () else Inl e)"

definition ok_or :: "'a option \<Rightarrow> 'e \<Rightarrow> 'e + 'a" where
  "ok_or x e = (case x of None \<Rightarrow> Inl e | Some v \<Rightarrow> Inr v)"

definition is_ok :: "'e + 'a \<Rightarrow> bool" where
  "is_ok r = (case r of Inl _ \<Rightarrow> False | Inr _ \<Rightarrow> True)"

lemma try_bind_simps [simp]:
  "try_bind (Inl e) f = Inl e"
  "try_bind (Inr v) f = f v"
  by (simp_all add: try_bind_def)

lemma try_bind_Inr_iff [result_simps]:
  "try_bind r f = Inr y \<longleftrightarrow> (\<exists>x. r = Inr x \<and> f x = Inr y)"
  by (cases r) simp_all

lemma try_bind_Inl_iff [result_simps]:
  "try_bind r f = Inl e \<longleftrightarrow> r = Inl e \<or> (\<exists>x. r = Inr x \<and> f x = Inl e)"
  by (cases r) simp_all

lemma ensure_Inr_iff [result_simps]: "ensure c e = Inr u \<longleftrightarrow> c"
  by (cases u) (simp add: ensure_def)

lemma ensure_Inl_iff [result_simps]: "ensure c e = Inl d \<longleftrightarrow> \<not> c \<and> d = e"
  by (auto simp: ensure_def)

lemma ensure_simps [simp]: "ensure True e = Inr ()" "ensure False e = Inl e"
  by (simp_all add: ensure_def)

lemma ok_or_Inr_iff [result_simps]: "ok_or x e = Inr v \<longleftrightarrow> x = Some v"
  by (cases x) (simp_all add: ok_or_def)

lemma ok_or_Inl_iff [result_simps]: "ok_or x e = Inl d \<longleftrightarrow> x = None \<and> d = e"
  by (cases x) (auto simp: ok_or_def)

lemma ok_or_simps [simp]: "ok_or (Some v) e = Inr v" "ok_or None e = Inl e"
  by (simp_all add: ok_or_def)

lemma is_ok_simps [simp]: "is_ok (Inl e) = False" "is_ok (Inr v) = True"
  by (simp_all add: is_ok_def)

lemma is_ok_iff: "is_ok r \<longleftrightarrow> (\<exists>v. r = Inr v)"
  by (cases r) simp_all

section \<open>Decimal printing and parsing\<close>

text \<open>\<open>to_string\<close> and \<open>str::parse\<close> of the unsigned integer types. A leading plus sign is accepted,
  an empty digit string is an error, and so is a value beyond the type.\<close>

definition digit_char :: "nat \<Rightarrow> char" where
  "digit_char d = char_of (48 + d)"

fun nat_to_string :: "nat \<Rightarrow> string" where
  "nat_to_string n =
     (if n < 10 then [digit_char n] else nat_to_string (n div 10) @ [digit_char (n mod 10)])"

declare nat_to_string.simps [simp del]

definition digit_val :: "char \<Rightarrow> nat option" where
  "digit_val c = (let k = of_char c in if 48 \<le> k \<and> k \<le> 57 then Some (k - 48) else None)"

fun parse_digits :: "nat \<Rightarrow> string \<Rightarrow> nat option" where
  "parse_digits acc [] = Some acc"
| "parse_digits acc (c # cs) =
     (case digit_val c of None \<Rightarrow> None | Some d \<Rightarrow> parse_digits (10 * acc + d) cs)"

definition strip_plus :: "string \<Rightarrow> string" where
  "strip_plus s = (case s of [] \<Rightarrow> [] | c # cs \<Rightarrow> if c = CHR ''+'' then cs else s)"

definition parse_uint :: "nat \<Rightarrow> string \<Rightarrow> nat option" where
  "parse_uint bits s =
     (let ds = strip_plus s in
      if ds = [] then None
      else case parse_digits 0 ds of
             None \<Rightarrow> None
           | Some n \<Rightarrow> if n < 2 ^ bits then Some n else None)"

lemma of_char_digit_char: "d < 10 \<Longrightarrow> (of_char (digit_char d) :: nat) = 48 + d"
  by (simp add: digit_char_def)

lemma digit_val_digit_char [simp]: "d < 10 \<Longrightarrow> digit_val (digit_char d) = Some d"
  by (simp add: digit_val_def of_char_digit_char)

lemma digit_char_not_plus: "d < 10 \<Longrightarrow> digit_char d \<noteq> CHR ''+''"
proof
  assume d: "d < 10" and "digit_char d = CHR ''+''"
  then have "(of_char (digit_char d) :: nat) = of_char CHR ''+''" by simp
  with d show False by (simp add: of_char_digit_char)
qed

lemma nat_to_string_nonempty [simp]: "nat_to_string n \<noteq> []"
  by (subst nat_to_string.simps) simp

lemma hd_nat_to_string: "\<exists>d < 10. hd (nat_to_string n) = digit_char d"
proof (induction n rule: nat_to_string.induct)
  case (1 n)
  show ?case
    by (cases "n < 10") (use 1 in \<open>auto simp: nat_to_string.simps [of n]\<close>)
qed

lemma parse_digits_append:
  "parse_digits acc (xs @ ys) =
     (case parse_digits acc xs of None \<Rightarrow> None | Some a \<Rightarrow> parse_digits a ys)"
  by (induction xs arbitrary: acc) (auto split: option.splits)

lemma parse_digits_nat_to_string: "parse_digits 0 (nat_to_string n) = Some n"
proof (induction n rule: nat_to_string.induct)
  case (1 n)
  show ?case
    by (cases "n < 10") (use 1 in \<open>simp_all add: nat_to_string.simps [of n] parse_digits_append\<close>)
qed

lemma strip_plus_nat_to_string [simp]: "strip_plus (nat_to_string n) = nat_to_string n"
proof (cases "nat_to_string n")
  case (Cons c cs)
  from hd_nat_to_string [of n] obtain d where "d < 10" "c = digit_char d"
    by (auto simp: Cons)
  then show ?thesis by (simp add: strip_plus_def Cons digit_char_not_plus)
qed simp

lemma parse_uint_to_string:
  "parse_uint bits (nat_to_string n) = (if n < 2 ^ bits then Some n else None)"
  by (simp add: parse_uint_def parse_digits_nat_to_string)

lemma parse_uint_bound: "parse_uint bits s = Some n \<Longrightarrow> n < 2 ^ bits"
  by (auto simp: parse_uint_def Let_def split: option.splits if_splits)

definition word_to_string :: "'a::len word \<Rightarrow> string" where
  "word_to_string w = nat_to_string (unat w)"

definition parse_word :: "string \<Rightarrow> 'a::len word option" where
  "parse_word s = map_option of_nat (parse_uint LENGTH('a) s)"

lemma parse_word_to_string [simp]: "parse_word (word_to_string w) = Some (w :: 'a::len word)"
  by (simp add: parse_word_def word_to_string_def parse_uint_to_string)

section \<open>Transition systems and inductive invariants\<close>

text \<open>The servers are transition systems with labelled steps. \<open>reachable\<close> collects the states that
  a run from an initial state can reach, together with the labels of the run.\<close>

inductive run_of :: "('s \<Rightarrow> 'l \<Rightarrow> 's \<Rightarrow> bool) \<Rightarrow> 's \<Rightarrow> 'l list \<Rightarrow> 's \<Rightarrow> bool" for step where
  run_nil: "run_of step s [] s"
| run_snoc: "run_of step s ls t \<Longrightarrow> step t l u \<Longrightarrow> run_of step s (ls @ [l]) u"

inductive_simps run_of_Nil_iff: "run_of step s [] t"

lemma run_of_single: "step s l t \<Longrightarrow> run_of step s [l] t"
  using run_snoc [OF run_nil, of step s l t] by simp

lemma run_of_append:
  assumes "run_of step s ls t" and "run_of step t ks u"
  shows "run_of step s (ls @ ks) u"
  using assms(2,1)
  by (induction rule: run_of.induct) (auto simp: append_assoc [symmetric] simp del: append_assoc
      intro: run_of.intros)

text \<open>A predicate kept by every step holds along every run that starts in it.\<close>

locale inductive_invariant =
  fixes init :: "'s \<Rightarrow> bool"
    and step :: "'s \<Rightarrow> 'l \<Rightarrow> 's \<Rightarrow> bool"
    and inv :: "'s \<Rightarrow> bool"
  assumes init_inv: "init s \<Longrightarrow> inv s"
    and step_inv: "inv s \<Longrightarrow> step s l t \<Longrightarrow> inv t"
begin

lemma run_keeps_inv: "run_of step s ls t \<Longrightarrow> inv s \<Longrightarrow> inv t"
  by (induction rule: run_of.induct) (auto intro: step_inv)

lemma reachable_inv: "init s \<Longrightarrow> run_of step s ls t \<Longrightarrow> inv t"
  using run_keeps_inv init_inv by blast

end

text \<open>Forward simulation: every concrete step is matched by a run of the abstract machine, so
  every concrete run has an abstract run between the abstractions of its end states.\<close>

locale forward_simulation =
  fixes cstep :: "'s \<Rightarrow> 'l \<Rightarrow> 's \<Rightarrow> bool"
    and astep :: "'a \<Rightarrow> 'm \<Rightarrow> 'a \<Rightarrow> bool"
    and good :: "'s \<Rightarrow> bool"
    and abs :: "'s \<Rightarrow> 'a"
    and lab :: "'l \<Rightarrow> 'm list"
  assumes good_step: "good s \<Longrightarrow> cstep s l t \<Longrightarrow> good t"
    and sim_step: "good s \<Longrightarrow> cstep s l t \<Longrightarrow> run_of astep (abs s) (lab l) (abs t)"
begin

lemma run_good: "run_of cstep s ls t \<Longrightarrow> good s \<Longrightarrow> good t"
  by (induction rule: run_of.induct) (auto intro: good_step)

lemma run_simulated:
  "run_of cstep s ls t \<Longrightarrow> good s \<Longrightarrow> run_of astep (abs s) (concat (map lab ls)) (abs t)"
proof (induction rule: run_of.induct)
  case (run_nil s)
  show ?case by (simp add: run_of_Nil_iff)
next
  case (run_snoc s ls t l u)
  then have "good t" by (simp add: run_good)
  with run_snoc show ?case by (auto intro: run_of_append sim_step)
qed

end

section \<open>Lists\<close>

lemma length_filter_update:
  assumes "i < length xs"
  shows "length (filter P (xs[i := x])) + (if P (xs ! i) then 1 else 0)
       = length (filter P xs) + (if P x then 1 else 0)"
  using assms
proof (induction xs arbitrary: i)
  case (Cons y ys)
  show ?case
  proof (cases i)
    case (Suc j)
    with Cons.prems have "j < length ys" by simp
    from Cons.IH [OF this] show ?thesis by (simp add: Suc)
  qed simp
qed simp

lemma filter_update_pos:
  "i < length xs \<Longrightarrow> P (xs ! i) \<Longrightarrow> 0 < length (filter P xs)"
  by (auto simp: filter_empty_conv)

end
