(* ===== verification/Admission.thy ===== *)
theory Admission
  imports Ishtar_Prelude
begin

text \<open>
  What the two servers share: the bounded counter of admitted requests (\<open>AtomicUsize\<close> with
  \<open>fetch_update\<close>, given back by the \<open>Drop\<close> of \<open>PendingGuard\<close>) and the semaphore that hands out
  execution permits. The locales state what a list of tasks may rely on; the theories of the servers
  interpret them on their own tasks.
\<close>

section \<open>The operations\<close>

text \<open>\<open>AtomicUsize::fetch_update\<close>: the old value on success and on failure, and the value stored.\<close>

definition fetch_update :: "(usize \<Rightarrow> usize option) \<Rightarrow> usize \<Rightarrow> (usize + usize) \<times> usize" where
  "fetch_update f a = (case f a of Some v \<Rightarrow> (Inr a, v) | None \<Rightarrow> (Inl a, a))"

definition admit_pending :: "usize \<Rightarrow> usize \<Rightarrow> (usize + usize) \<times> usize" where
  "admit_pending max_pending =
     fetch_update (\<lambda>count. if count < max_pending then Some (count + 1) else None)"

definition pending_guard_drop :: "usize \<Rightarrow> usize" where
  "pending_guard_drop a = a - 1"

text \<open>A semaphore of \<open>tokio\<close> with its number of free permits.\<close>

definition try_acquire :: "nat \<Rightarrow> nat option" where
  "try_acquire permits = (if permits = 0 then None else Some (permits - 1))"

definition drop_permit :: "nat \<Rightarrow> nat" where
  "drop_permit permits = permits + 1"

section \<open>Contracts\<close>

text \<open>A bounded gate: tasks are counted from their admission until \<open>live\<close> no longer holds of them.
  The counter is exact as long as it is only changed by the two operations.\<close>

locale bounded_admission =
  fixes cap :: usize
    and admit :: "usize \<Rightarrow> (usize + usize) \<times> usize"
    and leave :: "usize \<Rightarrow> usize"
    and live :: "'t \<Rightarrow> bool"
  assumes admit_full: "cap \<le> n \<Longrightarrow> admit n = (Inl n, n)"
    and admit_room: "n < cap \<Longrightarrow> \<exists>n'. admit n = (Inr n, n') \<and> unat n' = unat n + 1"
    and leave_dec: "0 < unat n \<Longrightarrow> unat (leave n) + 1 = unat n"
begin

definition counts :: "usize \<Rightarrow> 't list \<Rightarrow> bool" where
  "counts n ts \<longleftrightarrow> unat n = length (filter live ts) \<and> n \<le> cap"

lemma counts_empty: "counts 0 []"
  by (simp add: counts_def)

lemma admit_success_iff: "admit n = (Inr m, n') \<longleftrightarrow> n < cap \<and> m = n \<and> n' = snd (admit n)"
  using admit_full [of n] admit_room [of n] by (cases "n < cap") auto

lemma admit_refused_iff: "(\<exists>m n'. admit n = (Inl m, n')) \<longleftrightarrow> cap \<le> n"
  using admit_full [of n] admit_room [of n] by (cases "n < cap") auto

lemma counts_admit:
  assumes "counts n ts" and "admit n = (Inr m, n')" and "live t"
  shows "counts n' (ts @ [t])"
proof -
  from assms(2) have "n < cap" using admit_full [of n] by (cases "n < cap") auto
  with admit_room [OF this] assms show ?thesis
    by (auto simp: counts_def word_le_nat_alt word_less_nat_alt)
qed

lemma counts_refused_full:
  "counts n ts \<Longrightarrow> admit n = (Inl m, n') \<Longrightarrow> length (filter live ts) = unat cap"
  using admit_room [of n] by (cases "n < cap") (auto simp: counts_def)

lemma counts_same:
  assumes "counts n ts" and "i < length ts" and "live t = live (ts ! i)"
  shows "counts n (ts[i := t])"
  using assms length_filter_update [OF assms(2), of live t] by (auto simp: counts_def)

lemma counts_leave:
  assumes "counts n ts" and "i < length ts" and "live (ts ! i)" and "\<not> live t"
  shows "counts (leave n) (ts[i := t])"
proof -
  have u: "length (filter live (ts[i := t])) + 1 = unat n"
    using assms length_filter_update [OF assms(2), of live t] by (simp add: counts_def)
  then have "unat (leave n) + 1 = unat n" by (intro leave_dec) simp
  with u assms(1) show ?thesis by (auto simp: counts_def word_le_nat_alt)
qed

end

text \<open>A pool of permits: the free ones and those that \<open>holds\<close> attributes to tasks add up.\<close>

locale permit_pool =
  fixes total :: nat
    and acquire :: "nat \<Rightarrow> nat option"
    and release :: "nat \<Rightarrow> nat"
    and holds :: "'t \<Rightarrow> bool"
  assumes acquire_dec: "acquire n = Some n' \<Longrightarrow> n = n' + 1"
    and release_inc: "release n = n + 1"
begin

definition balanced :: "nat \<Rightarrow> 't list \<Rightarrow> bool" where
  "balanced n ts \<longleftrightarrow> n + length (filter holds ts) = total"

lemma balanced_initial: "balanced total []"
  by (simp add: balanced_def)

lemma balanced_holders: "balanced n ts \<Longrightarrow> length (filter holds ts) \<le> total"
  by (simp add: balanced_def)

lemma balanced_none_free:
  assumes "balanced n ts" and "i < length ts" and "holds (ts ! i)"
  shows "n < total"
proof -
  have "ts ! i \<in> set (filter holds ts)" using assms(2,3) by simp
  then have "0 < length (filter holds ts)" by (rule length_pos_if_in_set)
  with assms(1) show ?thesis by (simp only: balanced_def)
qed

lemma balanced_exclusive:
  assumes "balanced n ts" and "total = 1" and "i < length ts" "holds (ts ! i)"
    and "j < length ts" "holds (ts ! j)"
  shows "i = j"
proof -
  let ?H = "{k. k < length ts \<and> holds (ts ! k)}"
  have "length (filter holds ts) \<le> total" using assms(1) by (rule balanced_holders)
  then have "card ?H \<le> 1" unfolding assms(2) by (simp add: length_filter_conv_card)
  moreover have "finite ?H" "i \<in> ?H" "j \<in> ?H" using assms by auto
  ultimately show "i = j" by (metis card_le_Suc0_iff_eq One_nat_def)
qed

lemma balanced_append: "balanced n ts \<Longrightarrow> \<not> holds t \<Longrightarrow> balanced n (ts @ [t])"
  by (simp add: balanced_def)

lemma balanced_same:
  "balanced n ts \<Longrightarrow> i < length ts \<Longrightarrow> holds t = holds (ts ! i) \<Longrightarrow> balanced n (ts[i := t])"
  using length_filter_update [of i ts holds t] by (simp add: balanced_def split: if_splits)

lemma balanced_acquire:
  "balanced n ts \<Longrightarrow> i < length ts \<Longrightarrow> \<not> holds (ts ! i) \<Longrightarrow> holds t \<Longrightarrow> acquire n = Some n' \<Longrightarrow>
   balanced n' (ts[i := t])"
  using length_filter_update [of i ts holds t] acquire_dec [of n n'] by (simp add: balanced_def)

lemma balanced_release:
  "balanced n ts \<Longrightarrow> i < length ts \<Longrightarrow> holds (ts ! i) \<Longrightarrow> \<not> holds t \<Longrightarrow>
   balanced (release n) (ts[i := t])"
  using length_filter_update [of i ts holds t] by (simp add: balanced_def release_inc)

end

section \<open>The operations meet the contracts\<close>

lemma admit_pending_laws:
  "max_pending \<le> n \<Longrightarrow> admit_pending max_pending n = (Inl n, n)"
  "n < max_pending \<Longrightarrow> \<exists>n'. admit_pending max_pending n = (Inr n, n') \<and> unat n' = unat n + 1"
proof -
  show "admit_pending max_pending n = (Inl n, n)" if "max_pending \<le> n"
    using that by (simp add: admit_pending_def fetch_update_def not_less [symmetric])
next
  assume l: "n < max_pending"
  then have "unat n < unat max_pending" by (simp add: word_less_nat_alt)
  moreover have "unat max_pending < 2 ^ LENGTH(64)" by (rule unsigned_less)
  ultimately have "unat n + 1 < 2 ^ LENGTH(64)" by linarith
  then have "unat (n + 1) = unat n + 1" by (simp add: unat_add_lem [THEN iffD1])
  with l show "\<exists>n'. admit_pending max_pending n = (Inr n, n') \<and> unat n' = unat n + 1"
    by (simp add: admit_pending_def fetch_update_def)
qed

lemma pending_guard_drop_law: "0 < unat n \<Longrightarrow> unat (pending_guard_drop n) + 1 = unat n"
  by (simp add: pending_guard_drop_def unat_sub word_le_nat_alt)

lemma try_acquire_law: "try_acquire n = Some n' \<Longrightarrow> n = n' + 1"
  by (auto simp: try_acquire_def split: if_splits)

end
