(* ===== verification/Sandbox.thy ===== *)
theory Sandbox
  imports Ishtar_Prelude
begin

text \<open>
  The two runner sandboxes: \<open>crates/scheduler/src/sandbox.rs\<close> (production) and
  \<open>crates/sequential-lab/src/sandbox.rs\<close> (the lab). Both install descriptor closure, no-new-privs,
  resource limits, a Landlock ruleset without rules and a seccomp allowlist, in different orders
  and with different tables.

  The kernel and the crates \<open>landlock\<close> and \<open>seccompiler\<close> are not part of the repository. The
  kernel is the record \<open>kernel\<close> of functions from the process state to an error or a new process
  state; what its calls are documented to do on success is the hypothesis \<open>kernel_contract\<close>. What
  an installed filter decides is a function \<open>run\<close> constrained by \<open>seccompiler_contract\<close>. The filter
  tables themselves are translated here.
\<close>

unbundle bit_operations_syntax

type_synonym error = string

section \<open>Seccomp filters as data\<close>

datatype syscall =
    SYS_brk | SYS_madvise | SYS_mremap | SYS_munmap | SYS_futex | SYS_sched_yield
  | SYS_rt_sigaction | SYS_rt_sigprocmask | SYS_rt_sigreturn | SYS_sigaltstack | SYS_close
  | SYS_exit | SYS_exit_group | SYS_mmap | SYS_mprotect | SYS_write | SYS_writev
  | SYS_getrandom | SYS_other nat

datatype cmp_arg_len = Dword | Qword

datatype cmp_op = CmpEq | CmpLe | CmpMaskedEq u64

record seccomp_condition =
  arg_index :: nat
  arg_len :: cmp_arg_len
  operator :: cmp_op
  cmp_value :: u64

type_synonym seccomp_rule = "seccomp_condition list"
type_synonym seccomp_rules = "syscall \<rightharpoonup> seccomp_rule list"

datatype seccomp_action = Kill_process | Allow

record seccomp_filter =
  filter_rules :: seccomp_rules
  mismatch_action :: seccomp_action
  match_action :: seccomp_action

text \<open>The documented meaning of conditions and filters: a double-word comparison looks at the low
  32 bits of the argument, a rule matches when all its conditions hold, and a system call takes the
  match action when it is a key of the table whose rule list is empty or has a matching rule.\<close>

definition arg_value :: "cmp_arg_len \<Rightarrow> u64 \<Rightarrow> u64" where
  "arg_value l a = (case l of Dword \<Rightarrow> take_bit 32 a | Qword \<Rightarrow> a)"

definition condition_holds :: "seccomp_condition \<Rightarrow> (nat \<Rightarrow> u64) \<Rightarrow> bool" where
  "condition_holds c args =
     (let a = arg_value (arg_len c) (args (arg_index c)); v = cmp_value c in
      case operator c of
        CmpEq \<Rightarrow> a = v
      | CmpLe \<Rightarrow> a \<le> v
      | CmpMaskedEq m \<Rightarrow> a AND m = v AND m)"

definition rule_matches :: "seccomp_rule \<Rightarrow> (nat \<Rightarrow> u64) \<Rightarrow> bool" where
  "rule_matches r args = list_all (\<lambda>c. condition_holds c args) r"

definition documented_decision :: "seccomp_filter \<Rightarrow> syscall \<Rightarrow> (nat \<Rightarrow> u64) \<Rightarrow> seccomp_action" where
  "documented_decision f nr args =
     (case filter_rules f nr of
        None \<Rightarrow> mismatch_action f
      | Some rs \<Rightarrow> if rs = [] \<or> list_ex (\<lambda>r. rule_matches r args) rs
                    then match_action f else mismatch_action f)"

definition seccompiler_contract ::
    "(seccomp_filter \<Rightarrow> syscall \<Rightarrow> (nat \<Rightarrow> u64) \<Rightarrow> seccomp_action) \<Rightarrow> bool" where
  "seccompiler_contract run \<longleftrightarrow> (\<forall>f nr args. run f nr args = documented_decision f nr args)"

text \<open>What the constructors of the crate reject: an argument index beyond the sixth argument, an
  empty rule, equal actions. The tables below never run into it.\<close>

definition filter_constructible :: "seccomp_filter \<Rightarrow> bool" where
  "filter_constructible f \<longleftrightarrow>
     match_action f \<noteq> mismatch_action f \<and>
     (\<forall>nr rs. filter_rules f nr = Some rs \<longrightarrow>
        list_all (\<lambda>r. r \<noteq> [] \<and> list_all (\<lambda>c. arg_index c \<le> 5) r) rs)"

section \<open>The filter tables\<close>

abbreviation PROT_EXEC :: u64 where "PROT_EXEC \<equiv> 4"
abbreviation MAP_ANONYMOUS :: u64 where "MAP_ANONYMOUS \<equiv> 32"
abbreviation U32_MAX :: u64 where "U32_MAX \<equiv> 4294967295"

definition fd_rule :: "u64 \<Rightarrow> seccomp_rule" where
  "fd_rule fd = [\<lparr>arg_index = 0, arg_len = Dword, operator = CmpEq, cmp_value = fd\<rparr>]"

definition masked_zero :: "nat \<Rightarrow> u64 \<Rightarrow> seccomp_condition" where
  "masked_zero argument bits =
     \<lparr>arg_index = argument, arg_len = Dword, operator = CmpMaskedEq bits, cmp_value = 0\<rparr>"

definition unconditional_syscalls :: "syscall list" where
  "unconditional_syscalls =
     [SYS_brk, SYS_madvise, SYS_mremap, SYS_munmap, SYS_futex, SYS_sched_yield,
      SYS_rt_sigaction, SYS_rt_sigprocmask, SYS_rt_sigreturn, SYS_sigaltstack, SYS_close,
      SYS_exit, SYS_exit_group]"

definition insert_all :: "syscall list \<Rightarrow> seccomp_rules \<Rightarrow> seccomp_rules" where
  "insert_all ss m = fold (\<lambda>s m. m(s \<mapsto> [])) ss m"

definition anonymous_mmap_rule :: seccomp_rule where
  "anonymous_mmap_rule =
     [masked_zero 2 PROT_EXEC,
      \<lparr>arg_index = 3, arg_len = Dword, operator = CmpMaskedEq MAP_ANONYMOUS,
       cmp_value = MAP_ANONYMOUS\<rparr>,
      \<lparr>arg_index = 4, arg_len = Dword, operator = CmpEq, cmp_value = U32_MAX\<rparr>]"

definition runner_filter :: seccomp_filter where
  "runner_filter =
     \<lparr>filter_rules =
        (insert_all unconditional_syscalls Map.empty)
          (SYS_mmap \<mapsto> [anonymous_mmap_rule],
           SYS_mprotect \<mapsto> [[masked_zero 2 PROT_EXEC]],
           SYS_write \<mapsto> [fd_rule 1, fd_rule 2],
           SYS_writev \<mapsto> [fd_rule 1, fd_rule 2]),
      mismatch_action = Kill_process,
      match_action = Allow\<rparr>"

definition lab_filter :: seccomp_filter where
  "lab_filter =
     \<lparr>filter_rules =
        (insert_all unconditional_syscalls Map.empty)
          (SYS_mmap \<mapsto> [anonymous_mmap_rule],
           SYS_mprotect \<mapsto> [[masked_zero 2 PROT_EXEC]],
           SYS_getrandom \<mapsto>
             [[\<lparr>arg_index = 1, arg_len = Qword, operator = CmpLe, cmp_value = 32\<rparr>]],
           SYS_write \<mapsto> [fd_rule 1, fd_rule 2],
           SYS_writev \<mapsto> [fd_rule 1, fd_rule 2]),
      mismatch_action = Kill_process,
      match_action = Allow\<rparr>"

section \<open>The process and the kernel\<close>

datatype resource = RLIMIT_AS | RLIMIT_CPU | RLIMIT_NOFILE | RLIMIT_NPROC | RLIMIT_FSIZE

datatype landlock_abi = ABI_V3

datatype compat_level = BestEffort | HardRequirement

record landlock_ruleset =
  handled_access :: landlock_abi
  compatibility :: compat_level
  path_rules :: "string list"

datatype ruleset_status = NotEnforced | PartiallyEnforced | FullyEnforced

record proc =
  p_env :: "(string \<times> string) list"
  p_fds :: "nat list"
  p_no_new_privs :: bool
  p_rlimits :: "resource \<Rightarrow> u64 option"
  p_landlock :: "landlock_ruleset list"
  p_seccomp :: "seccomp_filter list"

record kernel =
  k_close_range :: "u32 \<Rightarrow> u32 \<Rightarrow> proc \<Rightarrow> error + proc"
  k_no_new_privs :: "proc \<Rightarrow> error + proc"
  k_setrlimit :: "resource \<Rightarrow> u64 \<Rightarrow> proc \<Rightarrow> error + proc"
  k_landlock_create :: "landlock_ruleset \<Rightarrow> proc \<Rightarrow> error + nat \<times> proc"
  k_landlock_restrict :: "landlock_ruleset \<Rightarrow> nat \<Rightarrow> proc \<Rightarrow> error + ruleset_status \<times> proc"
  k_install_filter :: "seccomp_filter \<Rightarrow> proc \<Rightarrow> error + proc"

text \<open>What each call is documented to have done when it reports success. \<open>restrict_self\<close> consumes
  the ruleset descriptor.\<close>

definition kernel_contract :: "kernel \<Rightarrow> bool" where
  "kernel_contract K \<longleftrightarrow>
     (\<forall>lo hi p p'. k_close_range K lo hi p = Inr p' \<longrightarrow>
        p' = p\<lparr>p_fds := filter (\<lambda>fd. \<not> (unat lo \<le> fd \<and> fd \<le> unat hi)) (p_fds p)\<rparr>) \<and>
     (\<forall>p p'. k_no_new_privs K p = Inr p' \<longrightarrow> p' = p\<lparr>p_no_new_privs := True\<rparr>) \<and>
     (\<forall>r v p p'. k_setrlimit K r v p = Inr p' \<longrightarrow>
        p' = p\<lparr>p_rlimits := (p_rlimits p)(r \<mapsto> v)\<rparr>) \<and>
     (\<forall>rs fd p p'. k_landlock_create K rs p = Inr (fd, p') \<longrightarrow>
        fd \<notin> set (p_fds p) \<and> p' = p\<lparr>p_fds := fd # p_fds p\<rparr>) \<and>
     (\<forall>rs fd p p'. k_landlock_restrict K rs fd p = Inr (FullyEnforced, p') \<longrightarrow>
        p' = p\<lparr>p_fds := removeAll fd (p_fds p), p_landlock := rs # p_landlock p\<rparr>) \<and>
     (\<forall>f p p'. k_install_filter K f p = Inr p' \<longrightarrow> p' = p\<lparr>p_seccomp := f # p_seccomp p\<rparr>)"

text \<open>A call that returns a new descriptor picks a free number below the limit on open files, and
  fails when there is none.\<close>

definition descriptor_limit_law :: "kernel \<Rightarrow> bool" where
  "descriptor_limit_law K \<longleftrightarrow>
     (\<forall>rs p n. p_rlimits p RLIMIT_NOFILE = Some n \<longrightarrow>
        (\<forall>fd < unat n. fd \<in> set (p_fds p)) \<longrightarrow> \<not> is_ok (k_landlock_create K rs p))"

section \<open>Operations of both sandboxes\<close>

text \<open>\<open>.context(..)\<close> and \<open>bail!\<close> replace the error of the call by the message of the source.\<close>

definition with_message :: "error \<Rightarrow> error + 'a \<Rightarrow> error + 'a" where
  "with_message msg r = (case r of Inl _ \<Rightarrow> Inl msg | Inr v \<Rightarrow> Inr v)"

lemma with_message_Inr_iff [result_simps]: "with_message m r = Inr v \<longleftrightarrow> r = Inr v"
  by (cases r) (simp_all add: with_message_def)

lemma with_message_Inl_iff [result_simps]:
  "with_message m r = Inl e \<longleftrightarrow> \<not> is_ok r \<and> e = m"
  by (cases r) (auto simp: with_message_def)

lemma with_message_simps [simp]: "with_message m (Inl e) = Inl m" "with_message m (Inr v) = Inr v"
  by (simp_all add: with_message_def)

definition close_inherited_descriptors :: "kernel \<Rightarrow> proc \<Rightarrow> error + proc" where
  "close_inherited_descriptors K p = with_message ''close_range failed'' (k_close_range K 3 (- 1) p)"

definition set_no_new_privs :: "kernel \<Rightarrow> proc \<Rightarrow> error + proc" where
  "set_no_new_privs K p = with_message ''PR_SET_NO_NEW_PRIVS failed'' (k_no_new_privs K p)"

definition set_limit :: "kernel \<Rightarrow> resource \<Rightarrow> u64 \<Rightarrow> proc \<Rightarrow> error + proc" where
  "set_limit K r v p = with_message ''setrlimit failed'' (k_setrlimit K r v p)"

definition deny_all_ruleset :: landlock_ruleset where
  "deny_all_ruleset =
     \<lparr>handled_access = ABI_V3, compatibility = HardRequirement, path_rules = []\<rparr>"

definition restrict_filesystem :: "error \<Rightarrow> kernel \<Rightarrow> proc \<Rightarrow> error + proc" where
  "restrict_filesystem msg K p =
     try_bind (k_landlock_create K deny_all_ruleset p) (\<lambda>(fd, p).
     try_bind (k_landlock_restrict K deny_all_ruleset fd p) (\<lambda>(status, p).
     try_bind (ensure (status = FullyEnforced) msg) (\<lambda>_.
     Inr p)))"

definition apply_landlock :: "kernel \<Rightarrow> proc \<Rightarrow> error + proc" where
  "apply_landlock =
     restrict_filesystem ''Landlock filesystem policy was not fully enforced''"

definition lab_apply_landlock :: "kernel \<Rightarrow> proc \<Rightarrow> error + proc" where
  "lab_apply_landlock = restrict_filesystem ''Landlock was not fully enforced''"

section \<open>The production sandbox\<close>

record sandbox_policy =
  address_space_bytes :: u64
  cpu_seconds :: u64
  open_files :: u64

record sandbox_status =
  no_new_privs_applied :: bool
  rlimits_applied :: bool
  seccomp_applied :: bool
  landlock_applied :: bool
  status_notes :: "string list"

definition verify_required :: "bool \<Rightarrow> sandbox_status \<Rightarrow> error + unit" where
  "verify_required linux st =
     (let fully_applied = no_new_privs_applied st \<and> rlimits_applied st
                          \<and> seccomp_applied st \<and> landlock_applied st
      in if linux \<and> \<not> fully_applied
         then Inl ''required runner sandbox was not fully applied'' else Inr ())"

definition apply_rlimits :: "kernel \<Rightarrow> sandbox_policy \<Rightarrow> proc \<Rightarrow> error + proc" where
  "apply_rlimits K pol p =
     try_bind (set_limit K RLIMIT_AS (address_space_bytes pol) p) (\<lambda>p.
     try_bind (set_limit K RLIMIT_CPU (cpu_seconds pol) p) (\<lambda>p.
     try_bind (set_limit K RLIMIT_NOFILE (open_files pol) p) (\<lambda>p.
     try_bind (set_limit K RLIMIT_NPROC 1 p) (\<lambda>p.
     try_bind (set_limit K RLIMIT_FSIZE 0 p) (\<lambda>p.
     Inr p)))))"

definition apply_seccomp :: "kernel \<Rightarrow> proc \<Rightarrow> error + proc" where
  "apply_seccomp K p =
     with_message ''install runner seccomp filter'' (k_install_filter K runner_filter p)"

definition apply_runner_sandbox ::
    "kernel \<Rightarrow> sandbox_policy \<Rightarrow> proc \<Rightarrow> error + sandbox_status \<times> proc" where
  "apply_runner_sandbox K pol p =
     try_bind (set_no_new_privs K p) (\<lambda>p.
     try_bind (apply_rlimits K pol p) (\<lambda>p.
     try_bind (apply_landlock K p) (\<lambda>p.
     try_bind (apply_seccomp K p) (\<lambda>p.
     Inr (\<lparr>no_new_privs_applied = True, rlimits_applied = True, seccomp_applied = True,
           landlock_applied = True,
           status_notes = [''filesystem-denying Landlock and seccomp installed before parsing'']\<rparr>, p)))))"

text \<open>On other systems nothing is applied, and the status says so.\<close>

definition apply_runner_sandbox_portable :: "sandbox_policy \<Rightarrow> proc \<Rightarrow> error + sandbox_status \<times> proc"
  where
  "apply_runner_sandbox_portable pol p =
     Inr (\<lparr>no_new_privs_applied = False, rlimits_applied = False, seccomp_applied = False,
           landlock_applied = False,
           status_notes = [''Linux sandbox controls are unavailable on this host'']\<rparr>, p)"

section \<open>The sandbox of the lab\<close>

record lab_sandbox_policy =
  lab_address_space_bytes :: u64
  lab_cpu_seconds :: u64

definition lab_apply_seccomp :: "kernel \<Rightarrow> proc \<Rightarrow> error + proc" where
  "lab_apply_seccomp K p = with_message ''install seccomp filter'' (k_install_filter K lab_filter p)"

definition lab_apply :: "kernel \<Rightarrow> lab_sandbox_policy \<Rightarrow> proc \<Rightarrow> error + proc" where
  "lab_apply K pol p =
     try_bind (set_no_new_privs K p) (\<lambda>p.
     try_bind (set_limit K RLIMIT_AS (lab_address_space_bytes pol) p) (\<lambda>p.
     try_bind (set_limit K RLIMIT_CPU (lab_cpu_seconds pol) p) (\<lambda>p.
     try_bind (set_limit K RLIMIT_NPROC 1 p) (\<lambda>p.
     try_bind (set_limit K RLIMIT_FSIZE 0 p) (\<lambda>p.
     try_bind (lab_apply_landlock K p) (\<lambda>p.
     try_bind (set_limit K RLIMIT_NOFILE 3 p) (\<lambda>p.
     try_bind (lab_apply_seccomp K p) (\<lambda>p.
     Inr p))))))))"

section \<open>What the filters allow\<close>

text \<open>The contract that both tables meet: kill by default, the common unconditional calls, anonymous
  and non-executable mappings only, no executable re-protection, writes to the two output streams
  only. \<open>extra\<close> are the table's further rules.\<close>

locale runner_allowlist =
  fixes f :: seccomp_filter and extra :: "syscall \<rightharpoonup> seccomp_rule list"
  assumes actions: "mismatch_action f = Kill_process" "match_action f = Allow"
    and table: "filter_rules f =
      extra ++ [SYS_mmap \<mapsto> [anonymous_mmap_rule], SYS_mprotect \<mapsto> [[masked_zero 2 PROT_EXEC]],
                SYS_write \<mapsto> [fd_rule 1, fd_rule 2], SYS_writev \<mapsto> [fd_rule 1, fd_rule 2]]
            ++ (\<lambda>s. if s \<in> set unconditional_syscalls then Some [] else None)"
begin

lemma decision_eq:
  "documented_decision f nr args =
     (if nr \<in> set unconditional_syscalls then Allow
      else case ([SYS_mmap \<mapsto> [anonymous_mmap_rule], SYS_mprotect \<mapsto> [[masked_zero 2 PROT_EXEC]],
                SYS_write \<mapsto> [fd_rule 1, fd_rule 2], SYS_writev \<mapsto> [fd_rule 1, fd_rule 2]]) nr of
        Some rs \<Rightarrow> if list_ex (\<lambda>r. rule_matches r args) rs then Allow else Kill_process
      | None \<Rightarrow> (case extra nr of
            None \<Rightarrow> Kill_process
          | Some rs \<Rightarrow> if rs = [] \<or> list_ex (\<lambda>r. rule_matches r args) rs
                        then Allow else Kill_process))"
  unfolding documented_decision_def table actions by (auto simp: map_add_def)

lemma constructible:
  assumes "\<And>nr rs. extra nr = Some rs \<Longrightarrow> list_all (\<lambda>r. r \<noteq> [] \<and> list_all (\<lambda>c. arg_index c \<le> 5) r) rs"
  shows "filter_constructible f"
  using assms unfolding filter_constructible_def table actions
  by (auto simp: map_add_def anonymous_mmap_rule_def masked_zero_def fd_rule_def
      split: if_splits option.splits)

end

lemma insert_all_eq: "insert_all ss m = m ++ (\<lambda>s. if s \<in> set ss then Some [] else None)"
  unfolding insert_all_def
  by (induction ss arbitrary: m) (auto simp: fun_eq_iff map_add_def)

interpretation runner: runner_allowlist runner_filter Map.empty
  by unfold_locales
    (auto simp: runner_filter_def insert_all_eq fun_eq_iff map_add_def unconditional_syscalls_def)

interpretation lab: runner_allowlist lab_filter
  "[SYS_getrandom \<mapsto> [[\<lparr>arg_index = 1, arg_len = Qword, operator = CmpLe, cmp_value = 32\<rparr>]]]"
  by unfold_locales
    (auto simp: lab_filter_def insert_all_eq fun_eq_iff map_add_def unconditional_syscalls_def)

lemma and_exp_eq: "(w :: 'a::len word) AND 2 ^ n = (if bit w n then 2 ^ n else 0)"
  by (rule bit_word_eqI) (auto simp: bit_and_iff bit_exp_iff)

lemma masked_zero_holds: "condition_holds (masked_zero i 4) args \<longleftrightarrow> \<not> bit (args i) 2"
  using and_exp_eq [of "take_bit 32 (args i)" 2]
  by (simp add: condition_holds_def masked_zero_def arg_value_def bit_take_bit_iff)

lemma anonymous_holds:
  "condition_holds \<lparr>arg_index = i, arg_len = Dword, operator = CmpMaskedEq 32, cmp_value = 32\<rparr> args
   \<longleftrightarrow> bit (args i) 5"
  using and_exp_eq [of "take_bit 32 (args i)" 5]
  by (simp add: condition_holds_def arg_value_def bit_take_bit_iff)

lemma rule_matches_simps [simp]:
  "rule_matches [] args"
  "rule_matches (c # cs) args \<longleftrightarrow> condition_holds c args \<and> rule_matches cs args"
  by (simp_all add: rule_matches_def)

lemma fd_rule_matches: "rule_matches (fd_rule fd) args \<longleftrightarrow> take_bit 32 (args 0) = fd"
  by (simp add: fd_rule_def condition_holds_def arg_value_def)

lemma anonymous_mmap_matches:
  "rule_matches anonymous_mmap_rule args \<longleftrightarrow>
     \<not> bit (args 2) 2 \<and> bit (args 3) 5 \<and> take_bit 32 (args 4) = U32_MAX"
  by (simp add: anonymous_mmap_rule_def masked_zero_holds anonymous_holds)
    (simp add: condition_holds_def arg_value_def)

lemmas filter_decision_simps =
  masked_zero_holds fd_rule_matches anonymous_mmap_matches

text \<open>The calls that a runner of the scheduler may make, in terms of the argument registers: memory
  management, locks, signal handling, closing a descriptor and exiting, whatever the arguments; mappings
  that are anonymous and not executable; protections that are not executable; writes to the descriptors 1
  and 2. The list is written out here, apart from the table of the filter.\<close>

definition harmless_call :: "syscall \<Rightarrow> (nat \<Rightarrow> u64) \<Rightarrow> bool" where
  "harmless_call nr args =
     (nr \<in> {SYS_brk, SYS_madvise, SYS_mremap, SYS_munmap, SYS_futex, SYS_sched_yield,
             SYS_rt_sigaction, SYS_rt_sigprocmask, SYS_rt_sigreturn, SYS_sigaltstack, SYS_close,
             SYS_exit, SYS_exit_group}
      \<or> nr = SYS_mmap \<and> \<not> bit (args 2) 2 \<and> bit (args 3) 5 \<and> take_bit 32 (args 4) = U32_MAX
      \<or> nr = SYS_mprotect \<and> \<not> bit (args 2) 2
      \<or> nr \<in> {SYS_write, SYS_writev} \<and> take_bit 32 (args 0) \<in> {1, 2})"

text \<open>C12: under the documented semantics of seccompiler, the filter installed by the production
  runner allows exactly the thirteen calls listed in \<open>harmless_call\<close>, anonymous mappings without execute
  permission on descriptor -1, re-protection without execute permission, and writes to standard
  output and standard error, and kills the process at every other call: in particular at \<open>getrandom\<close>
  and at every call that has no name in the model, whatever its number and arguments are, which are all
  the calls that open files, use the network, start processes or read clocks.\<close>

theorem runner_filter_allows_iff:
  assumes "seccompiler_contract run"
  shows "run runner_filter nr args = (if harmless_call nr args then Allow else Kill_process) \<and>
         run runner_filter SYS_getrandom args = Kill_process \<and>
         run runner_filter (SYS_other n) args = Kill_process"
proof -
  have "run runner_filter nr args = (if harmless_call nr args then Allow else Kill_process)" for nr
  proof -
    have "run runner_filter nr args = documented_decision runner_filter nr args"
      using assms by (simp add: seccompiler_contract_def)
    then show ?thesis
      by (auto simp: runner.decision_eq harmless_call_def filter_decision_simps unconditional_syscalls_def)
  qed
  then show ?thesis by (simp add: harmless_call_def)
qed

theorem runner_filter_allows_iff_witness:
  "seccompiler_contract documented_decision \<and>
   documented_decision runner_filter SYS_write (\<lambda>_. 1) = Allow \<and>
   documented_decision runner_filter SYS_write (\<lambda>_. 3) = Kill_process \<and>
   documented_decision runner_filter (SYS_other 41) (\<lambda>_. 0) = Kill_process"
proof -
  have c: "seccompiler_contract documented_decision" by (simp add: seccompiler_contract_def)
  show ?thesis
    using c runner_filter_allows_iff [OF c, of SYS_write "\<lambda>_. 1" 41]
      runner_filter_allows_iff [OF c, of SYS_write "\<lambda>_. 3" 41]
      runner_filter_allows_iff [OF c, of SYS_write "\<lambda>_. 0" 41]
    by (simp add: harmless_call_def take_bit_eq_mod)
qed

text \<open>The filter of the lab allows what the production filter allows and in addition only
  \<open>getrandom\<close> calls of at most 32 bytes, which the production filter kills.\<close>

theorem lab_filter_extends_runner_filter:
  assumes "seccompiler_contract run"
  shows "run lab_filter nr args =
           (if run runner_filter nr args = Allow \<or> nr = SYS_getrandom \<and> args 1 \<le> 32
            then Allow else Kill_process)
         \<and> run runner_filter SYS_getrandom args = Kill_process"
proof -
  have eq: "run f nr args = documented_decision f nr args" for f nr args
    using assms by (simp add: seccompiler_contract_def)
  have "documented_decision lab_filter nr args =
           (if documented_decision runner_filter nr args = Allow
               \<or> nr = SYS_getrandom \<and> args 1 \<le> 32
            then Allow else Kill_process)"
    unfolding runner.decision_eq lab.decision_eq
    by (auto simp: condition_holds_def arg_value_def unconditional_syscalls_def)
  moreover have "documented_decision runner_filter SYS_getrandom args = Kill_process"
    unfolding runner.decision_eq by (simp add: unconditional_syscalls_def)
  ultimately show ?thesis by (simp only: eq)
qed

theorem lab_filter_extends_runner_filter_witness:
  "seccompiler_contract documented_decision \<and>
   documented_decision lab_filter SYS_getrandom (\<lambda>_. 16) = Allow \<and>
   documented_decision lab_filter SYS_getrandom (\<lambda>_. 64) = Kill_process"
proof -
  have c: "seccompiler_contract documented_decision" by (simp add: seccompiler_contract_def)
  show ?thesis
    using c lab_filter_extends_runner_filter [OF c, of SYS_getrandom "\<lambda>_. 16"]
      lab_filter_extends_runner_filter [OF c, of SYS_getrandom "\<lambda>_. 64"]
    by simp
qed

lemma filters_constructible: "filter_constructible runner_filter" "filter_constructible lab_filter"
  by (rule runner.constructible, simp) (rule lab.constructible, auto split: if_splits)

section \<open>What a successful sandbox call has established\<close>

definition confined :: "seccomp_filter \<Rightarrow> u64 \<Rightarrow> u64 \<Rightarrow> u64 \<Rightarrow> proc \<Rightarrow> bool" where
  "confined f mem cpu files p \<longleftrightarrow>
     p_no_new_privs p \<and>
     p_rlimits p RLIMIT_AS = Some mem \<and> p_rlimits p RLIMIT_CPU = Some cpu \<and>
     p_rlimits p RLIMIT_NOFILE = Some files \<and> p_rlimits p RLIMIT_NPROC = Some 1 \<and>
     p_rlimits p RLIMIT_FSIZE = Some 0 \<and>
     deny_all_ruleset \<in> set (p_landlock p) \<and> f \<in> set (p_seccomp p)"

lemmas kernel_call_defs =
  close_inherited_descriptors_def set_no_new_privs_def set_limit_def apply_seccomp_def
  lab_apply_seccomp_def apply_landlock_def lab_apply_landlock_def

lemma kernel_contractD:
  assumes "kernel_contract K"
  shows "k_close_range K lo hi p = Inr p' \<Longrightarrow>
      p' = p\<lparr>p_fds := filter (\<lambda>fd. \<not> (unat lo \<le> fd \<and> fd \<le> unat hi)) (p_fds p)\<rparr>"
    and "k_no_new_privs K p = Inr p' \<Longrightarrow> p' = p\<lparr>p_no_new_privs := True\<rparr>"
    and "k_setrlimit K r v p = Inr p' \<Longrightarrow> p' = p\<lparr>p_rlimits := (p_rlimits p)(r \<mapsto> v)\<rparr>"
    and "k_landlock_create K rs p = Inr (fd, p') \<Longrightarrow>
      fd \<notin> set (p_fds p) \<and> p' = p\<lparr>p_fds := fd # p_fds p\<rparr>"
    and "k_landlock_restrict K rs fd p = Inr (FullyEnforced, p') \<Longrightarrow>
      p' = p\<lparr>p_fds := removeAll fd (p_fds p), p_landlock := rs # p_landlock p\<rparr>"
    and "k_install_filter K f p = Inr p' \<Longrightarrow> p' = p\<lparr>p_seccomp := f # p_seccomp p\<rparr>"
  using assms unfolding kernel_contract_def by auto

text \<open>The state after each operation, when it succeeds.\<close>

lemma close_inherited_descriptors_ok:
  assumes "kernel_contract K" and "close_inherited_descriptors K p = Inr p'"
  shows "p' = p\<lparr>p_fds := filter (\<lambda>fd. fd < 3 \<or> 2 ^ 32 \<le> fd) (p_fds p)\<rparr>"
proof -
  have "(\<lambda>fd. \<not> (unat (3 :: u32) \<le> fd \<and> fd \<le> unat (- 1 :: u32))) = (\<lambda>fd. fd < 3 \<or> 2 ^ 32 \<le> fd)"
    by (rule ext) (simp add: unat_max_word, arith)
  with assms kernel_contractD(1) [OF assms(1), of 3 "- 1" p p'] show ?thesis
    by (simp add: close_inherited_descriptors_def result_simps)
qed

lemma set_no_new_privs_ok:
  "kernel_contract K \<Longrightarrow> set_no_new_privs K p = Inr p' \<Longrightarrow> p' = p\<lparr>p_no_new_privs := True\<rparr>"
  by (simp add: set_no_new_privs_def result_simps kernel_contractD(2))

lemma set_limit_ok:
  "kernel_contract K \<Longrightarrow> set_limit K r v p = Inr p' \<Longrightarrow>
     p' = p\<lparr>p_rlimits := (p_rlimits p)(r \<mapsto> v)\<rparr>"
  by (simp add: set_limit_def result_simps kernel_contractD(3))

lemma restrict_filesystem_ok:
  assumes "kernel_contract K" and "restrict_filesystem msg K p = Inr p'"
  shows "p' = p\<lparr>p_landlock := deny_all_ruleset # p_landlock p\<rparr>"
proof -
  from assms(2) obtain fd p1 where
      c: "k_landlock_create K deny_all_ruleset p = Inr (fd, p1)"
    and r: "k_landlock_restrict K deny_all_ruleset fd p1 = Inr (FullyEnforced, p')"
    by (auto simp: restrict_filesystem_def result_simps)
  from kernel_contractD(4) [OF assms(1) c] kernel_contractD(5) [OF assms(1) r]
  show ?thesis by simp
qed

lemma install_filter_ok:
  "kernel_contract K \<Longrightarrow> apply_seccomp K p = Inr p' \<Longrightarrow>
     p' = p\<lparr>p_seccomp := runner_filter # p_seccomp p\<rparr>"
  "kernel_contract K \<Longrightarrow> lab_apply_seccomp K p = Inr p' \<Longrightarrow>
     p' = p\<lparr>p_seccomp := lab_filter # p_seccomp p\<rparr>"
  by (simp_all add: apply_seccomp_def lab_apply_seccomp_def result_simps kernel_contractD(6))

lemmas kernel_call_ok =
  set_no_new_privs_ok set_limit_ok restrict_filesystem_ok install_filter_ok

lemma apply_runner_sandbox_state:
  assumes "kernel_contract K" and "apply_runner_sandbox K pol p = Inr (st, p')"
  shows "confined runner_filter (address_space_bytes pol) (cpu_seconds pol) (open_files pol) p'
         \<and> p_env p' = p_env p \<and> p_fds p' = p_fds p \<and> verify_required True st = Inr ()"
  using assms(2)
  by (auto simp: apply_runner_sandbox_def apply_rlimits_def apply_landlock_def result_simps
      confined_def verify_required_def dest!: kernel_call_ok [OF assms(1)])

lemma lab_apply_state:
  assumes "kernel_contract K" and "lab_apply K pol p = Inr p'"
  shows "confined lab_filter (lab_address_space_bytes pol) (lab_cpu_seconds pol) 3 p'
         \<and> p_env p' = p_env p \<and> p_fds p' = p_fds p"
  using assms(2)
  by (auto simp: lab_apply_def lab_apply_landlock_def result_simps confined_def
      dest!: kernel_call_ok [OF assms(1)])

text \<open>C10: when the production sandbox reports success, the process has no-new-privs set, all five
  resource limits at the policy's values, a Landlock domain without any path rule and the seccomp
  allowlist; its environment and open descriptors are those it was called with, and the status
  passes \<open>verify_required\<close> on Linux.\<close>

theorem apply_runner_sandbox_confines:
  assumes "kernel_contract K" and "apply_runner_sandbox K pol p = Inr (st, p')"
  shows "confined runner_filter (address_space_bytes pol) (cpu_seconds pol) (open_files pol) p'
         \<and> p_env p' = p_env p \<and> p_fds p' = p_fds p \<and> verify_required True st = Inr ()"
  using assms by (rule apply_runner_sandbox_state)

text \<open>C11: when the sandbox of the lab reports success, the same confinement holds with the lab's
  table and a limit of three open descriptors.\<close>

theorem lab_apply_confines:
  assumes "kernel_contract K" and "lab_apply K pol p = Inr p'"
  shows "confined lab_filter (lab_address_space_bytes pol) (lab_cpu_seconds pol) 3 p'
         \<and> p_env p' = p_env p \<and> p_fds p' = p_fds p"
  using assms by (rule lab_apply_state)

section \<open>The descriptor limit and the order of the steps\<close>

text \<open>A kernel that grants every request, except that creating a ruleset needs a free descriptor
  number below the limit on open files.\<close>

definition free_descriptor :: "proc \<Rightarrow> bool" where
  "free_descriptor p =
     (case p_rlimits p RLIMIT_NOFILE of
        None \<Rightarrow> True
      | Some n \<Rightarrow> list_ex (\<lambda>fd. fd \<notin> set (p_fds p)) [0..<unat n])"

definition granting_kernel :: "kernel \<Rightarrow> bool" where
  "granting_kernel K \<longleftrightarrow>
     (\<forall>lo hi p. is_ok (k_close_range K lo hi p)) \<and>
     (\<forall>p. is_ok (k_no_new_privs K p)) \<and>
     (\<forall>r v p. is_ok (k_setrlimit K r v p)) \<and>
     (\<forall>rs p. is_ok (k_landlock_create K rs p) \<longleftrightarrow> free_descriptor p) \<and>
     (\<forall>rs fd p. \<exists>p'. k_landlock_restrict K rs fd p = Inr (FullyEnforced, p')) \<and>
     (\<forall>f p. is_ok (k_install_filter K f p))"

lemma free_descriptor_None: "p_rlimits p RLIMIT_NOFILE = None \<Longrightarrow> free_descriptor p"
  by (simp add: free_descriptor_def)

lemma granting_kernel_limit_law: "granting_kernel K \<Longrightarrow> descriptor_limit_law K"
  by (auto simp: granting_kernel_def descriptor_limit_law_def free_descriptor_def list_ex_iff
      split: option.splits)

text \<open>The reference kernel of the witnesses.\<close>

definition reference_kernel :: kernel where
  "reference_kernel =
     \<lparr>k_close_range = (\<lambda>lo hi p. Inr (p\<lparr>p_fds :=
         filter (\<lambda>fd. \<not> (unat lo \<le> fd \<and> fd \<le> unat hi)) (p_fds p)\<rparr>)),
      k_no_new_privs = (\<lambda>p. Inr (p\<lparr>p_no_new_privs := True\<rparr>)),
      k_setrlimit = (\<lambda>r v p. Inr (p\<lparr>p_rlimits := (p_rlimits p)(r \<mapsto> v)\<rparr>)),
      k_landlock_create = (\<lambda>rs p.
         let fd = Suc (sum_list (p_fds p))
         in if free_descriptor p then Inr (fd, p\<lparr>p_fds := fd # p_fds p\<rparr>) else Inl ''EMFILE''),
      k_landlock_restrict = (\<lambda>rs fd p. Inr (FullyEnforced,
         p\<lparr>p_fds := removeAll fd (p_fds p), p_landlock := rs # p_landlock p\<rparr>)),
      k_install_filter = (\<lambda>f p. Inr (p\<lparr>p_seccomp := f # p_seccomp p\<rparr>))\<rparr>"

lemma fresh_descriptor: "Suc (sum_list (xs :: nat list)) \<notin> set xs"
  using member_le_sum_list by fastforce

lemma reference_kernel_contract: "kernel_contract reference_kernel"
  using fresh_descriptor
  by (auto simp: kernel_contract_def reference_kernel_def Let_def split: if_splits)

lemma reference_kernel_granting: "granting_kernel reference_kernel"
  by (simp add: granting_kernel_def reference_kernel_def Let_def)

text \<open>A fresh runner: the three standard streams and two leaked descriptors are open.\<close>

definition spawned_proc :: proc where
  "spawned_proc = \<lparr>p_env = [(''PORT'', ''8080'')], p_fds = [0, 1, 2, 5, 9], p_no_new_privs = False,
     p_rlimits = (\<lambda>_. None), p_landlock = [], p_seccomp = []\<rparr>"

lemma no_descriptor_no_sandbox:
  assumes "kernel_contract K" and "descriptor_limit_law K"
    and "\<forall>fd < unat (open_files pol). fd \<in> set (p_fds p)"
  shows "\<not> is_ok (apply_runner_sandbox K pol p)"
proof
  assume "is_ok (apply_runner_sandbox K pol p)"
  then obtain st p' where "apply_runner_sandbox K pol p = Inr (st, p')"
    by (auto simp: is_ok_iff)
  then obtain p1 p2 fd p3 where n: "set_no_new_privs K p = Inr p1"
    and r: "apply_rlimits K pol p1 = Inr p2"
    and c: "k_landlock_create K deny_all_ruleset p2 = Inr (fd, p3)"
    by (auto simp: apply_runner_sandbox_def apply_landlock_def restrict_filesystem_def result_simps)
  from r have "p_rlimits p2 RLIMIT_NOFILE = Some (open_files pol)" "p_fds p2 = p_fds p1"
    by (auto simp: apply_rlimits_def result_simps dest!: set_limit_ok [OF assms(1)])
  moreover from n have "p_fds p1 = p_fds p"
    by (auto dest: set_no_new_privs_ok [OF assms(1)])
  ultimately have "\<not> is_ok (k_landlock_create K deny_all_ruleset p2)"
    using assms(2,3) by (simp add: descriptor_limit_law_def)
  with c show False by simp
qed

text \<open>The production sandbox lowers the limit on open files before it creates the
  Landlock ruleset. On a kernel where a new descriptor needs a free number below that limit, the
  call fails whenever all numbers below the limit are open; with the limit of three that the runner
  passes and its three standard streams open, the sandbox can never be applied.\<close>

theorem apply_runner_sandbox_exhausts_descriptors:
  assumes "kernel_contract K" and "descriptor_limit_law K"
    and "\<forall>fd < unat (open_files pol). fd \<in> set (p_fds p)"
  shows "\<not> is_ok (apply_runner_sandbox K pol p)"
  using assms by (rule no_descriptor_no_sandbox)

lemma granting_kernelD:
  assumes "granting_kernel K"
  shows "\<exists>p'. close_inherited_descriptors K p = Inr p'"
    and "\<exists>p'. set_no_new_privs K p = Inr p'"
    and "\<exists>p'. set_limit K r v p = Inr p'"
    and "\<exists>p'. lab_apply_seccomp K p = Inr p'"
    and "p_rlimits p RLIMIT_NOFILE = None \<Longrightarrow> \<exists>p'. restrict_filesystem msg K p = Inr p'"
proof -
  show "\<exists>p'. close_inherited_descriptors K p = Inr p'" "\<exists>p'. set_no_new_privs K p = Inr p'"
    "\<exists>p'. set_limit K r v p = Inr p'" "\<exists>p'. lab_apply_seccomp K p = Inr p'"
    using assms by (simp_all add: granting_kernel_def kernel_call_defs is_ok_iff result_simps)
  assume "p_rlimits p RLIMIT_NOFILE = None"
  then have "is_ok (k_landlock_create K deny_all_ruleset p)"
    using assms free_descriptor_None by (simp add: granting_kernel_def)
  then obtain fd p1 where "k_landlock_create K deny_all_ruleset p = Inr (fd, p1)"
    by (auto simp: is_ok_iff)
  moreover have "\<exists>p2. k_landlock_restrict K deny_all_ruleset fd p1 = Inr (FullyEnforced, p2)"
    using assms by (simp add: granting_kernel_def)
  ultimately show "\<exists>p'. restrict_filesystem msg K p = Inr p'"
    by (auto simp: restrict_filesystem_def)
qed

lemma lab_apply_granted:
  assumes "granting_kernel K" and "kernel_contract K" and "p_rlimits p RLIMIT_NOFILE = None"
  shows "\<exists>p'. lab_apply K pol p = Inr p' \<and>
           confined lab_filter (lab_address_space_bytes pol) (lab_cpu_seconds pol) 3 p'"
proof -
  note grants = granting_kernelD [OF assms(1)]
  obtain p1 where p1: "set_no_new_privs K p = Inr p1" using grants(2) by blast
  obtain p2 where p2: "set_limit K RLIMIT_AS (lab_address_space_bytes pol) p1 = Inr p2"
    using grants(3) by blast
  obtain p3 where p3: "set_limit K RLIMIT_CPU (lab_cpu_seconds pol) p2 = Inr p3"
    using grants(3) by blast
  obtain p4 where p4: "set_limit K RLIMIT_NPROC 1 p3 = Inr p4" using grants(3) by blast
  obtain p5 where p5: "set_limit K RLIMIT_FSIZE 0 p4 = Inr p5" using grants(3) by blast
  have "p_rlimits p5 RLIMIT_NOFILE = None"
    using set_no_new_privs_ok [OF assms(2) p1] set_limit_ok [OF assms(2) p2]
      set_limit_ok [OF assms(2) p3] set_limit_ok [OF assms(2) p4] set_limit_ok [OF assms(2) p5]
      assms(3) by simp
  then obtain p6 where p6: "lab_apply_landlock K p5 = Inr p6"
    unfolding lab_apply_landlock_def using grants(5) by blast
  obtain p7 where p7: "set_limit K RLIMIT_NOFILE 3 p6 = Inr p7" using grants(3) by blast
  obtain p8 where p8: "lab_apply_seccomp K p7 = Inr p8" using grants(4) by blast
  have "lab_apply K pol p = Inr p8"
    by (simp add: lab_apply_def p1 p2 p3 p4 p5 p6 p7 p8)
  then show ?thesis using lab_apply_state [OF assms(2)] by blast
qed

text \<open>The lab lowers the limit only after the ruleset is in force, so a kernel that grants every
  request confines the process although its three standard streams stay open.\<close>

theorem lab_apply_succeeds:
  assumes "granting_kernel K" and "kernel_contract K" and "p_rlimits p RLIMIT_NOFILE = None"
  shows "\<exists>p'. lab_apply K pol p = Inr p' \<and>
           confined lab_filter (lab_address_space_bytes pol) (lab_cpu_seconds pol) 3 p'"
  using assms by (rule lab_apply_granted)

section \<open>Witnesses\<close>

text \<open>A kernel whose ruleset creation ignores the limit on open files shows that the hypotheses of
  the confinement theorem can hold.\<close>

definition lenient_kernel :: kernel where
  "lenient_kernel = reference_kernel\<lparr>k_landlock_create := (\<lambda>rs p.
     let fd = Suc (sum_list (p_fds p)) in Inr (fd, p\<lparr>p_fds := fd # p_fds p\<rparr>))\<rparr>"

lemma lenient_kernel_contract: "kernel_contract lenient_kernel"
  using fresh_descriptor
  by (auto simp: kernel_contract_def lenient_kernel_def reference_kernel_def Let_def)

definition sample_policy :: sandbox_policy where
  "sample_policy = \<lparr>address_space_bytes = 268435456, cpu_seconds = 2, open_files = 3\<rparr>"

lemmas kernel_eval_simps =
  kernel_call_defs restrict_filesystem_def apply_rlimits_def lenient_kernel_def reference_kernel_def
  spawned_proc_def sample_policy_def

lemma lenient_kernel_ok:
  "is_ok (close_inherited_descriptors lenient_kernel p)"
  "is_ok (apply_runner_sandbox lenient_kernel pol p)"
  by (simp_all add: apply_runner_sandbox_def kernel_eval_simps Let_def)

lemmas sample_sandbox_ok = lenient_kernel_ok(2) [of sample_policy spawned_proc]

theorem apply_runner_sandbox_confines_witness:
  "\<exists>st p'. apply_runner_sandbox lenient_kernel sample_policy spawned_proc = Inr (st, p') \<and>
     confined runner_filter 268435456 2 3 p'"
proof -
  from sample_sandbox_ok obtain st p' where
    r: "apply_runner_sandbox lenient_kernel sample_policy spawned_proc = Inr (st, p')"
    by (auto simp: is_ok_iff)
  from apply_runner_sandbox_confines [OF lenient_kernel_contract r] r show ?thesis
    by (auto simp: sample_policy_def)
qed

definition lab_sample_policy :: lab_sandbox_policy where
  "lab_sample_policy = \<lparr>lab_address_space_bytes = 268435456, lab_cpu_seconds = 2\<rparr>"

theorem lab_apply_succeeds_witness:
  "\<exists>p'. lab_apply reference_kernel lab_sample_policy spawned_proc = Inr p' \<and>
     confined lab_filter 268435456 2 3 p'"
  using lab_apply_succeeds [OF reference_kernel_granting reference_kernel_contract,
      of spawned_proc lab_sample_policy]
  by (simp add: spawned_proc_def lab_sample_policy_def)

theorem lab_apply_confines_witness:
  "\<exists>p'. lab_apply lenient_kernel lab_sample_policy spawned_proc = Inr p' \<and>
     confined lab_filter 268435456 2 3 p' \<and> p_fds p' = [0, 1, 2, 5, 9]"
proof -
  obtain p' where r: "lab_apply lenient_kernel lab_sample_policy spawned_proc = Inr p'"
    by (simp add: lab_apply_def kernel_eval_simps Let_def)
  from lab_apply_confines [OF lenient_kernel_contract r] r show ?thesis
    by (simp add: lab_sample_policy_def spawned_proc_def)
qed

theorem apply_runner_sandbox_exhausts_descriptors_witness:
  "kernel_contract reference_kernel \<and> descriptor_limit_law reference_kernel \<and>
   \<not> is_ok (apply_runner_sandbox reference_kernel sample_policy spawned_proc)"
proof -
  have "\<forall>fd < unat (open_files sample_policy). fd \<in> set (p_fds spawned_proc)"
    by (auto simp: sample_policy_def spawned_proc_def)
  with apply_runner_sandbox_exhausts_descriptors [OF reference_kernel_contract
      granting_kernel_limit_law [OF reference_kernel_granting]]
  show ?thesis
    using reference_kernel_contract granting_kernel_limit_law [OF reference_kernel_granting] by blast
qed

end
