(* ===== verification/Wasm_Host.thy ===== *)
theory Wasm_Host
  imports Sandbox
begin

text \<open>
  The WebAssembly hosts: \<open>crates/scheduler/src/wasm.rs\<close> and \<open>crates/sequential-lab/src/wasm.rs\<close>.
  Each validates the module bytes, builds an engine and a limited store, instantiates the module
  with an empty linker and calls one export. The crates \<open>wasmparser\<close> and \<open>wasmi\<close> are not part of
  the repository: their functions are the fields of the record \<open>wasm_api\<close>, over abstract types
  \<open>'m\<close> of compiled modules and \<open>'i\<close> of instances.
\<close>

section \<open>What the crates hand to the hosts\<close>

record memory_type =
  mt_shared :: bool
  mt_memory64 :: bool
  mt_page_size_log2 :: "u32 option"
  mt_initial :: u64
  mt_maximum :: "u64 option"

datatype payload =
    ImportSection u32
  | StartSection
  | MemorySection "(error + memory_type) list"
  | ComponentSection
  | ComponentInstanceSection
  | ComponentAliasSection
  | ComponentTypeSection
  | ComponentCanonicalSection
  | ComponentStartSection
  | ComponentImportSection
  | ComponentExportSection
  | OtherPayload

record engine_config =
  consume_fuel :: bool
  enforced_limits_strict :: bool
  wasm_multi_memory :: bool
  wasm_custom_page_sizes :: bool
  wasm_reference_types :: bool
  wasm_tail_call :: bool
  wasm_extended_const :: bool
  wasm_wide_arithmetic :: bool

record store_limits =
  sl_memory_size :: usize
  sl_memories :: usize
  sl_instances :: usize
  sl_tables :: usize
  sl_table_elements :: usize
  sl_trap_on_grow_failure :: bool

text \<open>An instance carries its linear memory; calling an export yields the results and the instance
  afterwards, or \<open>None\<close> for a trap, fuel exhaustion included.\<close>

record ('m, 'i) wasm_api =
  validate_all :: "bytes \<Rightarrow> bool"
  parse_all :: "bytes \<Rightarrow> (error + payload) list"
  module_new :: "engine_config \<Rightarrow> bytes \<Rightarrow> 'm option"
  set_fuel :: "engine_config \<Rightarrow> u64 \<Rightarrow> bool"
  instantiate_and_start :: "engine_config \<Rightarrow> store_limits \<Rightarrow> u64 \<Rightarrow> 'm \<Rightarrow> 'i option"
  exports_run0 :: "'i \<Rightarrow> bool"
  call_run0 :: "'i \<Rightarrow> 'i option"
  memory_data :: "'i \<Rightarrow> bytes option"
  memory_replace :: "bytes \<Rightarrow> 'i \<Rightarrow> 'i"
  exports_run4 :: "'i \<Rightarrow> bool"
  call_run4 :: "i32 \<times> i32 \<times> i32 \<times> i32 \<Rightarrow> 'i \<Rightarrow> (i32 \<times> 'i) option"
  exports_process :: "'i \<Rightarrow> bool"
  call_process :: "i32 \<times> i32 \<times> i32 \<Rightarrow> 'i \<Rightarrow> (i32 \<times> 'i) option"

section \<open>Validation\<close>

definition is_component_payload :: "payload \<Rightarrow> bool" where
  "is_component_payload pl =
     (case pl of
        ComponentSection \<Rightarrow> True | ComponentInstanceSection \<Rightarrow> True
      | ComponentAliasSection \<Rightarrow> True | ComponentTypeSection \<Rightarrow> True
      | ComponentCanonicalSection \<Rightarrow> True | ComponentStartSection \<Rightarrow> True
      | ComponentImportSection \<Rightarrow> True | ComponentExportSection \<Rightarrow> True
      | _ \<Rightarrow> False)"

definition memory_form_ok :: "memory_type \<Rightarrow> bool" where
  "memory_form_ok m = (\<not> (mt_shared m \<or> mt_memory64 m \<or> mt_page_size_log2 m \<noteq> None))"

definition memory_size_ok :: "u32 \<Rightarrow> memory_type \<Rightarrow> bool" where
  "memory_size_ok max_memory_pages m =
     (\<not> (mt_initial m > ucast max_memory_pages
         \<or> (case mt_maximum m of None \<Rightarrow> False | Some mx \<Rightarrow> mx > ucast max_memory_pages)))"

text \<open>The body of the loop over the memory section; \<open>form_message\<close> is the message of the host.\<close>

fun check_memories :: "error \<Rightarrow> u32 \<Rightarrow> (error + memory_type) list \<Rightarrow> error + unit" where
  "check_memories form_message pages [] = Inr ()"
| "check_memories form_message pages (r # rs) =
     try_bind (with_message ''invalid memory'' r) (\<lambda>m.
     try_bind (ensure (memory_form_ok m) form_message) (\<lambda>_.
     try_bind (ensure (memory_size_ok pages m) ''memory exceeds policy'') (\<lambda>_.
     check_memories form_message pages rs)))"

definition check_payload :: "u32 \<Rightarrow> payload \<Rightarrow> error + unit" where
  "check_payload pages pl =
     (case pl of
        ImportSection n \<Rightarrow> ensure (n = 0) ''imports are forbidden''
      | MemorySection reader \<Rightarrow>
          check_memories ''shared, memory64, and custom-page memories are forbidden'' pages reader
      | _ \<Rightarrow> ensure (\<not> is_component_payload pl) ''components are forbidden'')"

fun check_payloads :: "(payload \<Rightarrow> error + unit) \<Rightarrow> (error + payload) list \<Rightarrow> error + unit" where
  "check_payloads check [] = Inr ()"
| "check_payloads check (r # rs) =
     try_bind (with_message ''parse core WebAssembly'' r) (\<lambda>pl.
     try_bind (check pl) (\<lambda>_. check_payloads check rs))"

definition validate :: "('m, 'i) wasm_api \<Rightarrow> bytes \<Rightarrow> u32 \<Rightarrow> error + unit" where
  "validate W bs pages =
     try_bind (ensure (validate_all W bs) ''invalid core WebAssembly'') (\<lambda>_.
     check_payloads (check_payload pages) (parse_all W bs))"

text \<open>The lab also forbids start functions and counts the memories.\<close>

definition lab_check_payload :: "u32 \<Rightarrow> payload \<Rightarrow> error + unit" where
  "lab_check_payload pages pl =
     (case pl of
        ImportSection n \<Rightarrow> ensure (n = 0) ''imports are forbidden''
      | StartSection \<Rightarrow> Inl ''start functions are forbidden''
      | MemorySection reader \<Rightarrow> check_memories ''unsupported memory form'' pages reader
      | _ \<Rightarrow> ensure (\<not> is_component_payload pl) ''components are forbidden'')"

definition memories_in :: "payload \<Rightarrow> nat" where
  "memories_in pl = (case pl of MemorySection reader \<Rightarrow> length reader | _ \<Rightarrow> 0)"

fun count_memories :: "(error + payload) list \<Rightarrow> nat" where
  "count_memories [] = 0"
| "count_memories (r # rs) = (case r of Inl _ \<Rightarrow> 0 | Inr pl \<Rightarrow> memories_in pl + count_memories rs)"

definition lab_validate :: "('m, 'i) wasm_api \<Rightarrow> bytes \<Rightarrow> u32 \<Rightarrow> error + unit" where
  "lab_validate W bs pages =
     try_bind (ensure (validate_all W bs) ''invalid core WebAssembly'') (\<lambda>_.
     try_bind (check_payloads (lab_check_payload pages) (parse_all W bs)) (\<lambda>_.
     ensure (count_memories (parse_all W bs) = 1) ''exactly one memory is required''))"

section \<open>The production host\<close>

definition engine :: engine_config where
  "engine =
     \<lparr>consume_fuel = True, enforced_limits_strict = False, wasm_multi_memory = False,
      wasm_custom_page_sizes = False, wasm_reference_types = False, wasm_tail_call = False,
      wasm_extended_const = False, wasm_wide_arithmetic = False\<rparr>"

definition runner_limits :: "u32 \<Rightarrow> store_limits" where
  "runner_limits pages =
     \<lparr>sl_memory_size = ucast pages * 65536, sl_memories = 1, sl_instances = 1, sl_tables = 4,
      sl_table_elements = 100000, sl_trap_on_grow_failure = True\<rparr>"

definition execute :: "('m, 'i) wasm_api \<Rightarrow> bytes \<Rightarrow> u64 \<Rightarrow> u32 \<Rightarrow> error + unit" where
  "execute W bs fuel pages =
     try_bind (validate W bs pages) (\<lambda>_.
     try_bind (ok_or (module_new W engine bs) ''compile module'') (\<lambda>m.
     try_bind (ensure (set_fuel W engine fuel) ''set execution fuel'') (\<lambda>_.
     try_bind (ok_or (instantiate_and_start W engine (runner_limits pages) fuel m)
                 ''instantiate module'') (\<lambda>i.
     try_bind (ensure (exports_run0 W i) ''module must export run: () -> ()'') (\<lambda>_.
     try_bind (ok_or (call_run0 W i) ''execute run'') (\<lambda>_.
     Inr ()))))))"

section \<open>The host of the lab\<close>

definition lab_engine :: engine_config where
  "lab_engine = engine\<lparr>enforced_limits_strict := True\<rparr>"

definition lab_limits :: "u32 \<Rightarrow> store_limits" where
  "lab_limits pages = (runner_limits pages)\<lparr>sl_tables := 1\<rparr>"

text \<open>\<open>Memory::write\<close> and \<open>Memory::read\<close> fail when the range leaves the memory.\<close>

definition memory_write :: "bytes \<Rightarrow> nat \<Rightarrow> bytes \<Rightarrow> bytes option" where
  "memory_write mem offset buf =
     (if offset + length buf \<le> length mem
      then Some (take offset mem @ buf @ drop (offset + length buf) mem) else None)"

definition memory_read :: "bytes \<Rightarrow> nat \<Rightarrow> nat \<Rightarrow> bytes option" where
  "memory_read mem offset n =
     (if offset + n \<le> length mem then Some (take n (drop offset mem)) else None)"

definition lab_execute ::
    "('m, 'i) wasm_api \<Rightarrow> bytes \<Rightarrow> bytes \<Rightarrow> i32 \<Rightarrow> i32 \<Rightarrow> i32 \<Rightarrow> u64 \<Rightarrow> u32 \<Rightarrow> error + bytes" where
  "lab_execute W module_bytes state role turn_bit iterations fuel pages =
     try_bind (lab_validate W module_bytes pages) (\<lambda>_.
     try_bind (ok_or (module_new W lab_engine module_bytes) ''compile module'') (\<lambda>m.
     try_bind (ensure (set_fuel W lab_engine fuel) ''set fuel'') (\<lambda>_.
     try_bind (ok_or (instantiate_and_start W lab_engine (lab_limits pages) fuel m)
                 ''instantiate module'') (\<lambda>i.
     try_bind (ok_or (memory_data W i) ''module must export memory'') (\<lambda>mem.
     try_bind (ensure (length state \<le> length mem) ''state exceeds guest memory'') (\<lambda>_.
     try_bind (ok_or (memory_write mem 0 state) ''inject state'') (\<lambda>mem.
     try_bind (ensure (exports_run4 W i) ''module must export run(i32,i32,i32,i32)->i32'') (\<lambda>_.
     try_bind (ok_or (call_run4 W (role, turn_bit, iterations, of_nat (length state))
                        (memory_replace W mem i)) ''execute run'') (\<lambda>(_, i).
     try_bind (ok_or (Option.bind (memory_data W i) (\<lambda>mem. memory_read mem 0 (length state)))
                 ''extract state'') (\<lambda>output.
     Inr output))))))))))"

definition execute_stream ::
    "('m, 'i) wasm_api \<Rightarrow> bytes \<Rightarrow> bytes \<Rightarrow> bytes \<Rightarrow> usize \<Rightarrow> u64 \<Rightarrow> u32 \<Rightarrow> error + bytes" where
  "execute_stream W module_bytes previous chunk capacity fuel pages =
     try_bind (ensure (saturating_add (of_nat (length previous)) (of_nat (length chunk)) \<le> capacity)
                 ''stream state exceeds capacity'') (\<lambda>_.
     try_bind (lab_validate W module_bytes pages) (\<lambda>_.
     try_bind (ok_or (module_new W lab_engine module_bytes) ''compile stream module'') (\<lambda>m.
     try_bind (ensure (set_fuel W lab_engine fuel) ''set stream fuel'') (\<lambda>_.
     try_bind (ok_or (instantiate_and_start W lab_engine (lab_limits pages) fuel m)
                 ''instantiate stream module'') (\<lambda>i.
     try_bind (ok_or (memory_data W i) ''stream module must export memory'') (\<lambda>mem.
     try_bind (ensure (unat capacity \<le> length mem) ''stream capacity exceeds guest memory'') (\<lambda>_.
     try_bind (ok_or (memory_write mem 0 previous) ''rehydrate stream state'') (\<lambda>mem.
     try_bind (ok_or (memory_write mem (length previous) chunk) ''inject stream chunk'') (\<lambda>mem.
     try_bind (ensure (exports_process W i)
                 ''stream module must export process(i32,i32,i32)->i32'') (\<lambda>_.
     try_bind (ok_or (call_process W (of_nat (length previous), of_nat (length chunk), ucast capacity)
                        (memory_replace W mem i)) ''execute stream chunk'') (\<lambda>(output_len, i).
     try_bind (ensure (\<not> (sint output_len < 0
                           \<or> nat (sint output_len) \<noteq> length previous + length chunk))
                 ''stream worker returned invalid accumulated length'') (\<lambda>_.
     try_bind (ok_or (Option.bind (memory_data W i)
                        (\<lambda>mem. memory_read mem 0 (length previous + length chunk)))
                 ''extract accumulated stream state'') (\<lambda>output.
     Inr output)))))))))))))"

section \<open>What validation admits\<close>

definition memory_admissible :: "u32 \<Rightarrow> memory_type \<Rightarrow> bool" where
  "memory_admissible pages m =
     (\<not> mt_shared m \<and> \<not> mt_memory64 m \<and> mt_page_size_log2 m = None
      \<and> unat (mt_initial m) \<le> unat pages
      \<and> (case mt_maximum m of None \<Rightarrow> True | Some mx \<Rightarrow> unat mx \<le> unat pages))"

definition payload_admissible :: "u32 \<Rightarrow> payload \<Rightarrow> bool" where
  "payload_admissible pages pl =
     (case pl of
        ImportSection n \<Rightarrow> n = 0
      | MemorySection rs \<Rightarrow>
          list_all (\<lambda>r. case r of Inl _ \<Rightarrow> False | Inr m \<Rightarrow> memory_admissible pages m) rs
      | StartSection \<Rightarrow> True
      | OtherPayload \<Rightarrow> True
      | _ \<Rightarrow> False)"

lemma unat_ucast_up: "unat (ucast (w :: u32) :: u64) = unat w"
proof -
  have "unat w < 2 ^ 32" using unsigned_less [of w] by simp
  then show ?thesis by (simp add: unsigned_ucast_eq take_bit_nat_eq_self_iff)
qed

lemma memory_admissible_iff:
  "memory_admissible pages m \<longleftrightarrow> memory_form_ok m \<and> memory_size_ok pages m"
  by (auto simp: memory_admissible_def memory_form_ok_def memory_size_ok_def word_le_nat_alt not_less
      unat_ucast_up split: option.splits)

lemma check_memories_iff:
  "check_memories msg pages rs = Inr () \<longleftrightarrow>
     list_all (\<lambda>r. case r of Inl _ \<Rightarrow> False | Inr m \<Rightarrow> memory_admissible pages m) rs"
  by (induction rs) (auto simp: result_simps memory_admissible_iff split: sum.splits)

lemma check_payload_iff: "check_payload pages pl = Inr () \<longleftrightarrow> payload_admissible pages pl"
  by (cases pl) (simp_all add: check_payload_def payload_admissible_def check_memories_iff
      result_simps is_component_payload_def)

lemma lab_check_payload_iff:
  "lab_check_payload pages pl = Inr () \<longleftrightarrow> payload_admissible pages pl \<and> pl \<noteq> StartSection"
  by (cases pl) (simp_all add: lab_check_payload_def payload_admissible_def check_memories_iff
      result_simps is_component_payload_def)

lemma check_payloads_iff:
  "check_payloads check rs = Inr () \<longleftrightarrow> (\<forall>r \<in> set rs. \<exists>pl. r = Inr pl \<and> check pl = Inr ())"
  by (induction rs) (auto simp: result_simps)

lemma payload_admissible_iff:
  "payload_admissible pages pl \<longleftrightarrow>
     pl = StartSection \<or> pl = OtherPayload \<or> pl = ImportSection 0 \<or>
     (\<exists>ms. pl = MemorySection (map Inr ms) \<and> list_all (memory_admissible pages) ms)"
proof -
  have "list_all (\<lambda>r. case r of Inl _ \<Rightarrow> False | Inr m \<Rightarrow> memory_admissible pages m) rs \<longleftrightarrow>
      (\<exists>ms. rs = map Inr ms \<and> list_all (memory_admissible pages) ms)" for rs
  proof (induction rs)
    case (Cons r rs)
    then show ?case by (cases r) (auto simp: Cons_eq_map_conv)
  qed simp
  then show ?thesis by (cases pl) (auto simp: payload_admissible_def)
qed

text \<open>The interface both hosts rely on: a checker that accepts the admissible payloads which pass a
  further test of the host. What the loop over the payloads accepts is derived once.\<close>

locale payload_gate =
  fixes check :: "u32 \<Rightarrow> payload \<Rightarrow> error + unit" and further :: "payload \<Rightarrow> bool"
  assumes gate_iff: "check pages pl = Inr () \<longleftrightarrow> payload_admissible pages pl \<and> further pl"
begin

lemma accepts_iff:
  "check_payloads (check pages) rs = Inr () \<longleftrightarrow>
     (\<forall>r \<in> set rs. r = Inr StartSection \<or> r = Inr OtherPayload \<or> r = Inr (ImportSection 0) \<or>
        (\<exists>ms. r = Inr (MemorySection (map Inr ms)) \<and> list_all (memory_admissible pages) ms)) \<and>
     (\<forall>pl. Inr pl \<in> set rs \<longrightarrow> further pl)"
proof -
  have shape: "r = Inr StartSection \<or> r = Inr OtherPayload \<or> r = Inr (ImportSection 0) \<or>
        (\<exists>ms. r = Inr (MemorySection (map Inr ms)) \<and> list_all (memory_admissible pages) ms)
      \<longleftrightarrow> (\<exists>pl. r = Inr pl \<and> payload_admissible pages pl)" for r :: "error + payload"
    unfolding payload_admissible_iff by (cases r) auto
  have "(\<exists>pl. r = Inr pl \<and> payload_admissible pages pl \<and> further pl) \<longleftrightarrow>
      (\<exists>pl. r = Inr pl \<and> payload_admissible pages pl) \<and> (\<forall>pl. r = Inr pl \<longrightarrow> further pl)" for r :: "error + payload"
    by (cases r) simp_all
  moreover have "(\<forall>r \<in> set rs. \<forall>pl. r = Inr pl \<longrightarrow> further pl) \<longleftrightarrow> (\<forall>pl. Inr pl \<in> set rs \<longrightarrow> further pl)" by auto
  ultimately show ?thesis by (simp only: check_payloads_iff gate_iff shape ball_conj_distrib)
qed

end

interpretation runner_gate: payload_gate check_payload "\<lambda>_. True"
  by unfold_locales (simp add: check_payload_iff)

interpretation lab_host_gate: payload_gate lab_check_payload "\<lambda>pl. pl \<noteq> StartSection"
  by unfold_locales (simp add: lab_check_payload_iff)

lemma validate_accepts:
  "validate W bs pages = Inr () \<longleftrightarrow>
     validate_all W bs \<and>
     (\<forall>r \<in> set (parse_all W bs). r = Inr StartSection \<or> r = Inr OtherPayload \<or> r = Inr (ImportSection 0) \<or>
        (\<exists>ms. r = Inr (MemorySection (map Inr ms)) \<and> list_all (memory_admissible pages) ms))"
  by (simp add: validate_def result_simps runner_gate.accepts_iff)

text \<open>C14: the production validator accepts exactly the modules that the parser validates and in
  which every payload parses, no import is declared, no section belongs to the component model, and
  every memory is unshared, 32-bit, with default pages and both bounds within the policy. Start
  sections are accepted: whether a module has one makes no difference.\<close>

theorem validate_iff:
  "validate W bs pages = Inr () \<longleftrightarrow>
     validate_all W bs \<and>
     (\<forall>r \<in> set (parse_all W bs). r = Inr StartSection \<or> r = Inr OtherPayload \<or> r = Inr (ImportSection 0) \<or>
        (\<exists>ms. r = Inr (MemorySection (map Inr ms)) \<and> list_all (memory_admissible pages) ms))"
  by (simp add: validate_accepts)

text \<open>The validator of the lab accepts a module exactly when the production validator does, no
  payload is a start section and the memory sections declare one memory in total.\<close>

theorem lab_validate_iff:
  "lab_validate W bs pages = Inr () \<longleftrightarrow>
     validate W bs pages = Inr () \<and> Inr StartSection \<notin> set (parse_all W bs) \<and>
     count_memories (parse_all W bs) = 1"
proof -
  let ?rs = "parse_all W bs"
  have "check_payloads (lab_check_payload pages) ?rs = Inr () \<longleftrightarrow>
      check_payloads (check_payload pages) ?rs = Inr () \<and> Inr StartSection \<notin> set ?rs"
    unfolding lab_host_gate.accepts_iff runner_gate.accepts_iff by blast
  then show ?thesis by (auto simp: lab_validate_def validate_def result_simps)
qed

section \<open>Executing admitted modules\<close>

lemma runner_limit_bytes: "unat (sl_memory_size (runner_limits pages)) = unat pages * 65536"
proof -
  have "unat pages < 2 ^ 32" using unsigned_less [of pages] by simp
  then have "unat pages * 65536 < 2 ^ 64" by simp
  then show ?thesis
    by (simp add: runner_limits_def unat_mult_lem [THEN iffD1] unat_ucast_up)
qed

text \<open>C13: the production host succeeds exactly when the module passes the whole validation of C14,
  compiles on the engine that meters fuel with the listed proposals switched off, the store takes the
  fuel, the module instantiates without any import under limits of one instance, one memory of the given
  number of pages, four tables of 100000 elements (a start function of the module runs here), it exports
  \<open>run\<close>, and the one call of that export returns. The limit on memory is not wrapped around, so every
  memory that passed validation fits it.\<close>

theorem execute_respects_boundary:
  "execute W bs fuel pages = Inr () \<longleftrightarrow>
     validate_all W bs \<and>
     (\<forall>r \<in> set (parse_all W bs). r = Inr StartSection \<or> r = Inr OtherPayload \<or> r = Inr (ImportSection 0) \<or>
        (\<exists>ms. r = Inr (MemorySection (map Inr ms)) \<and>
           list_all (\<lambda>m. memory_admissible pages m \<and>
             unat (mt_initial m) * 65536 \<le> unat (sl_memory_size (runner_limits pages))) ms)) \<and>
     (let cfg = \<lparr>consume_fuel = True, enforced_limits_strict = False, wasm_multi_memory = False,
                 wasm_custom_page_sizes = False, wasm_reference_types = False, wasm_tail_call = False,
                 wasm_extended_const = False, wasm_wide_arithmetic = False\<rparr>;
          lim = \<lparr>sl_memory_size = of_nat (unat pages * 65536), sl_memories = 1, sl_instances = 1,
                 sl_tables = 4, sl_table_elements = 100000, sl_trap_on_grow_failure = True\<rparr>
      in \<exists>m i i'. module_new W cfg bs = Some m \<and> set_fuel W cfg fuel \<and>
           instantiate_and_start W cfg lim fuel m = Some i \<and> exports_run0 W i \<and> call_run0 W i = Some i')"
proof -
  have lim: "runner_limits pages = \<lparr>sl_memory_size = of_nat (unat pages * 65536), sl_memories = 1,
      sl_instances = 1, sl_tables = 4, sl_table_elements = 100000, sl_trap_on_grow_failure = True\<rparr>"
    by (simp add: runner_limits_def of_nat_unat)
  have fits: "memory_admissible pages m \<and>
      unat (mt_initial m) * 65536 \<le> unat (sl_memory_size (runner_limits pages)) \<longleftrightarrow> memory_admissible pages m" for m
    by (auto simp: memory_admissible_def runner_limit_bytes)
  show ?thesis
    unfolding fits lim [symmetric] engine_def [symmetric] Let_def conj_assoc [symmetric]
    unfolding validate_accepts [symmetric] by (auto simp: execute_def result_simps)
qed

text \<open>An interpreter that accepts every module as the module with one small memory and an empty
  \<open>run\<close> export.\<close>

definition idle_api :: "(unit, unit) wasm_api" where
  "idle_api =
     \<lparr>validate_all = (\<lambda>_. True),
      parse_all = (\<lambda>_. [Inr (ImportSection 0), Inr OtherPayload,
         Inr (MemorySection [Inr \<lparr>mt_shared = False, mt_memory64 = False, mt_page_size_log2 = None,
            mt_initial = 1, mt_maximum = Some 2\<rparr>])]),
      module_new = (\<lambda>_ _. Some ()),
      set_fuel = (\<lambda>c _. consume_fuel c),
      instantiate_and_start = (\<lambda>_ _ _ _. Some ()),
      exports_run0 = (\<lambda>_. True),
      call_run0 = (\<lambda>_. Some ()),
      memory_data = (\<lambda>_. None),
      memory_replace = (\<lambda>_ _. ()),
      exports_run4 = (\<lambda>_. False),
      call_run4 = (\<lambda>_ _. None),
      exports_process = (\<lambda>_. False),
      call_process = (\<lambda>_ _. None)\<rparr>"

theorem validate_iff_witness: "validate idle_api [0, 97, 115, 109] 2 = Inr ()"
proof -
  have "MemorySection [Inr m] = MemorySection (map Inr [m])" for m by simp
  then show ?thesis
    unfolding validate_iff by (simp add: idle_api_def) (simp add: Cons_eq_map_conv memory_admissible_def)
qed

lemma execute_idle_api: "execute idle_api bs fuel 64 = Inr ()"
  by (simp add: execute_def validate_def idle_api_def check_payload_def engine_def memory_form_ok_def
      memory_size_ok_def is_component_payload_def)

theorem execute_respects_boundary_witness:
  "execute idle_api [0, 97, 115, 109] 50000000 64 = Inr ()"
  unfolding execute_respects_boundary Let_def
  by (simp add: idle_api_def) (simp add: Cons_eq_map_conv memory_admissible_def runner_limit_bytes)

lemma memory_write_Some_iff:
  "memory_write mem off buf = Some mem' \<longleftrightarrow>
     off + length buf \<le> length mem \<and> mem' = take off mem @ buf @ drop (off + length buf) mem"
  by (auto simp: memory_write_def)

lemma memory_read_Some_iff:
  "memory_read mem off n = Some buf \<longleftrightarrow> off + n \<le> length mem \<and> buf = take n (drop off mem)"
  by (auto simp: memory_read_def)

lemmas memory_simps = memory_write_Some_iff memory_read_Some_iff bind_eq_Some_conv

text \<open>A turn of the lab hands the guest exactly the caller's state at address zero with the
  rest of the fresh memory untouched, and returns as many bytes as it was given, read from address
  zero of the memory that the call left.\<close>

theorem lab_execute_state_transfer:
  assumes "lab_execute W module_bytes state role turn_bit iterations fuel pages = Inr out"
  shows "length out = length state \<and>
         (\<exists>m i mem r i' mem'. instantiate_and_start W lab_engine (lab_limits pages) fuel m = Some i \<and>
            memory_data W i = Some mem \<and>
            call_run4 W (role, turn_bit, iterations, of_nat (length state))
              (memory_replace W (state @ drop (length state) mem) i) = Some (r, i') \<and>
            memory_data W i' = Some mem' \<and> out = take (length state) mem')"
  using assms by (fastforce simp: lab_execute_def result_simps memory_simps)

text \<open>A stream turn hands the guest the accumulated bytes followed by the chunk at address
  zero, and returns exactly as many bytes as both together, read from address zero of the memory
  that the call left; the guest's own length claim agrees with it.\<close>

theorem execute_stream_state_transfer:
  assumes "execute_stream W module_bytes previous chunk capacity fuel pages = Inr out"
  shows "length out = length previous + length chunk \<and>
         (\<exists>m i mem r i' mem'. instantiate_and_start W lab_engine (lab_limits pages) fuel m = Some i \<and>
            memory_data W i = Some mem \<and>
            call_process W (of_nat (length previous), of_nat (length chunk), ucast capacity)
              (memory_replace W (previous @ chunk @ drop (length previous + length chunk) mem) i)
              = Some (r, i') \<and>
            sint r = int (length out) \<and>
            memory_data W i' = Some mem' \<and> out = take (length previous + length chunk) mem')"
proof -
  let ?n = "length previous + length chunk"
  from assms obtain m i mem r i' mem' where
      call: "instantiate_and_start W lab_engine (lab_limits pages) fuel m = Some i"
      "memory_data W i = Some mem"
      "call_process W (of_nat (length previous), of_nat (length chunk), ucast capacity)
         (memory_replace W (previous @ chunk @ drop (length chunk + length previous) mem) i)
         = Some (r, i')"
      "memory_data W i' = Some mem'" "out = take ?n mem'"
    and len: "\<not> sint r < 0" "nat (sint r) = ?n" "?n \<le> length mem'"
    by (auto simp: execute_stream_def result_simps memory_simps)
  from len call(5) have n: "length out = ?n" and "sint r = int (length out)"
    by (simp_all add: min_def)
  with call show ?thesis
    by (intro conjI n exI [of _ m] exI [of _ i] exI [of _ mem] exI [of _ r] exI [of _ i']
        exI [of _ mem']) (simp_all add: add.commute)
qed

end
