(* ===== verification/Runner.thy ===== *)
theory Runner
  imports Wasm_Host
begin

text \<open>
  The production runner process of \<open>crates/scheduler/src/main.rs\<close>: the fixed policy, the command that
  the scheduler spawns (\<open>execute_process\<close>), and what the spawned process does (\<open>runner_main\<close>) from
  its arguments and its standard input to the call of the WebAssembly host.
\<close>

section \<open>Policy\<close>

record policy =
  execution_slot :: duration
  max_parallel_workers :: usize
  max_pending_runs :: usize
  max_module_bytes :: usize
  max_memory_pages :: u32
  turn_fuel :: u64
  runner_address_space :: u64

definition production :: policy where
  "production =
     \<lparr>execution_slot = 1 * nanos_per_sec,
      max_parallel_workers = 8,
      max_pending_runs = 128,
      max_module_bytes = 1024 * 1024,
      max_memory_pages = 64,
      turn_fuel = 50000000,
      runner_address_space = 256 * 1024 * 1024\<rparr>"

section \<open>Spawning the runner\<close>

datatype stdio = Piped | Null

record command =
  cmd_program :: string
  cmd_args :: "string list"
  cmd_env_cleared :: bool
  cmd_stdin :: stdio
  cmd_stdout :: stdio
  cmd_stderr :: stdio
  cmd_kill_on_drop :: bool

datatype exit_status = Exited nat | Signalled nat

text \<open>The process interface of the runtime: \<open>'h\<close> are handles of child processes.\<close>

record 'h process_api =
  current_exe :: "string option"
  spawn :: "command \<Rightarrow> 'h option"
  take_stdin :: "'h \<Rightarrow> bool"
  write_stdin :: "'h \<Rightarrow> bytes \<Rightarrow> bool"
  shutdown_stdin :: "'h \<Rightarrow> bool"
  wait_child :: "'h \<Rightarrow> exit_status option"

definition runner_arguments :: "policy \<Rightarrow> string list" where
  "runner_arguments pol =
     [''__runner'',
      word_to_string (turn_fuel pol),
      word_to_string (max_memory_pages pol),
      word_to_string (runner_address_space pol),
      word_to_string (saturating_add (of_nat (as_secs (execution_slot pol))) (1 :: u64))]"

definition runner_command :: "string \<Rightarrow> policy \<Rightarrow> command" where
  "runner_command executable pol =
     \<lparr>cmd_program = executable, cmd_args = runner_arguments pol, cmd_env_cleared = True,
      cmd_stdin = Piped, cmd_stdout = Null, cmd_stderr = Null, cmd_kill_on_drop = True\<rparr>"

definition execute_process :: "'h process_api \<Rightarrow> bytes \<Rightarrow> policy \<Rightarrow> error + unit" where
  "execute_process P module_bytes pol =
     try_bind (ok_or (current_exe P) ''locate scheduler executable'') (\<lambda>executable.
     try_bind (ok_or (spawn P (runner_command executable pol)) ''spawn isolated runner'') (\<lambda>child.
     try_bind (ensure (take_stdin P child) ''runner stdin missing'') (\<lambda>_.
     try_bind (ensure (write_stdin P child module_bytes) ''send module'') (\<lambda>_.
     try_bind (ensure (shutdown_stdin P child) ''close runner input'') (\<lambda>_.
     try_bind (ok_or (wait_child P child) ''wait for runner'') (\<lambda>status.
     Inr ()))))))"

definition SMOKE_MODULE :: bytes where
  "SMOKE_MODULE =
     [0x00, 0x61, 0x73, 0x6d, 0x01, 0x00, 0x00, 0x00, 0x01, 0x04, 0x01, 0x60, 0x00, 0x00, 0x03,
      0x02, 0x01, 0x00, 0x07, 0x07, 0x01, 0x03, 0x72, 0x75, 0x6e, 0x00, 0x00, 0x0a, 0x04, 0x01,
      0x02, 0x00, 0x0b]"

text \<open>The build-time self test; \<open>runtime\<close> says whether the async runtime could be built, and the
  result is the line printed on success.\<close>

definition validate_artifacts_main :: "bool \<Rightarrow> 'h process_api \<Rightarrow> error + string" where
  "validate_artifacts_main runtime P =
     try_bind (ensure runtime ''build runtime'') (\<lambda>_.
     try_bind (execute_process P SMOKE_MODULE production) (\<lambda>_.
     Inr ''validated sandboxed general-WASM runner''))"

section \<open>Inside the runner\<close>

text \<open>\<open>args\<close> are all arguments of the process, the program name first.\<close>

definition parse_runner_arg :: "string list \<Rightarrow> nat \<Rightarrow> string \<Rightarrow> error + 'a::len word" where
  "parse_runner_arg args index name =
     try_bind (ok_or (if index < length args then Some (args ! index) else None)
                 (''runner '' @ name @ '' missing'')) (\<lambda>s.
     ok_or (parse_word s) (''invalid runner '' @ name))"

fun remove_vars :: "string list \<Rightarrow> (string \<times> string) list \<Rightarrow> (string \<times> string) list" where
  "remove_vars [] env = env"
| "remove_vars (name # names) env = remove_vars names (filter (\<lambda>(n, _). n \<noteq> name) env)"

definition clear_environment :: "proc \<Rightarrow> error + proc" where
  "clear_environment p =
     (let names = map fst (p_env p) in Inr (p\<lparr>p_env := remove_vars names (p_env p)\<rparr>))"

text \<open>Everything before the call of the WebAssembly host: the process state in which the bytes are
  handed over, the bytes, the fuel and the page limit. \<open>stdin\<close> is what the pipe yields until its
  end.\<close>

definition runner_prepare ::
    "kernel \<Rightarrow> string list \<Rightarrow> error + bytes \<Rightarrow> proc \<Rightarrow> error + proc \<times> bytes \<times> u64 \<times> u32" where
  "runner_prepare K args stdin p =
     (let pol = production in
      try_bind (parse_runner_arg args 2 ''fuel'') (\<lambda>fuel.
      try_bind (parse_runner_arg args 3 ''memory pages'') (\<lambda>pages.
      try_bind (parse_runner_arg args 4 ''address space'') (\<lambda>address_space.
      try_bind (parse_runner_arg args 5 ''cpu seconds'') (\<lambda>cpu.
      try_bind stdin (\<lambda>input.
      let module_bytes = take (unat (max_module_bytes pol) + 1) input in
      try_bind (ensure (\<not> (module_bytes = [] \<or> length module_bytes > unat (max_module_bytes pol)))
                  ''invalid module size'') (\<lambda>_.
      try_bind (clear_environment p) (\<lambda>p.
      try_bind (close_inherited_descriptors K p) (\<lambda>p.
      try_bind (apply_runner_sandbox K
                  \<lparr>address_space_bytes = address_space, cpu_seconds = cpu, open_files = 3\<rparr> p)
        (\<lambda>(status, p).
      try_bind (verify_required True status) (\<lambda>_.
      Inr (p, module_bytes, fuel, pages))))))))))))"

definition runner_main ::
    "('m, 'i) wasm_api \<Rightarrow> kernel \<Rightarrow> string list \<Rightarrow> error + bytes \<Rightarrow> proc \<Rightarrow> error + unit" where
  "runner_main W K args stdin p =
     try_bind (runner_prepare K args stdin p) (\<lambda>(p, module_bytes, fuel, pages).
     execute W module_bytes fuel pages)"

section \<open>Properties\<close>

lemma remove_vars_subset: "set (remove_vars names env) = {(n, v) \<in> set env. n \<notin> set names}"
  by (induction names arbitrary: env) auto

lemma clear_environment_eq: "clear_environment p = Inr (p\<lparr>p_env := []\<rparr>)"
proof -
  have "set (remove_vars (map fst (p_env p)) (p_env p)) = {}"
    unfolding remove_vars_subset by force
  then show ?thesis by (simp add: clear_environment_def)
qed

lemma runner_prepare_ok:
  assumes "runner_prepare K args stdin p = Inr (p', m, fuel, pages)"
  obtains address_space cpu input p1 st where
    "parse_runner_arg args 2 ''fuel'' = Inr fuel" "parse_runner_arg args 3 ''memory pages'' = Inr pages"
    "parse_runner_arg args 4 ''address space'' = Inr address_space"
    "parse_runner_arg args 5 ''cpu seconds'' = Inr cpu"
    "stdin = Inr input" "m = input" "input \<noteq> []" "length input \<le> 1048576"
    "close_inherited_descriptors K (p\<lparr>p_env := []\<rparr>) = Inr p1"
    "apply_runner_sandbox K
       \<lparr>address_space_bytes = address_space, cpu_seconds = cpu, open_files = 3\<rparr> p1 = Inr (st, p')"
proof -
  have mx: "unat (max_module_bytes production) = 1048576" by (simp add: production_def)
  show thesis
    using assms that
    by (auto simp: runner_prepare_def Let_def result_simps mx clear_environment_eq min_def
        split: if_splits)
qed

lemma parse_runner_argument:
  "i < length args \<Longrightarrow> args ! i = word_to_string w \<Longrightarrow> parse_runner_arg args i name = Inr w"
  by (simp add: parse_runner_arg_def)

lemma runner_arguments_parse:
  "parse_runner_arg (exe # runner_arguments pol) 2 n1 = Inr (turn_fuel pol)"
  "parse_runner_arg (exe # runner_arguments pol) 3 n2 = Inr (max_memory_pages pol)"
  "parse_runner_arg (exe # runner_arguments pol) 4 n3 = Inr (runner_address_space pol)"
  "parse_runner_arg (exe # runner_arguments pol) 5 n4 =
     Inr (saturating_add (of_nat (as_secs (execution_slot pol))) (1 :: u64))"
  by (simp_all add: parse_runner_argument runner_arguments_def)

text \<open>C8: whatever process state and environment the runner inherits, if it gets as far as the
  WebAssembly host then its environment is empty, only the standard streams are open, the full
  confinement is in force with the limits of the policy, and the bytes are the whole input, not
  empty and at most one mebibyte, with the fuel and the page limit that the scheduler passed on the
  command line.\<close>

theorem runner_prepare_confines:
  assumes "kernel_contract K" and "\<forall>fd \<in> set (p_fds p). fd < 2 ^ 32"
    and "runner_prepare K (exe # runner_arguments pol) stdin p = Inr (p', m, fuel, pages)"
  shows "p_env p' = [] \<and> set (p_fds p') \<subseteq> {0, 1, 2} \<and>
         confined runner_filter (runner_address_space pol)
           (saturating_add (of_nat (as_secs (execution_slot pol))) 1) 3 p' \<and>
         stdin = Inr m \<and> m \<noteq> [] \<and> length m \<le> 1024 * 1024 \<and>
         fuel = turn_fuel pol \<and> pages = max_memory_pages pol"
proof -
  from assms(3) obtain address_space cpu input p1 st where
    a: "parse_runner_arg (exe # runner_arguments pol) 2 ''fuel'' = Inr fuel"
      "parse_runner_arg (exe # runner_arguments pol) 3 ''memory pages'' = Inr pages"
      "parse_runner_arg (exe # runner_arguments pol) 4 ''address space'' = Inr address_space"
      "parse_runner_arg (exe # runner_arguments pol) 5 ''cpu seconds'' = Inr cpu"
    and b: "stdin = Inr input" "m = input" "input \<noteq> []" "length input \<le> 1048576"
    and c: "close_inherited_descriptors K (p\<lparr>p_env := []\<rparr>) = Inr p1"
    and d: "apply_runner_sandbox K
       \<lparr>address_space_bytes = address_space, cpu_seconds = cpu, open_files = 3\<rparr> p1 = Inr (st, p')"
    by (rule runner_prepare_ok)
  have "set (p_fds p1) \<subseteq> {0, 1, 2}"
    using close_inherited_descriptors_ok [OF assms(1) c] assms(2) by fastforce
  with close_inherited_descriptors_ok [OF assms(1) c] apply_runner_sandbox_state [OF assms(1) d] b
    a [unfolded runner_arguments_parse]
  show ?thesis by auto
qed

text \<open>C9 (a defect): on a kernel where a new descriptor needs a free number below the limit on open
  files, a runner that starts with its three standard streams open never reaches the WebAssembly
  host: the sandbox leaves no number for the Landlock ruleset. No module is ever executed, and
  since the result of a run is not observable, the service answers as if it had been.\<close>

theorem runner_main_never_executes:
  assumes "kernel_contract K" and "descriptor_limit_law K" and "{0, 1, 2} \<subseteq> set (p_fds p)"
  shows "\<not> is_ok (runner_prepare K args stdin p) \<and> \<not> is_ok (runner_main W K args stdin p)"
proof -
  have "\<not> is_ok (runner_prepare K args stdin p)"
  proof
    assume "is_ok (runner_prepare K args stdin p)"
    then obtain p' m fuel pages where "runner_prepare K args stdin p = Inr (p', m, fuel, pages)"
      by (auto simp: is_ok_iff)
    then obtain pol p1 st where
      c: "close_inherited_descriptors K (p\<lparr>p_env := []\<rparr>) = Inr p1"
      and d: "apply_runner_sandbox K pol p1 = Inr (st, p')" and o: "open_files pol = 3"
      by (rule runner_prepare_ok) auto
    have "fd \<in> {0, 1, 2}" if "fd < unat (open_files pol)" for fd
      using that o by auto
    then have "\<forall>fd < unat (open_files pol). fd \<in> set (p_fds p1)"
      using close_inherited_descriptors_ok [OF assms(1) c] assms(3) by fastforce
    from no_descriptor_no_sandbox [OF assms(1,2) this] d show False by simp
  qed
  then show ?thesis by (cases "runner_prepare K args stdin p") (auto simp: runner_main_def try_bind_def)
qed

text \<open>C21 (a defect): the self test of the image prints its success line whenever a runner could be
  spawned, fed and waited for; what exit status that runner had makes no difference.\<close>

theorem validate_artifacts_ignores_status:
  assumes "current_exe P = Some exe" and "spawn P (runner_command exe production) = Some h"
    and "take_stdin P h" and "write_stdin P h SMOKE_MODULE" and "shutdown_stdin P h"
    and "wait_child P h = Some status"
  shows "validate_artifacts_main True P = Inr ''validated sandboxed general-WASM runner''"
  using assms by (simp add: validate_artifacts_main_def execute_process_def ensure_def ok_or_def)

section \<open>Witnesses\<close>

lemma prepared_ok:
  "is_ok (runner_prepare lenient_kernel (''/scheduler'' # runner_arguments production)
     (Inr SMOKE_MODULE) spawned_proc)"
proof -
  from lenient_kernel_ok(1) obtain p1 where
    "close_inherited_descriptors lenient_kernel (spawned_proc\<lparr>p_env := []\<rparr>) = Inr p1"
    by (auto simp: is_ok_iff)
  moreover from lenient_kernel_ok(2) obtain st p2 where
    s: "apply_runner_sandbox lenient_kernel
       \<lparr>address_space_bytes = runner_address_space production,
        cpu_seconds = saturating_add (of_nat (as_secs (execution_slot production))) 1,
        open_files = 3\<rparr> p1 = Inr (st, p2)"
    by (metis is_ok_iff surj_pair)
  moreover from apply_runner_sandbox_state [OF lenient_kernel_contract s]
  have "verify_required True st = Inr ()" by simp
  moreover have "unat (max_module_bytes production) = 1048576" "SMOKE_MODULE \<noteq> []"
    "length SMOKE_MODULE = 33"
    by (simp_all add: production_def SMOKE_MODULE_def)
  ultimately show ?thesis
    by (simp add: runner_prepare_def Let_def runner_arguments_parse clear_environment_eq ensure_def)
qed

theorem runner_prepare_confines_witness:
  "\<exists>p'. runner_prepare lenient_kernel (''/scheduler'' # runner_arguments production)
          (Inr SMOKE_MODULE) spawned_proc = Inr (p', SMOKE_MODULE, 50000000, 64) \<and>
        p_env p' = [] \<and> set (p_fds p') \<subseteq> {0, 1, 2} \<and> confined runner_filter 268435456 2 3 p'"
proof -
  from prepared_ok obtain p' m fuel pages where
    r: "runner_prepare lenient_kernel (''/scheduler'' # runner_arguments production)
          (Inr SMOKE_MODULE) spawned_proc = Inr (p', m, fuel, pages)"
    by (auto simp: is_ok_iff)
  have "\<forall>fd \<in> set (p_fds spawned_proc). fd < 2 ^ 32" by (simp add: spawned_proc_def)
  from runner_prepare_confines [OF lenient_kernel_contract this r] r show ?thesis
    by (simp add: production_def as_secs_def saturating_add_def)
qed

theorem runner_main_never_executes_witness:
  "\<not> is_ok (runner_prepare reference_kernel (''/scheduler'' # runner_arguments production)
       (Inr SMOKE_MODULE) spawned_proc) \<and>
   \<not> is_ok (runner_main idle_api reference_kernel (''/scheduler'' # runner_arguments production)
       (Inr SMOKE_MODULE) spawned_proc)"
proof -
  have "{0, 1, 2} \<subseteq> set (p_fds spawned_proc)" by (simp add: spawned_proc_def)
  from runner_main_never_executes [OF reference_kernel_contract
      granting_kernel_limit_law [OF reference_kernel_granting] this]
  show ?thesis by blast
qed

text \<open>A child that fails at once.\<close>

definition failing_child :: "unit process_api" where
  "failing_child = \<lparr>current_exe = Some ''/scheduler'', spawn = (\<lambda>_. Some ()), take_stdin = (\<lambda>_. True),
     write_stdin = (\<lambda>_ _. True), shutdown_stdin = (\<lambda>_. True), wait_child = (\<lambda>_. Some (Exited 1))\<rparr>"

theorem validate_artifacts_ignores_status_witness:
  "wait_child failing_child () = Some (Exited 1) \<and>
   validate_artifacts_main True failing_child = Inr ''validated sandboxed general-WASM runner''"
  using validate_artifacts_ignores_status [of failing_child "''/scheduler''" "()" "Exited 1"]
  by (simp add: failing_child_def)

end
