(* ===== verification/Artifact.thy ===== *)
theory Artifact
  imports Sandbox
begin

text \<open>
  The startup artifact: \<open>crates/scheduler/src/artifact.rs\<close> (secrets, pull, authenticated decryption)
  and the packaging utility \<open>crates/scheduler/examples/encrypt-artifact.rs\<close>. The crates for URLs,
  base64, AES-256-GCM, SHA-256 and HTTP are fields of records; the laws of the cipher that the round
  trip relies on are the hypothesis \<open>aead_laws\<close>.
\<close>

section \<open>Constants and the foreign functions\<close>

definition MAGIC :: bytes where
  "MAGIC = [73, 83, 72, 84, 65, 82, 49, 0]"

definition AUTHORIZED_HOST :: string where
  "AUTHORIZED_HOST = ''artifacts.kkbr.ai''"

definition NONCE_BYTES :: nat where "NONCE_BYTES = 12"
definition TAG_BYTES :: nat where "TAG_BYTES = 16"
definition HEADER_BYTES :: nat where "HEADER_BYTES = length MAGIC + NONCE_BYTES"

lemma artifact_sizes [simp]:
  "length MAGIC = 8" "NONCE_BYTES = 12" "TAG_BYTES = 16" "HEADER_BYTES = 20"
  by (simp_all add: MAGIC_def NONCE_BYTES_def TAG_BYTES_def HEADER_BYTES_def)

record parsed_url =
  url_scheme :: string
  url_host_str :: "string option"
  url_port_or_known_default :: "u16 option"
  url_username :: string
  url_password :: "string option"

text \<open>\<open>'k\<close> is the type of AEAD keys: \<open>unbound_key\<close> fails on a key of the wrong length, \<open>try_nonce\<close>
  on a nonce of the wrong length; \<open>aead_open\<close> is \<open>None\<close> when authentication fails.\<close>

record 'k crypto =
  base64_decode :: "bytes \<Rightarrow> bytes option"
  unbound_key :: "bytes \<Rightarrow> 'k option"
  try_nonce :: "bytes \<Rightarrow> bytes option"
  aead_seal :: "'k \<Rightarrow> bytes \<Rightarrow> bytes \<Rightarrow> bytes \<Rightarrow> bytes option"
  aead_open :: "'k \<Rightarrow> bytes \<Rightarrow> bytes \<Rightarrow> bytes \<Rightarrow> bytes option"
  sha256 :: "bytes \<Rightarrow> bytes"
  hex_encode :: "bytes \<Rightarrow> string"

section \<open>Startup secrets\<close>

type_synonym environ = "string \<rightharpoonup> string"

record startup_secrets =
  secret_url :: string
  secret_key :: bytes
  secret_api_token :: string

definition url_authorized :: "parsed_url \<Rightarrow> bool" where
  "url_authorized u =
     (\<not> (url_scheme u \<noteq> ''https''
        \<or> url_host_str u \<noteq> Some AUTHORIZED_HOST
        \<or> url_port_or_known_default u \<noteq> Some 443
        \<or> url_username u \<noteq> []
        \<or> url_password u \<noteq> None))"

definition remove_secrets :: "environ \<Rightarrow> environ" where
  "remove_secrets env =
     env(''WASM_PULL_URL'' := None, ''WASM_DECRYPTION_KEY'' := None, ''WASM_PULL_API_TOKEN'' := None)"

text \<open>The result and the environment that the process is left with.\<close>

definition take_from_environment ::
    "'k crypto \<Rightarrow> (string \<Rightarrow> parsed_url option) \<Rightarrow> environ \<Rightarrow> (error + startup_secrets) \<times> environ" where
  "take_from_environment C url_parse env =
     (case env ''WASM_PULL_URL'' of
        None \<Rightarrow> (Inl ''WASM_PULL_URL secret is required'', env)
      | Some url \<Rightarrow>
     (case env ''WASM_DECRYPTION_KEY'' of
        None \<Rightarrow> (Inl ''WASM_DECRYPTION_KEY secret is required'', env)
      | Some encoded_key \<Rightarrow>
     (case env ''WASM_PULL_API_TOKEN'' of
        None \<Rightarrow> (Inl ''WASM_PULL_API_TOKEN secret is required'', env)
      | Some api_token \<Rightarrow>
         (try_bind (ok_or (url_parse url) ''WASM_PULL_URL is invalid'') (\<lambda>parsed.
          try_bind (ensure (url_authorized parsed)
             ''WASM_PULL_URL must be an HTTPS URL on artifacts.kkbr.ai port 443'') (\<lambda>_.
          try_bind (ok_or (base64_decode C (as_bytes encoded_key))
             ''WASM_DECRYPTION_KEY must be base64'') (\<lambda>key.
          try_bind (ensure (length key = 32) ''WASM_DECRYPTION_KEY must decode to 32 bytes'') (\<lambda>_.
          try_bind (ensure (\<not> (api_token = [] \<or> length api_token > 4096))
             ''WASM_PULL_API_TOKEN must contain 1..=4096 bytes'') (\<lambda>_.
          Inr \<lparr>secret_url = url, secret_key = key, secret_api_token = api_token\<rparr>))))),
          remove_secrets env))))"

section \<open>Decryption\<close>

record loaded_artifact =
  artifact_module :: bytes
  artifact_sha256_hex :: string

definition decrypt :: "'k crypto \<Rightarrow> bytes \<Rightarrow> bytes \<Rightarrow> nat \<Rightarrow> error + loaded_artifact" where
  "decrypt C encrypted key_bytes max_module_bytes =
     try_bind (ensure (\<not> (length encrypted \<le> HEADER_BYTES + TAG_BYTES
                          \<or> take (length MAGIC) encrypted \<noteq> MAGIC))
                 ''invalid encrypted artifact envelope'') (\<lambda>_.
     try_bind (ok_or (try_nonce C (take NONCE_BYTES (drop (length MAGIC) encrypted)))
                 ''invalid artifact nonce'') (\<lambda>nonce.
     try_bind (ok_or (unbound_key C key_bytes) ''invalid artifact decryption key'') (\<lambda>key.
     try_bind (ok_or (aead_open C key nonce MAGIC (drop HEADER_BYTES encrypted))
                 ''artifact authentication failed'') (\<lambda>plaintext.
     try_bind (ensure (\<not> (plaintext = [] \<or> length plaintext > max_module_bytes))
                 ''decrypted module size violates policy'') (\<lambda>_.
     Inr \<lparr>artifact_module = plaintext,
          artifact_sha256_hex = hex_encode C (sha256 C plaintext)\<rparr>)))))"

section \<open>Pulling\<close>

text \<open>What the HTTP client returns for a GET: a transport failure, or a response with its
  status, its declared length and its body chunks (a failed read is an \<open>Inl\<close>).\<close>

record http_response =
  http_error_status :: bool
  http_content_length :: "u64 option"
  http_chunks :: "(error + bytes) list"

record http_client_config =
  https_only :: bool
  follow_redirects :: bool
  connect_timeout_secs :: nat
  timeout_secs :: nat
  use_proxy :: bool

definition pull_client :: http_client_config where
  "pull_client = \<lparr>https_only = True, follow_redirects = False, connect_timeout_secs = 5,
     timeout_secs = 20, use_proxy = False\<rparr>"

record header_value =
  header_text :: string
  header_sensitive :: bool

text \<open>A request that leaves the process: how its client was configured, the URL and the authorization
  header.\<close>

record http_request =
  req_client :: http_client_config
  req_url :: string
  req_authorization :: header_value

text \<open>The HTTP crate: whether a client with a configuration can be built, whether a text is a header
  value, and how a GET ends, given all the requests sent so far with the new one at the end.\<close>

record http_api =
  http_build :: "http_client_config \<Rightarrow> bool"
  header_valid :: "string \<Rightarrow> bool"
  http_get :: "http_request list \<Rightarrow> http_response option"

text \<open>Sending a request appends it to the requests sent.\<close>

definition http_send :: "http_api \<Rightarrow> http_request \<Rightarrow> http_request list \<Rightarrow> http_response option \<times> http_request list" where
  "http_send H request sent = (http_get H (sent @ [request]), sent @ [request])"

definition bearer_header :: "http_api \<Rightarrow> string \<Rightarrow> error + header_value" where
  "bearer_header H token =
     try_bind (ensure (header_valid H (''Bearer '' @ token))
                 ''WASM_PULL_API_TOKEN is not a valid HTTP bearer token'') (\<lambda>_.
     Inr \<lparr>header_text = ''Bearer '' @ token, header_sensitive = True\<rparr>)"

fun read_body :: "usize \<Rightarrow> bytes \<Rightarrow> (error + bytes) list \<Rightarrow> error + bytes" where
  "read_body max_encrypted_bytes encrypted [] = Inr encrypted"
| "read_body max_encrypted_bytes encrypted (r # rs) =
     try_bind (with_message ''artifact body read failed'' r) (\<lambda>chunk.
     try_bind (ensure (\<not> saturating_add (of_nat (length encrypted)) (of_nat (length chunk))
                          > max_encrypted_bytes)
                 ''encrypted artifact exceeds policy'') (\<lambda>_.
     read_body max_encrypted_bytes (encrypted @ chunk) rs))"

text \<open>The function up to the request: the limit on the encrypted size and the request.\<close>

definition pull_request :: "http_api \<Rightarrow> startup_secrets \<Rightarrow> usize \<Rightarrow> error + usize \<times> http_request" where
  "pull_request H secrets max_module_bytes =
     try_bind (ok_or (checked_add max_module_bytes (of_nat (HEADER_BYTES + TAG_BYTES)))
                 ''artifact size limit overflow'') (\<lambda>max_encrypted_bytes.
     try_bind (ensure (http_build H pull_client) ''build artifact pull client'') (\<lambda>_.
     try_bind (bearer_header H (secret_api_token secrets)) (\<lambda>authorization.
     Inr (max_encrypted_bytes,
          \<lparr>req_client = pull_client, req_url = secret_url secrets, req_authorization = authorization\<rparr>))))"

text \<open>From the answer on.\<close>

definition receive_artifact ::
    "'k crypto \<Rightarrow> startup_secrets \<Rightarrow> usize \<Rightarrow> usize \<Rightarrow> http_response option \<Rightarrow> error + loaded_artifact" where
  "receive_artifact C secrets max_module_bytes max_encrypted_bytes answer =
     try_bind (ok_or answer ''artifact pull failed'') (\<lambda>response.
     try_bind (ensure (\<not> http_error_status response) ''artifact source returned an error'') (\<lambda>_.
     try_bind (ensure (\<not> (case http_content_length response of
                              None \<Rightarrow> False | Some l \<Rightarrow> l > max_encrypted_bytes))
                 ''encrypted artifact exceeds policy'') (\<lambda>_.
     try_bind (read_body max_encrypted_bytes [] (http_chunks response)) (\<lambda>encrypted.
     decrypt C encrypted (secret_key secrets) (unat max_module_bytes)))))"

text \<open>The result, and the requests that the function has sent.\<close>

definition pull_and_decrypt ::
    "'k crypto \<Rightarrow> http_api \<Rightarrow> startup_secrets \<Rightarrow> usize \<Rightarrow> (error + loaded_artifact) \<times> http_request list" where
  "pull_and_decrypt C H secrets max_module_bytes =
     (case pull_request H secrets max_module_bytes of
        Inl e \<Rightarrow> (Inl e, [])
      | Inr (max_encrypted_bytes, request) \<Rightarrow>
          (let (answer, sent) = http_send H request []
           in (receive_artifact C secrets max_module_bytes max_encrypted_bytes answer, sent)))"

section \<open>The packaging utility\<close>

text \<open>\<open>args\<close> are the arguments after the program name, \<open>random\<close> the operating system's 12 bytes,
  \<open>read\<close> the file system; the result is the output path and the bytes written to it.\<close>

definition encrypt_artifact ::
    "'k crypto \<Rightarrow> string list \<Rightarrow> environ \<Rightarrow> bytes option \<Rightarrow> (string \<Rightarrow> bytes option)
     \<Rightarrow> error + string \<times> bytes" where
  "encrypt_artifact C args env random read =
     try_bind (ok_or (case args of [] \<Rightarrow> None | a # _ \<Rightarrow> Some a) ''input WASM path is required'') (\<lambda>inp.
     try_bind (ok_or (case args of _ # b # _ \<Rightarrow> Some b | _ \<Rightarrow> None)
                 ''output artifact path is required'') (\<lambda>out.
     try_bind (ensure (length args \<le> 2) ''usage: encrypt-artifact <input.wasm> <output.enc>'') (\<lambda>_.
     try_bind (ok_or (env ''WASM_DECRYPTION_KEY'') ''WASM_DECRYPTION_KEY is required'') (\<lambda>encoded_key.
     try_bind (ok_or (base64_decode C (as_bytes encoded_key))
                 ''WASM_DECRYPTION_KEY must be base64'') (\<lambda>key_bytes.
     try_bind (ensure (length key_bytes = 32) ''WASM_DECRYPTION_KEY must decode to 32 bytes'') (\<lambda>_.
     try_bind (ok_or random ''OS randomness unavailable'') (\<lambda>nonce_bytes.
     try_bind (ok_or (unbound_key C key_bytes) ''invalid encryption key'') (\<lambda>key.
     try_bind (ok_or (read inp) ''read input WASM'') (\<lambda>plaintext.
     try_bind (ok_or (aead_seal C key nonce_bytes MAGIC plaintext) ''encrypt WASM'') (\<lambda>ciphertext.
     Inr (out, MAGIC @ nonce_bytes @ ciphertext)))))))))))"

section \<open>Secrets are checked and removed\<close>

text \<open>C16: startup takes the secrets exactly when all three variables are present, the URL parses to
  an HTTPS URL on the authorised host (an exact match) and port 443 without credentials, the key
  decodes to 32 bytes and the token has 1 to 4096 bytes; then none of the three variables is left in
  the environment and no other variable has changed.\<close>

theorem take_from_environment_iff:
  "fst (take_from_environment C url_parse env) = Inr secrets \<longleftrightarrow>
     env ''WASM_PULL_URL'' = Some (secret_url secrets) \<and>
     env ''WASM_PULL_API_TOKEN'' = Some (secret_api_token secrets) \<and>
     (\<exists>k u. env ''WASM_DECRYPTION_KEY'' = Some k \<and> base64_decode C (as_bytes k) = Some (secret_key secrets) \<and>
        url_parse (secret_url secrets) = Some u \<and> url_scheme u = ''https'' \<and>
        url_host_str u = Some AUTHORIZED_HOST \<and> url_port_or_known_default u = Some 443 \<and>
        url_username u = [] \<and> url_password u = None) \<and>
     length (secret_key secrets) = 32 \<and>
     1 \<le> length (secret_api_token secrets) \<and> length (secret_api_token secrets) \<le> 4096"
  by (cases secrets)
    (auto simp: take_from_environment_def result_simps url_authorized_def Suc_le_eq
      split: option.splits)

text \<open>C17: whenever startup gets past reading the variables, with success or with an error, the
  environment that remains has none of the three secrets and every other variable unchanged.\<close>

theorem take_from_environment_removes_secrets:
  assumes "env ''WASM_PULL_URL'' \<noteq> None" and "env ''WASM_DECRYPTION_KEY'' \<noteq> None"
    and "env ''WASM_PULL_API_TOKEN'' \<noteq> None"
  shows "snd (take_from_environment C url_parse env) =
           env |` (- {''WASM_PULL_URL'', ''WASM_DECRYPTION_KEY'', ''WASM_PULL_API_TOKEN''})"
  using assms
  by (auto simp: take_from_environment_def remove_secrets_def restrict_map_def fun_eq_iff)

section \<open>The body of the response\<close>

text \<open>The loop accepts exactly the chunk sequences without a read failure whose total length stays
  within the bound, and yields their concatenation.\<close>

lemma read_body_eq:
  assumes "length acc + length (concat cs) < 2 ^ 64"
  shows "read_body mx acc (map Inr cs) =
           (if cs \<noteq> [] \<and> unat mx < length acc + length (concat cs)
            then Inl ''encrypted artifact exceeds policy'' else Inr (acc @ concat cs))"
  using assms
proof (induction cs arbitrary: acc)
  case (Cons c cs)
  have len: "unat (of_nat (length acc) :: usize) = length acc"
      "unat (of_nat (length c) :: usize) = length c"
    using Cons.prems by (simp_all add: unat_of_nat_less)
  have sat: "saturating_add (of_nat (length acc)) (of_nat (length c)) > mx \<longleftrightarrow>
      unat mx < length acc + length c"
    using Cons.prems by (simp add: word_less_nat_alt unat_saturating_add len)
  have "read_body mx (acc @ c) (map Inr cs) =
      (if cs \<noteq> [] \<and> unat mx < length (acc @ c) + length (concat cs)
       then Inl ''encrypted artifact exceeds policy'' else Inr ((acc @ c) @ concat cs))"
    by (rule Cons.IH) (use Cons.prems in simp)
  then show ?case by (cases "cs = []") (auto simp: sat ensure_def)
qed simp

lemma read_body_ok_chunks:
  "read_body mx acc rs = Inr e \<Longrightarrow> \<exists>cs. rs = map Inr cs \<and> e = acc @ concat cs"
proof (induction rs arbitrary: acc)
  case (Cons r rs)
  then obtain c where c: "r = Inr c" and "read_body mx (acc @ c) rs = Inr e"
    by (auto simp: result_simps)
  with Cons.IH [of "acc @ c"] obtain cs where "rs = map Inr cs" "e = (acc @ c) @ concat cs" by blast
  with c show ?case by (intro exI [of _ "c # cs"]) simp
qed simp

text \<open>The only request that the pull can send.\<close>

definition the_request :: "startup_secrets \<Rightarrow> http_request" where
  "the_request secrets =
     \<lparr>req_client = pull_client, req_url = secret_url secrets,
      req_authorization = \<lparr>header_text = ''Bearer '' @ secret_api_token secrets, header_sensitive = True\<rparr>\<rparr>"

lemma pull_request_eq:
  "pull_request H secrets mx =
     (if \<not> unat mx + 36 < 2 ^ 64 then Inl ''artifact size limit overflow''
      else if \<not> http_build H pull_client then Inl ''build artifact pull client''
      else if \<not> header_valid H (''Bearer '' @ secret_api_token secrets)
      then Inl ''WASM_PULL_API_TOKEN is not a valid HTTP bearer token''
      else Inr (mx + 36, the_request secrets))"
  by (auto simp: pull_request_def bearer_header_def the_request_def checked_add_def ensure_def)

lemma pull_ok:
  assumes "fst (pull_and_decrypt C H secrets mx) = Inr a"
  obtains response cs where "http_get H [the_request secrets] = Some response"
    "\<not> http_error_status response" "http_chunks response = map Inr cs"
    "decrypt C (concat cs) (secret_key secrets) (unat mx) = Inr a"
  using assms
  by (auto simp: pull_and_decrypt_def pull_request_eq receive_artifact_def http_send_def result_simps Let_def
      dest!: read_body_ok_chunks split: if_splits)

section \<open>Round trip and authenticity\<close>

definition aead_laws :: "'k crypto \<Rightarrow> bool" where
  "aead_laws C \<longleftrightarrow>
     (\<forall>kb. unbound_key C kb \<noteq> None \<longleftrightarrow> length kb = 32) \<and>
     (\<forall>n. try_nonce C n = (if length n = NONCE_BYTES then Some n else None)) \<and>
     (\<forall>k n a m c. aead_seal C k n a m = Some c \<longrightarrow>
        length c = length m + TAG_BYTES \<and> aead_open C k n a c = Some m) \<and>
     (\<forall>k n a m c. aead_open C k n a c = Some m \<longrightarrow> aead_seal C k n a m = Some c)"

lemma aead_lawsD:
  assumes "aead_laws C"
  shows "unbound_key C kb \<noteq> None \<longleftrightarrow> length kb = 32"
    and "try_nonce C n = (if length n = NONCE_BYTES then Some n else None)"
    and "aead_seal C k n a m = Some c \<Longrightarrow> length c = length m + TAG_BYTES"
    and "aead_seal C k n a m = Some c \<Longrightarrow> aead_open C k n a c = Some m"
    and "aead_open C k n a c = Some m \<Longrightarrow> aead_seal C k n a m = Some c"
  using assms unfolding aead_laws_def by blast+

text \<open>An envelope, taken apart.\<close>

lemma decrypt_envelope:
  assumes "aead_laws C" and "length nonce = 12" and "unbound_key C kb = Some k"
    and "aead_seal C k nonce MAGIC m = Some c"
  shows "decrypt C (MAGIC @ nonce @ c) kb mx =
           (if m = [] then Inl ''invalid encrypted artifact envelope''
            else if mx < length m then Inl ''decrypted module size violates policy''
            else Inr \<lparr>artifact_module = m, artifact_sha256_hex = hex_encode C (sha256 C m)\<rparr>)"
proof -
  have "length c = length m + 16" using aead_lawsD(3) [OF assms(1,4)] by simp
  moreover have "try_nonce C nonce = Some nonce" using aead_lawsD(2) [OF assms(1)] assms(2) by simp
  ultimately show ?thesis
    using aead_lawsD(4) [OF assms(1,4)] assms(2,3)
    by (simp add: decrypt_def ensure_def)
qed

lemma decrypt_sealed:
  assumes "aead_laws C" and "decrypt C encrypted kb mx = Inr a"
  shows "\<exists>k nonce c. unbound_key C kb = Some k \<and> length nonce = 12 \<and>
           aead_seal C k nonce MAGIC (artifact_module a) = Some c \<and>
           encrypted = MAGIC @ nonce @ c \<and>
           artifact_module a \<noteq> [] \<and> length (artifact_module a) \<le> mx \<and>
           artifact_sha256_hex a = hex_encode C (sha256 C (artifact_module a))"
proof -
  let ?nonce = "take 12 (drop 8 encrypted)" and ?c = "drop 20 encrypted"
  from assms(2) obtain k n where env: "36 < length encrypted" "take 8 encrypted = MAGIC"
    and n: "try_nonce C ?nonce = Some n" and k: "unbound_key C kb = Some k"
    and op: "aead_open C k n MAGIC ?c = Some (artifact_module a)"
    and m: "artifact_module a \<noteq> []" "length (artifact_module a) \<le> mx"
      "artifact_sha256_hex a = hex_encode C (sha256 C (artifact_module a))"
    by (auto simp: decrypt_def result_simps)
  have "length ?nonce = 12" using env by simp
  with n have "n = ?nonce" using aead_lawsD(2) [OF assms(1), of ?nonce] by simp
  with op have "aead_seal C k ?nonce MAGIC (artifact_module a) = Some ?c"
    using aead_lawsD(5) [OF assms(1)] by blast
  moreover have "encrypted = MAGIC @ ?nonce @ ?c"
  proof -
    have "encrypted = take 8 encrypted @ take 12 (drop 8 encrypted) @ drop 12 (drop 8 encrypted)"
      by (simp only: append_take_drop_id)
    then show ?thesis by (simp add: env(2))
  qed
  ultimately show ?thesis using k m \<open>length ?nonce = 12\<close> by blast
qed

text \<open>C18: decryption accepts only envelopes that the packaging would produce: under the laws of the
  cipher, a loaded module is non-empty and within the policy, its recorded hash is the hash of the
  module, and the input is the magic, a 12-byte nonce and the sealing of that very module under the
  key with the magic as associated data.\<close>

theorem decrypt_authentic:
  assumes "aead_laws C" and "decrypt C encrypted kb mx = Inr a"
  shows "\<exists>k nonce c. unbound_key C kb = Some k \<and> length nonce = 12 \<and>
           aead_seal C k nonce MAGIC (artifact_module a) = Some c \<and>
           encrypted = MAGIC @ nonce @ c \<and>
           artifact_module a \<noteq> [] \<and> length (artifact_module a) \<le> mx \<and>
           artifact_sha256_hex a = hex_encode C (sha256 C (artifact_module a))"
  using assms by (rule decrypt_sealed)

lemma encrypt_artifact_envelope:
  assumes "encrypt_artifact C args env random read = Inr (out, envelope)"
  shows "\<exists>inp kb encoded nonce k m c. args = [inp, out] \<and> env ''WASM_DECRYPTION_KEY'' = Some encoded \<and>
           base64_decode C (as_bytes encoded) = Some kb \<and> length kb = 32 \<and> random = Some nonce \<and>
           unbound_key C kb = Some k \<and> read inp = Some m \<and>
           aead_seal C k nonce MAGIC m = Some c \<and> envelope = MAGIC @ nonce @ c"
proof -
  from assms obtain inp kb encoded nonce k m c where
      "(case args of [] \<Rightarrow> None | a # _ \<Rightarrow> Some a) = Some inp"
      "(case args of _ # b # _ \<Rightarrow> Some b | _ \<Rightarrow> None) = Some out" "length args \<le> 2"
      "env ''WASM_DECRYPTION_KEY'' = Some encoded" "base64_decode C (as_bytes encoded) = Some kb"
      "length kb = 32" "random = Some nonce" "unbound_key C kb = Some k" "read inp = Some m"
      "aead_seal C k nonce MAGIC m = Some c" "envelope = MAGIC @ nonce @ c"
    unfolding encrypt_artifact_def by (auto simp: result_simps)
  then show ?thesis
    by (cases args; cases "tl args") auto
qed

lemma unat_of_nat_le: "unat (of_nat n :: 'a::len word) \<le> n"
  by (simp add: unsigned_of_nat)

text \<open>C19: an artifact packaged from a non-empty module with a fresh 12-byte nonce, served in any
  split into body chunks, is loaded by startup as exactly that module with its hash when the secrets hold the
  same key and the module respects the limit. The response may leave its length undeclared or declare any
  length of at most the limit and the 36 bytes of the envelope; the true length is such a length. A larger
  declared length is refused, whatever the body is.\<close>

theorem packaged_artifact_loads:
  assumes "aead_laws C"
    and "encrypt_artifact C args env (Some nonce) read = Inr (out, envelope)" and "length nonce = 12"
    and "read (hd args) = Some m" and "m \<noteq> []" and "length m \<le> unat mx" and "unat mx < 2 ^ 63"
    and "env ''WASM_DECRYPTION_KEY'' = Some encoded"
    and "base64_decode C (as_bytes encoded) = Some (secret_key secrets)"
    and "http_build H pull_client"
    and "header_valid H (''Bearer '' @ secret_api_token secrets)"
    and "http_get H [the_request secrets] =
           Some \<lparr>http_error_status = False, http_content_length = declared, http_chunks = map Inr cs\<rparr>"
    and "concat cs = envelope"
  shows "fst (pull_and_decrypt C H secrets mx) =
           (if \<exists>l. declared = Some l \<and> unat mx + 36 < unat l then Inl ''encrypted artifact exceeds policy''
            else Inr \<lparr>artifact_module = m, artifact_sha256_hex = hex_encode C (sha256 C m)\<rparr>) \<and>
         (declared = Some (of_nat (length envelope)) \<longrightarrow>
            fst (pull_and_decrypt C H secrets mx) =
              Inr \<lparr>artifact_module = m, artifact_sha256_hex = hex_encode C (sha256 C m)\<rparr>)"
proof -
  from encrypt_artifact_envelope [OF assms(2)] assms(4,8,9) obtain k c
    where k: "unbound_key C (secret_key secrets) = Some k"
      and c: "aead_seal C k nonce MAGIC m = Some c" and e: "envelope = MAGIC @ nonce @ c"
    by auto
  have len: "length envelope = length m + 36"
    using aead_lawsD(3) [OF assms(1) c] assms(3) by (simp add: e)
  have add: "checked_add mx 36 = Some (mx + 36)"
    using assms(7) by (simp add: checked_add_Some)
  from unat_checked_add [OF this] have mx: "unat (mx + 36) = unat mx + 36" by simp
  have request: "pull_request H secrets mx = Inr (mx + 36, the_request secrets)"
    using assms(7,10,11) by (simp add: pull_request_eq)
  have body: "read_body (mx + 36) [] (map Inr cs) = Inr envelope"
    using read_body_eq [of "[]" cs "mx + 36"] assms(6,7,13) by (simp add: len mx)
  have guard: "(case declared of None \<Rightarrow> False | Some l \<Rightarrow> l > mx + 36) \<longleftrightarrow>
      (\<exists>l. declared = Some l \<and> unat mx + 36 < unat l)"
    by (simp add: word_less_nat_alt mx split: option.splits)
  have "decrypt C envelope (secret_key secrets) (unat mx) =
      Inr \<lparr>artifact_module = m, artifact_sha256_hex = hex_encode C (sha256 C m)\<rparr>"
    using decrypt_envelope [OF assms(1,3) k c] assms(5,6) by (simp add: e)
  with body assms(12) have "fst (pull_and_decrypt C H secrets mx) =
      (if \<exists>l. declared = Some l \<and> unat mx + 36 < unat l then Inl ''encrypted artifact exceeds policy''
       else Inr \<lparr>artifact_module = m, artifact_sha256_hex = hex_encode C (sha256 C m)\<rparr>)"
    by (simp add: pull_and_decrypt_def request receive_artifact_def http_send_def guard ensure_def)
  moreover have "unat (of_nat (length envelope) :: u64) \<le> unat mx + 36"
    by (rule order_trans [OF unat_of_nat_le]) (use assms(6) len in simp)
  ultimately show ?thesis by auto
qed

text \<open>C20: the token leaves the process in at most one request. Whatever the server answers and whatever
  becomes of the artifact, the requests sent by the pull are none, when the size limit overflows, the
  client cannot be built or the token is not a header value, and otherwise exactly one: a GET of the secret
  URL by a client restricted to HTTPS, without redirects and without a proxy, with time limits of five and
  twenty seconds, and with the token in a header that is marked sensitive.\<close>

theorem pull_makes_one_request:
  "snd (pull_and_decrypt C H secrets mx) =
     (let client = \<lparr>https_only = True, follow_redirects = False, connect_timeout_secs = 5,
                    timeout_secs = 20, use_proxy = False\<rparr>
      in if unat mx + 36 < 2 ^ 64 \<and> http_build H client \<and> header_valid H (''Bearer '' @ secret_api_token secrets)
         then [\<lparr>req_client = client, req_url = secret_url secrets,
                req_authorization = \<lparr>header_text = ''Bearer '' @ secret_api_token secrets, header_sensitive = True\<rparr>\<rparr>]
         else [])"
  by (simp add: pull_and_decrypt_def pull_request_eq http_send_def the_request_def pull_client_def Let_def)

section \<open>Witnesses\<close>

text \<open>A cipher that satisfies the laws: the plaintext followed by a checksum over key, nonce,
  associated data and plaintext, repeated to the length of a tag.\<close>

definition checksum_tag :: "bytes \<Rightarrow> bytes \<Rightarrow> bytes \<Rightarrow> bytes \<Rightarrow> bytes" where
  "checksum_tag k n a m = replicate 16 (sum_list (k @ n @ a @ m))"

definition checksum_crypto :: "bytes crypto" where
  "checksum_crypto =
     \<lparr>base64_decode = Some,
      unbound_key = (\<lambda>kb. if length kb = 32 then Some kb else None),
      try_nonce = (\<lambda>n. if length n = 12 then Some n else None),
      aead_seal = (\<lambda>k n a m. Some (m @ checksum_tag k n a m)),
      aead_open = (\<lambda>k n a c.
         let m = take (length c - 16) c in
         if 16 \<le> length c \<and> drop (length c - 16) c = checksum_tag k n a m then Some m else None),
      sha256 = (\<lambda>m. [sum_list m]),
      hex_encode = (\<lambda>bs. map (\<lambda>b. char_of (unat b)) bs)\<rparr>"

lemma checksum_crypto_laws: "aead_laws checksum_crypto"
proof -
  have tag: "length (checksum_tag k n a m) = 16" for k n a m by (simp add: checksum_tag_def)
  show ?thesis
    unfolding aead_laws_def checksum_crypto_def
    by (auto simp: tag Let_def split: if_splits) (metis append_take_drop_id)
qed

definition sample_key :: string where "sample_key = replicate 32 CHR ''k''"

definition sample_environment :: environ where
  "sample_environment = [''WASM_PULL_URL'' \<mapsto> ''u'', ''WASM_DECRYPTION_KEY'' \<mapsto> sample_key,
     ''WASM_PULL_API_TOKEN'' \<mapsto> ''t'', ''PORT'' \<mapsto> ''8080'']"

theorem take_from_environment_removes_secrets_witness:
  "snd (take_from_environment checksum_crypto (\<lambda>_. None) sample_environment) ''WASM_PULL_API_TOKEN'' = None
   \<and> snd (take_from_environment checksum_crypto (\<lambda>_. None) sample_environment) ''PORT'' = Some ''8080''"
  using take_from_environment_removes_secrets [of sample_environment checksum_crypto "\<lambda>_. None"]
  by (simp add: sample_environment_def)

definition sample_nonce :: bytes where "sample_nonce = replicate 12 7"

definition sample_envelope :: bytes where
  "sample_envelope = MAGIC @ sample_nonce @ [1, 2] @
     checksum_tag (as_bytes sample_key) sample_nonce MAGIC [1, 2]"

lemma sample_decrypt:
  "decrypt checksum_crypto sample_envelope (as_bytes sample_key) 16 =
     Inr \<lparr>artifact_module = [1, 2], artifact_sha256_hex = hex_encode checksum_crypto [3]\<rparr>"
  using decrypt_envelope [OF checksum_crypto_laws, of sample_nonce "as_bytes sample_key"
      "as_bytes sample_key" "[1, 2]"
      "[1, 2] @ checksum_tag (as_bytes sample_key) sample_nonce MAGIC [1, 2]" 16]
  by (simp add: sample_envelope_def sample_nonce_def sample_key_def checksum_crypto_def)

theorem decrypt_authentic_witness:
  "\<exists>k nonce c. unbound_key checksum_crypto (as_bytes sample_key) = Some k \<and> length nonce = 12 \<and>
     aead_seal checksum_crypto k nonce MAGIC [1, 2] = Some c \<and> sample_envelope = MAGIC @ nonce @ c"
  using decrypt_authentic [OF checksum_crypto_laws sample_decrypt] by auto

definition sample_secrets :: startup_secrets where
  "sample_secrets =
     \<lparr>secret_url = ''u'', secret_key = as_bytes sample_key, secret_api_token = ''t''\<rparr>"

definition sample_http :: "bytes \<Rightarrow> http_api" where
  "sample_http body =
     \<lparr>http_build = (\<lambda>_. True), header_valid = (\<lambda>_. True),
      http_get = (\<lambda>sent. if req_url (last sent) = ''u''
         then Some \<lparr>http_error_status = False, http_content_length = Some (of_nat (length body)),
                    http_chunks = map Inr [take 5 body, drop 5 body]\<rparr>
         else None)\<rparr>"

lemma sample_packaging:
  "encrypt_artifact checksum_crypto [''in'', ''out''] sample_environment (Some sample_nonce)
     (\<lambda>_. Some [1, 2]) = Inr (''out'', sample_envelope)"
  by (simp add: encrypt_artifact_def sample_environment_def checksum_crypto_def sample_key_def
      sample_envelope_def)

lemma length_sample_envelope: "length sample_envelope = 38"
  by (simp add: sample_envelope_def sample_nonce_def checksum_tag_def)

lemma sample_pull:
  "fst (pull_and_decrypt checksum_crypto (sample_http sample_envelope) sample_secrets 1048576) =
     Inr \<lparr>artifact_module = [1, 2], artifact_sha256_hex = hex_encode checksum_crypto [3]\<rparr>"
proof -
  have "decrypt checksum_crypto sample_envelope (as_bytes sample_key) 1048576 =
     Inr \<lparr>artifact_module = [1, 2], artifact_sha256_hex = hex_encode checksum_crypto [3]\<rparr>"
    using decrypt_envelope [OF checksum_crypto_laws, of sample_nonce "as_bytes sample_key"
        "as_bytes sample_key" "[1, 2]"
        "[1, 2] @ checksum_tag (as_bytes sample_key) sample_nonce MAGIC [1, 2]" 1048576]
    by (simp add: sample_envelope_def sample_nonce_def sample_key_def checksum_crypto_def)
  then show ?thesis
    by (simp add: pull_and_decrypt_def pull_request_eq receive_artifact_def http_send_def the_request_def
        sample_http_def sample_secrets_def length_sample_envelope ensure_def saturating_add_def)
qed

theorem packaged_artifact_loads_witness:
  "fst (pull_and_decrypt checksum_crypto (sample_http sample_envelope) sample_secrets 1048576) =
     Inr \<lparr>artifact_module = [1, 2],
          artifact_sha256_hex = hex_encode checksum_crypto (sha256 checksum_crypto [1, 2])\<rparr>"
proof -
  have env: "sample_environment ''WASM_DECRYPTION_KEY'' = Some sample_key"
    by (simp add: sample_environment_def)
  have key: "base64_decode checksum_crypto (as_bytes sample_key) = Some (secret_key sample_secrets)"
    by (simp add: checksum_crypto_def sample_secrets_def)
  have answer: "http_get (sample_http sample_envelope) [the_request sample_secrets] =
      Some \<lparr>http_error_status = False, http_content_length = Some 38,
            http_chunks = map Inr [take 5 sample_envelope, drop 5 sample_envelope]\<rparr>"
    by (simp add: sample_http_def the_request_def sample_secrets_def length_sample_envelope)
  show ?thesis
    using packaged_artifact_loads [OF checksum_crypto_laws sample_packaging _ _ _ _ _ env key _ _ answer,
        of "[1, 2]" 1048576]
    by (simp add: sample_nonce_def sample_http_def)
qed

end
