(* ===== verification/Scheduler.thy ===== *)
theory Scheduler
  imports Admission Runner Artifact
begin

text \<open>
  The HTTP service of \<open>crates/scheduler/src/main.rs\<close>: start-up, routing, the run handler and the
  task it spawns. The service is a transition system. Each rule of \<open>sched_step\<close> is a stretch of the
  code between two points where another task may run: the handler up to its first \<open>await\<close>, the
  acquisition of a permit, the end of \<open>timeout_at\<close>, the end of \<open>sleep_until\<close> with the drop of the
  permit, the drop of the guard at the end of the task, the answer. Time passes in its own steps and
  callers may disconnect at any time. The semaphore may serve its waiters in any order, which
  includes the order of the queue that the runtime keeps.
\<close>

section \<open>Responses\<close>

definition NORMALIZED_BODY :: string where
  "NORMALIZED_BODY = ''{\"outcome\":\"complete\"}''"

record response =
  resp_status :: nat
  resp_headers :: "(string \<times> string) list"
  resp_body :: string

definition normalized_response :: response where
  "normalized_response =
     \<lparr>resp_status = 200, resp_headers = [(''content-type'', ''application/json'')],
      resp_body = NORMALIZED_BODY\<rparr>"

record health_response =
  health_status :: string
  wasm_sha256 :: string

record app_error =
  err_status :: nat
  err_message :: string

datatype reply = Complete_reply response | Error_reply app_error | Health_reply health_response

section \<open>State\<close>

record app_state =
  app_module :: bytes
  module_sha256 :: string
  slots :: nat
  pending :: usize
  app_policy :: policy

datatype caller = Connected | Disconnected | Answered

text \<open>A spawned task: waiting at the semaphore, inside \<open>timeout_at\<close> or \<open>sleep_until\<close> with its
  deadline, past the drop of the permit, past the drop of the guard.\<close>

datatype slot_phase = Waiting | Executing instant | Sleeping instant | Permit_dropped | Finished

datatype runner_end = Resolved "error + unit" | Elapsed

record run =
  phase :: slot_phase
  run_caller :: caller
  acquired :: "instant option"
  released :: "instant option"
  runner_result :: "runner_end option"

record scheduler =
  app :: app_state
  now :: instant
  runs :: "run list"
  answers :: "(instant \<times> nat option \<times> reply) list"

section \<open>Start-up\<close>

datatype invocation = Runner_mode | Healthcheck_mode | Validate_mode | Server_mode

definition main_mode :: "string list \<Rightarrow> invocation" where
  "main_mode args =
     (case (if 1 < length args then Some (args ! 1) else None) of
        Some a \<Rightarrow> if a = ''__runner'' then Runner_mode
                  else if a = ''__healthcheck'' then Healthcheck_mode
                  else if a = ''__validate_artifacts'' then Validate_mode
                  else Server_mode
      | None \<Rightarrow> Server_mode)"

definition initial_app :: "loaded_artifact \<Rightarrow> policy \<Rightarrow> app_state" where
  "initial_app artifact pol =
     \<lparr>app_module = artifact_module artifact, module_sha256 = artifact_sha256_hex artifact,
      slots = unat (max_parallel_workers pol), pending = 0, app_policy = pol\<rparr>"

definition initial :: "app_state \<Rightarrow> scheduler" where
  "initial a = \<lparr>app = a, now = 0, runs = [], answers = []\<rparr>"

text \<open>\<open>bind\<close> is the listener of the runtime; the result is the state in which serving begins.\<close>

definition server_main ::
    "'k crypto \<Rightarrow> http_api \<Rightarrow> (string \<Rightarrow> bool) \<Rightarrow> environ \<Rightarrow> startup_secrets \<Rightarrow> error + scheduler" where
  "server_main C H listen env secrets =
     (let pol = production in
      try_bind (with_message ''load startup worker''
                  (fst (pull_and_decrypt C H secrets (max_module_bytes pol)))) (\<lambda>artifact.
      let state = initial_app artifact pol;
          port = (case env ''PORT'' of Some p \<Rightarrow> p | None \<Rightarrow> ''8080'')
      in try_bind (ensure (listen (''0.0.0.0:'' @ port)) ''bind HTTP listener'') (\<lambda>_.
         Inr (initial state))))"

definition main_server ::
    "'k crypto \<Rightarrow> http_api \<Rightarrow> (string \<Rightarrow> parsed_url option) \<Rightarrow> bool \<Rightarrow> (string \<Rightarrow> bool) \<Rightarrow> environ
     \<Rightarrow> (error + scheduler) \<times> environ" where
  "main_server C H url_parse runtime listen env =
     (case take_from_environment C url_parse env of
        (Inl e, env') \<Rightarrow> (Inl e, env')
      | (Inr secrets, env') \<Rightarrow>
          (try_bind (ensure runtime ''build scheduler runtime'') (\<lambda>_.
           server_main C H listen env' secrets), env'))"

section \<open>Routes and handlers\<close>

datatype http_method = GET | POST | Other_method

datatype route = Route_health | Route_run

definition app_routes :: "http_method \<Rightarrow> string \<Rightarrow> route option" where
  "app_routes m path =
     (if path = ''/health'' \<and> m = GET then Some Route_health
      else if path = ''/v1/run'' \<and> m = POST then Some Route_run
      else None)"

definition health :: "app_state \<Rightarrow> health_response" where
  "health a = \<lparr>health_status = ''ok'', wasm_sha256 = module_sha256 a\<rparr>"

definition queue_full :: app_error where
  "queue_full = \<lparr>err_status = 429, err_message = ''run queue capacity reached''\<rparr>"

definition fresh_run :: run where
  "fresh_run = \<lparr>phase = Waiting, run_caller = Connected, acquired = None, released = None,
     runner_result = None\<rparr>"

definition answer :: "nat option \<Rightarrow> reply \<Rightarrow> scheduler \<Rightarrow> scheduler" where
  "answer who r s = s\<lparr>answers := answers s @ [(now s, who, r)]\<rparr>"

text \<open>The handler up to \<open>slot.await\<close>: refused with an error, or a guard taken and a task spawned.\<close>

definition run_worker :: "scheduler \<Rightarrow> scheduler" where
  "run_worker s =
     (case admit_pending (max_pending_runs (app_policy (app s))) (pending (app s)) of
        (Inl _, p) \<Rightarrow> answer None (Error_reply queue_full) (s\<lparr>app := (app s)\<lparr>pending := p\<rparr>\<rparr>)
      | (Inr _, p) \<Rightarrow> s\<lparr>app := (app s)\<lparr>pending := p\<rparr>, runs := runs s @ [fresh_run]\<rparr>)"

definition update_run :: "nat \<Rightarrow> (run \<Rightarrow> run) \<Rightarrow> scheduler \<Rightarrow> scheduler" where
  "update_run i f s = s\<lparr>runs := (runs s)[i := f (runs s ! i)]\<rparr>"

text \<open>The task: the deadline is fixed when the permit is there.\<close>

definition begin_slot :: "nat \<Rightarrow> nat \<Rightarrow> scheduler \<Rightarrow> scheduler" where
  "begin_slot i permits s =
     update_run i (\<lambda>r. r\<lparr>phase := Executing (now s + execution_slot (app_policy (app s))),
                         acquired := Some (now s)\<rparr>)
       (s\<lparr>app := (app s)\<lparr>slots := permits\<rparr>\<rparr>)"

definition end_timeout :: "nat \<Rightarrow> runner_end \<Rightarrow> instant \<Rightarrow> scheduler \<Rightarrow> scheduler" where
  "end_timeout i e deadline s =
     update_run i (\<lambda>r. r\<lparr>phase := Sleeping deadline, runner_result := Some e\<rparr>) s"

definition end_slot :: "nat \<Rightarrow> scheduler \<Rightarrow> scheduler" where
  "end_slot i s =
     update_run i (\<lambda>r. r\<lparr>phase := Permit_dropped, released := Some (now s)\<rparr>)
       (s\<lparr>app := (app s)\<lparr>slots := drop_permit (slots (app s))\<rparr>\<rparr>)"

definition finish_task :: "nat \<Rightarrow> scheduler \<Rightarrow> scheduler" where
  "finish_task i s =
     update_run i (\<lambda>r. r\<lparr>phase := Finished\<rparr>)
       (s\<lparr>app := (app s)\<lparr>pending := pending_guard_drop (pending (app s))\<rparr>\<rparr>)"

definition respond :: "nat \<Rightarrow> scheduler \<Rightarrow> scheduler" where
  "respond i s =
     answer (Some i) (Complete_reply normalized_response)
       (update_run i (\<lambda>r. r\<lparr>run_caller := Answered\<rparr>) s)"

section \<open>The transition system\<close>

datatype event =
    Post | Get_health | Acquire nat | Complete nat | Expire nat | Wake nat | Guard_drop nat
  | Respond nat | Disconnect nat | Tick duration

text \<open>What the spawned processes do: for the number of the run and the time it starts, after which
  time \<open>execute_process\<close> resolves and with what result, or that it never does.\<close>

type_synonym guest = "nat \<Rightarrow> instant \<Rightarrow> (duration \<times> (error + unit)) option"

definition guest_ready :: "guest \<Rightarrow> nat \<Rightarrow> instant \<Rightarrow> instant \<Rightarrow> (error + unit) option" where
  "guest_ready g i start t =
     (case g i start of
        Some (delay, r) \<Rightarrow> if start + delay \<le> t then Some r else None
      | None \<Rightarrow> None)"

inductive sched_step :: "guest \<Rightarrow> scheduler \<Rightarrow> event \<Rightarrow> scheduler \<Rightarrow> bool" for g where
  post: "sched_step g s Post (run_worker s)"
| get_health: "sched_step g s Get_health (answer None (Health_reply (health (app s))) s)"
| acquire: "i < length (runs s) \<Longrightarrow> phase (runs s ! i) = Waiting \<Longrightarrow>
    try_acquire (slots (app s)) = Some permits \<Longrightarrow>
    sched_step g s (Acquire i) (begin_slot i permits s)"
| complete: "i < length (runs s) \<Longrightarrow> phase (runs s ! i) = Executing d \<Longrightarrow>
    acquired (runs s ! i) = Some a \<Longrightarrow> guest_ready g i a (now s) = Some r \<Longrightarrow>
    sched_step g s (Complete i) (end_timeout i (Resolved r) d s)"
| expire: "i < length (runs s) \<Longrightarrow> phase (runs s ! i) = Executing d \<Longrightarrow>
    acquired (runs s ! i) = Some a \<Longrightarrow> guest_ready g i a (now s) = None \<Longrightarrow> d \<le> now s \<Longrightarrow>
    sched_step g s (Expire i) (end_timeout i Elapsed d s)"
| wake: "i < length (runs s) \<Longrightarrow> phase (runs s ! i) = Sleeping d \<Longrightarrow> d \<le> now s \<Longrightarrow>
    sched_step g s (Wake i) (end_slot i s)"
| guard_drop: "i < length (runs s) \<Longrightarrow> phase (runs s ! i) = Permit_dropped \<Longrightarrow>
    sched_step g s (Guard_drop i) (finish_task i s)"
| respond: "i < length (runs s) \<Longrightarrow> phase (runs s ! i) = Finished \<Longrightarrow>
    run_caller (runs s ! i) = Connected \<Longrightarrow> sched_step g s (Respond i) (respond i s)"
| disconnect: "i < length (runs s) \<Longrightarrow> run_caller (runs s ! i) = Connected \<Longrightarrow>
    sched_step g s (Disconnect i) (update_run i (\<lambda>r. r\<lparr>run_caller := Disconnected\<rparr>) s)"
| tick: "sched_step g s (Tick dt) (s\<lparr>now := now s + dt\<rparr>)"

inductive_cases sched_stepE: "sched_step g s e t"

lemmas handler_defs =
  update_run_def begin_slot_def end_timeout_def end_slot_def finish_task_def respond_def answer_def

section \<open>Invariant\<close>

definition unfinished :: "run \<Rightarrow> bool" where
  "unfinished r = (phase r \<noteq> Finished)"

fun holds_permit :: "slot_phase \<Rightarrow> bool" where
  "holds_permit (Executing _) = True"
| "holds_permit (Sleeping _) = True"
| "holds_permit _ = False"

definition run_ok :: "duration \<Rightarrow> instant \<Rightarrow> run \<Rightarrow> bool" where
  "run_ok slot t r =
     ((case phase r of
         Waiting \<Rightarrow> acquired r = None \<and> released r = None \<and> runner_result r = None
       | Executing d \<Rightarrow> (\<exists>a. acquired r = Some a \<and> d = a + slot \<and> a \<le> t) \<and>
           released r = None \<and> runner_result r = None
       | Sleeping d \<Rightarrow> (\<exists>a. acquired r = Some a \<and> d = a + slot \<and> a \<le> t) \<and>
           released r = None \<and> runner_result r \<noteq> None
       | _ \<Rightarrow> (\<exists>a b. acquired r = Some a \<and> released r = Some b \<and> a + slot \<le> b \<and> b \<le> t) \<and>
           runner_result r \<noteq> None) \<and>
      (run_caller r = Answered \<longrightarrow> phase r = Finished))"

definition answer_ok :: "duration \<Rightarrow> run list \<Rightarrow> instant \<times> nat option \<times> reply \<Rightarrow> bool" where
  "answer_ok slot rs ans =
     (case ans of
        (t, Some i, rep) \<Rightarrow> rep = Complete_reply normalized_response \<and> i < length rs \<and>
          phase (rs ! i) = Finished \<and>
          (\<exists>a b. acquired (rs ! i) = Some a \<and> released (rs ! i) = Some b \<and> a + slot \<le> b \<and> b \<le> t)
      | (t, None, rep) \<Rightarrow> rep = Error_reply queue_full \<or> (\<exists>h. rep = Health_reply h))"

lemma production_fields [simp]:
  "max_parallel_workers production = 8" "max_pending_runs production = 128"
  "execution_slot production = 1000000000" "max_module_bytes production = 1048576"
  by (simp_all add: production_def)

interpretation run_gate:
  bounded_admission "max_pending_runs pol" "admit_pending (max_pending_runs pol)"
    pending_guard_drop unfinished
  for pol :: policy
  by unfold_locales (use admit_pending_laws pending_guard_drop_law in auto)

interpretation run_pool:
  permit_pool "unat (max_parallel_workers pol)" try_acquire drop_permit "\<lambda>r. holds_permit (phase r)"
  for pol :: policy
  by unfold_locales (auto simp: drop_permit_def dest: try_acquire_law)

definition sched_inv :: "scheduler \<Rightarrow> bool" where
  "sched_inv s =
     (let pol = app_policy (app s) in
      unat (pending (app s)) = length (filter unfinished (runs s)) \<and>
      pending (app s) \<le> max_pending_runs pol \<and>
      slots (app s) + length (filter (\<lambda>r. holds_permit (phase r)) (runs s))
        = unat (max_parallel_workers pol) \<and>
      list_all (run_ok (execution_slot pol) (now s)) (runs s) \<and>
      list_all (answer_ok (execution_slot pol) (runs s)) (answers s))"

lemma sched_invI:
  assumes "pol = app_policy (app s)"
    and "run_gate.counts pol (pending (app s)) (runs s)"
    and "run_pool.balanced pol (slots (app s)) (runs s)"
    and "list_all (run_ok (execution_slot pol) (now s)) (runs s)"
    and "list_all (answer_ok (execution_slot pol) (runs s)) (answers s)"
  shows "sched_inv s"
  using assms by (auto simp: sched_inv_def run_gate.counts_def run_pool.balanced_def Let_def)

lemma sched_invD:
  assumes "sched_inv s"
  shows "run_gate.counts (app_policy (app s)) (pending (app s)) (runs s)"
    and "run_pool.balanced (app_policy (app s)) (slots (app s)) (runs s)"
    and "list_all (run_ok (execution_slot (app_policy (app s))) (now s)) (runs s)"
    and "list_all (answer_ok (execution_slot (app_policy (app s))) (runs s)) (answers s)"
  using assms by (auto simp: sched_inv_def run_gate.counts_def run_pool.balanced_def Let_def)

lemma sched_inv_initial: "sched_inv (initial (initial_app artifact pol))"
  by (rule sched_invI)
    (auto simp: initial_def initial_app_def run_gate.counts_def run_pool.balanced_def)

lemma run_ok_later: "run_ok slot t r \<Longrightarrow> t \<le> t' \<Longrightarrow> run_ok slot t' r"
  by (force simp: run_ok_def split: slot_phase.splits)

lemma run_ok_disconnect: "run_ok slot t r \<Longrightarrow> run_ok slot t (r\<lparr>run_caller := Disconnected\<rparr>)"
  by (cases "phase r") (auto simp: run_ok_def)

lemma list_all_update: "list_all P xs \<Longrightarrow> P x \<Longrightarrow> list_all P (xs[i := x])"
  by (auto simp: list_all_iff dest!: set_update_subset_insert [THEN subsetD])

text \<open>An answered run keeps its times: only runs that are not finished, or their callers, change.\<close>

lemma answer_ok_update:
  assumes "answer_ok slot rs ans" and "i < length rs"
    and "phase (rs ! i) = Finished \<Longrightarrow>
           phase r = Finished \<and> acquired r = acquired (rs ! i) \<and> released r = released (rs ! i)"
  shows "answer_ok slot (rs[i := r]) ans"
  using assms by (auto simp: answer_ok_def nth_list_update split: prod.splits option.splits)

lemma answer_ok_append: "answer_ok slot rs ans \<Longrightarrow> answer_ok slot (rs @ [r]) ans"
  by (auto simp: answer_ok_def nth_append split: prod.splits option.splits)

lemma list_all_answer_ok_update:
  "list_all (answer_ok slot rs) as \<Longrightarrow> i < length rs \<Longrightarrow>
   (phase (rs ! i) = Finished \<Longrightarrow>
      phase r = Finished \<and> acquired r = acquired (rs ! i) \<and> released r = released (rs ! i)) \<Longrightarrow>
   list_all (answer_ok slot (rs[i := r])) as"
  by (auto simp: list_all_iff intro: answer_ok_update)

text \<open>A step that changes the run \<open>i\<close> and the two counters keeps the invariant when the counters
  follow the run.\<close>

lemma sched_inv_update:
  assumes inv: "sched_inv s" and i: "i < length (runs s)"
    and t: "app_policy (app t) = app_policy (app s)" "now t = now s" "runs t = (runs s)[i := r]"
      "answers t = answers s"
    and cnt: "run_gate.counts (app_policy (app s)) (pending (app t)) ((runs s)[i := r])"
    and bal: "run_pool.balanced (app_policy (app s)) (slots (app t)) ((runs s)[i := r])"
    and ok: "run_ok (execution_slot (app_policy (app s))) (now s) r"
    and fin: "phase (runs s ! i) = Finished \<Longrightarrow> phase r = Finished \<and>
      acquired r = acquired (runs s ! i) \<and> released r = released (runs s ! i)"
  shows "sched_inv t"
  by (rule sched_invI [OF refl])
    (use assms sched_invD [OF inv] in \<open>auto intro: list_all_update list_all_answer_ok_update\<close>)

lemma sched_inv_keep:
  assumes "sched_inv s" and "i < length (runs s)"
    and "unfinished (f (runs s ! i)) = unfinished (runs s ! i)"
    and "holds_permit (phase (f (runs s ! i))) = holds_permit (phase (runs s ! i))"
    and "run_ok (execution_slot (app_policy (app s))) (now s) (f (runs s ! i))"
    and "phase (runs s ! i) = Finished \<Longrightarrow> acquired (f (runs s ! i)) = acquired (runs s ! i) \<and>
      released (f (runs s ! i)) = released (runs s ! i)"
  shows "sched_inv (update_run i f s)"
  using assms sched_invD(1,2) [OF assms(1)]
  by (intro sched_inv_update [OF assms(1,2)])
    (auto simp: update_run_def unfinished_def intro!: run_pool.balanced_same run_gate.counts_same)

lemma run_at:
  "sched_inv s \<Longrightarrow> i < length (runs s) \<Longrightarrow>
   run_ok (execution_slot (app_policy (app s))) (now s) (runs s ! i)"
  by (drule sched_invD(3)) (simp add: list_all_length)

lemma sched_inv_run_worker:
  assumes "sched_inv s"
  shows "sched_inv (run_worker s)"
proof -
  let ?pol = "app_policy (app s)"
  note inv = sched_invD [OF assms]
  obtain res p where a: "admit_pending (max_pending_runs ?pol) (pending (app s)) = (res, p)"
    by fastforce
  show ?thesis
  proof (cases res)
    case (Inl n)
    then have "p = pending (app s)" using a
      by (auto simp: admit_pending_def fetch_update_def split: if_splits)
    with inv show ?thesis
      by (intro sched_invI [OF refl]) (simp_all add: run_worker_def a Inl answer_def answer_ok_def)
  next
    case (Inr n)
    have "run_gate.counts ?pol p (runs s @ [fresh_run])"
      using run_gate.counts_admit [OF inv(1) a [unfolded Inr]] by (simp add: unfinished_def fresh_run_def)
    moreover have "run_pool.balanced ?pol (slots (app s)) (runs s @ [fresh_run])"
      using inv(2) by (rule run_pool.balanced_append) (simp add: fresh_run_def)
    moreover have "run_ok (execution_slot ?pol) (now s) fresh_run"
      by (simp add: run_ok_def fresh_run_def)
    moreover have "list_all (answer_ok (execution_slot ?pol) (runs s @ [fresh_run])) (answers s)"
      using inv(4) by (auto simp: list_all_iff intro: answer_ok_append)
    ultimately show ?thesis
      using inv(3) by (intro sched_invI [OF refl]) (simp_all add: run_worker_def a Inr)
  qed
qed

lemma sched_inv_answer:
  "sched_inv s \<Longrightarrow> answer_ok (execution_slot (app_policy (app s))) (runs s) (now s, who, rep) \<Longrightarrow>
   sched_inv (answer who rep s)"
  by (intro sched_invI [OF refl]) (simp_all add: sched_invD answer_def)

lemma sched_inv_step:
  assumes "sched_step g s e t" and inv: "sched_inv s"
  shows "sched_inv t"
  using assms(1)
proof cases
  case post
  with inv show ?thesis by (simp add: sched_inv_run_worker)
next
  case get_health
  with inv show ?thesis by (simp add: sched_inv_answer answer_ok_def)
next
  case (acquire i permits)
  have "run_pool.balanced (app_policy (app s)) permits
          ((runs s)[i := (runs s ! i)\<lparr>phase := Executing d, acquired := a\<rparr>])" for d a
    using run_pool.balanced_acquire [OF sched_invD(2) [OF inv]] acquire by simp
  moreover have "run_gate.counts (app_policy (app s)) (pending (app s))
          ((runs s)[i := (runs s ! i)\<lparr>phase := Executing d, acquired := a\<rparr>])" for d a
    using run_gate.counts_same [OF sched_invD(1) [OF inv]] acquire by (simp add: unfinished_def)
  ultimately show ?thesis
    using run_at [OF inv acquire(3)] acquire
    by (intro sched_inv_update [OF inv acquire(3)]) (auto simp: handler_defs run_ok_def)
next
  case (complete i d a r)
  with run_at [OF inv complete(3)] show ?thesis
    by (auto simp: end_timeout_def run_ok_def unfinished_def intro!: sched_inv_keep [OF inv])
next
  case (expire i d a)
  with run_at [OF inv expire(3)] show ?thesis
    by (auto simp: end_timeout_def run_ok_def unfinished_def intro!: sched_inv_keep [OF inv])
next
  case (wake i d)
  show ?thesis
    using run_at [OF inv wake(3)] wake sched_invD(1,2) [OF inv]
    by (intro sched_inv_update [OF inv wake(3)])
      (auto simp: handler_defs run_ok_def unfinished_def
        intro!: run_pool.balanced_release run_gate.counts_same)
next
  case (guard_drop i)
  show ?thesis
    using run_at [OF inv guard_drop(3)] guard_drop sched_invD(1,2) [OF inv]
    by (intro sched_inv_update [OF inv guard_drop(3)])
      (auto simp: handler_defs run_ok_def unfinished_def
        intro!: run_pool.balanced_same run_gate.counts_leave)
next
  case (respond i)
  let ?u = "update_run i (\<lambda>r. r\<lparr>run_caller := Answered\<rparr>) s"
  have "sched_inv ?u"
    using run_at [OF inv respond(3)] respond
    by (intro sched_inv_keep [OF inv]) (auto simp: run_ok_def unfinished_def)
  then have "sched_inv (answer (Some i) (Complete_reply normalized_response) ?u)"
    by (rule sched_inv_answer)
      (use respond run_at [OF inv respond(3)] in \<open>auto simp: update_run_def answer_ok_def run_ok_def\<close>)
  with respond show ?thesis by (simp add: respond_def)
next
  case (disconnect i)
  with run_at [OF inv disconnect(3)] show ?thesis
    by (auto simp: unfinished_def intro!: sched_inv_keep [OF inv] run_ok_disconnect)
next
  case (tick dt)
  with sched_invD [OF inv] show ?thesis
    by (intro sched_invI [OF refl]) (auto simp: list_all_iff intro: run_ok_later)
qed

interpretation sched: inductive_invariant
  "\<lambda>s. \<exists>artifact pol. s = initial (initial_app artifact pol)" "sched_step g" sched_inv
  for g
  by unfold_locales (auto intro: sched_inv_initial sched_inv_step)

section \<open>What every run guarantees\<close>

lemma step_policy: "sched_step g s e t \<Longrightarrow> app_policy (app t) = app_policy (app s)"
  by (erule sched_stepE) (auto simp: handler_defs run_worker_def split: prod.splits sum.splits)

lemma sched_policy_constant:
  "run_of (sched_step g) (initial (initial_app artifact pol)) es s \<Longrightarrow> app_policy (app s) = pol"
  by (induction "initial (initial_app artifact pol)" es s rule: run_of.induct)
    (auto simp: initial_def initial_app_def dest: step_policy)

lemma reachable_sched_inv:
  "run_of (sched_step g) (initial (initial_app artifact pol)) es s \<Longrightarrow> sched_inv s"
  by (rule sched.reachable_inv) blast+

lemma run_ok_times:
  "run_ok slot t r \<Longrightarrow>
   (released r \<noteq> None \<longrightarrow> the (acquired r) + slot \<le> the (released r)) \<and>
   (\<forall>d. phase r = Executing d \<or> phase r = Sleeping d \<longrightarrow>
      d = the (acquired r) + slot \<and> released r = None)"
  by (auto simp: run_ok_def split: slot_phase.splits)

lemma answer_ok_times:
  "answer_ok slot rs (t, who, rep) \<Longrightarrow>
   (case who of
      Some i \<Rightarrow> i < length rs \<and> rep = Complete_reply normalized_response \<and>
        the (acquired (rs ! i)) + slot \<le> the (released (rs ! i)) \<and> the (released (rs ! i)) \<le> t
    | None \<Rightarrow> rep = Error_reply queue_full \<or> (\<exists>h. rep = Health_reply h))"
  by (auto simp: answer_ok_def split: option.splits)

text \<open>C3: in every state that the service can reach, whatever the guests do and however requests,
  disconnections and the passing of time interleave: the counter of admitted runs is exactly the
  number of unfinished tasks and within the policy's bound, the free permits and the permits that
  tasks hold add up to the policy's number of workers, and the assertion of the handler (the old
  count is below the bound whenever a request is admitted) holds.\<close>

theorem scheduler_resources_bounded:
  assumes "run_of (sched_step g) (initial (initial_app artifact pol)) es s"
  shows "app_policy (app s) = pol \<and>
         unat (pending (app s)) = length (filter unfinished (runs s)) \<and>
         length (filter unfinished (runs s)) \<le> unat (max_pending_runs pol) \<and>
         slots (app s) + length (filter (\<lambda>r. holds_permit (phase r)) (runs s))
           = unat (max_parallel_workers pol) \<and>
         (case admit_pending (max_pending_runs pol) (pending (app s)) of
            (Inr old, _) \<Rightarrow> old < max_pending_runs pol | _ \<Rightarrow> True)"
  using reachable_sched_inv [OF assms] sched_policy_constant [OF assms]
  by (auto simp: sched_inv_def Let_def word_le_nat_alt admit_pending_def fetch_update_def)

text \<open>C2: no outcome shortens or lengthens a slot. In every reachable state, a task that has given
  its permit back has held it for at least the execution slot, and a task that holds one will hold
  it until exactly the slot after its start; the only answers given to callers are the constant
  response, after the slot of that caller's own task has ended, the refusal and the health report.\<close>

theorem scheduler_slots_are_fixed:
  assumes "run_of (sched_step g) (initial (initial_app artifact pol)) es s"
  shows "(\<forall>r \<in> set (runs s).
            (released r \<noteq> None \<longrightarrow> the (acquired r) + execution_slot pol \<le> the (released r)) \<and>
            (\<forall>d. phase r = Executing d \<or> phase r = Sleeping d \<longrightarrow>
                 d = the (acquired r) + execution_slot pol \<and> released r = None)) \<and>
         (\<forall>(t, who, rep) \<in> set (answers s).
            (case who of
               Some i \<Rightarrow> i < length (runs s) \<and> rep = Complete_reply normalized_response \<and>
                 the (acquired (runs s ! i)) + execution_slot pol \<le> the (released (runs s ! i)) \<and>
                 the (released (runs s ! i)) \<le> t
             | None \<Rightarrow> rep = Error_reply queue_full \<or> (\<exists>h. rep = Health_reply h)))"
proof -
  have p: "app_policy (app s) = pol" using assms by (rule sched_policy_constant)
  have "\<forall>r \<in> set (runs s). run_ok (execution_slot pol) (now s) r"
    and "\<forall>ans \<in> set (answers s). answer_ok (execution_slot pol) (runs s) ans"
    using sched_invD(3,4) [OF reachable_sched_inv [OF assms]] p by (simp_all add: list_all_iff)
  then show ?thesis
    using run_ok_times [of "execution_slot pol" "now s"] answer_ok_times [of "execution_slot pol" "runs s"]
    by (intro conjI ballI) blast+
qed

section \<open>The normalised service\<close>

text \<open>The contract of the service, without guests, without the counter and without the semaphore: a
  request is refused when the bound on unfinished runs is reached, a run holds one of the workers
  until a deadline that only its start determines, and the answer is a constant.\<close>

datatype spec_phase = Queued | Held instant | Closing | Done

record spec_run =
  spec_phase :: spec_phase
  spec_caller :: caller
  spec_acquired :: "instant option"
  spec_released :: "instant option"

record spec =
  spec_policy :: policy
  spec_hash :: string
  spec_now :: instant
  spec_runs :: "spec_run list"
  spec_answers :: "(instant \<times> nat option \<times> reply) list"

fun is_held :: "spec_phase \<Rightarrow> bool" where
  "is_held (Held _) = True"
| "is_held _ = False"

definition spec_open :: "spec \<Rightarrow> nat" where
  "spec_open s = length (filter (\<lambda>r. spec_phase r \<noteq> Done) (spec_runs s))"

definition spec_busy :: "spec \<Rightarrow> nat" where
  "spec_busy s = length (filter (\<lambda>r. is_held (spec_phase r)) (spec_runs s))"

definition spec_answer :: "nat option \<Rightarrow> reply \<Rightarrow> spec \<Rightarrow> spec" where
  "spec_answer who rep s = s\<lparr>spec_answers := spec_answers s @ [(spec_now s, who, rep)]\<rparr>"

definition spec_update :: "nat \<Rightarrow> (spec_run \<Rightarrow> spec_run) \<Rightarrow> spec \<Rightarrow> spec" where
  "spec_update i f s = s\<lparr>spec_runs := (spec_runs s)[i := f (spec_runs s ! i)]\<rparr>"

definition spec_fresh :: spec_run where
  "spec_fresh = \<lparr>spec_phase = Queued, spec_caller = Connected, spec_acquired = None,
     spec_released = None\<rparr>"

inductive spec_step :: "spec \<Rightarrow> event \<Rightarrow> spec \<Rightarrow> bool" where
  spec_admit: "spec_open s < unat (max_pending_runs (spec_policy s)) \<Longrightarrow>
    spec_step s Post (s\<lparr>spec_runs := spec_runs s @ [spec_fresh]\<rparr>)"
| spec_refuse: "\<not> spec_open s < unat (max_pending_runs (spec_policy s)) \<Longrightarrow>
    spec_step s Post (spec_answer None (Error_reply queue_full) s)"
| spec_health: "spec_step s Get_health
    (spec_answer None (Health_reply \<lparr>health_status = ''ok'', wasm_sha256 = spec_hash s\<rparr>) s)"
| spec_acquire: "i < length (spec_runs s) \<Longrightarrow> spec_phase (spec_runs s ! i) = Queued \<Longrightarrow>
    spec_busy s < unat (max_parallel_workers (spec_policy s)) \<Longrightarrow>
    spec_step s (Acquire i) (spec_update i
      (\<lambda>r. r\<lparr>spec_phase := Held (spec_now s + execution_slot (spec_policy s)),
            spec_acquired := Some (spec_now s)\<rparr>) s)"
| spec_wake: "i < length (spec_runs s) \<Longrightarrow> spec_phase (spec_runs s ! i) = Held d \<Longrightarrow>
    d \<le> spec_now s \<Longrightarrow>
    spec_step s (Wake i)
      (spec_update i (\<lambda>r. r\<lparr>spec_phase := Closing, spec_released := Some (spec_now s)\<rparr>) s)"
| spec_finish: "i < length (spec_runs s) \<Longrightarrow> spec_phase (spec_runs s ! i) = Closing \<Longrightarrow>
    spec_step s (Guard_drop i) (spec_update i (\<lambda>r. r\<lparr>spec_phase := Done\<rparr>) s)"
| spec_respond: "i < length (spec_runs s) \<Longrightarrow> spec_phase (spec_runs s ! i) = Done \<Longrightarrow>
    spec_caller (spec_runs s ! i) = Connected \<Longrightarrow>
    spec_step s (Respond i) (spec_answer (Some i) (Complete_reply normalized_response)
      (spec_update i (\<lambda>r. r\<lparr>spec_caller := Answered\<rparr>) s))"
| spec_disconnect: "i < length (spec_runs s) \<Longrightarrow> spec_caller (spec_runs s ! i) = Connected \<Longrightarrow>
    spec_step s (Disconnect i) (spec_update i (\<lambda>r. r\<lparr>spec_caller := Disconnected\<rparr>) s)"
| spec_tick: "spec_step s (Tick dt) (s\<lparr>spec_now := spec_now s + dt\<rparr>)"

inductive_cases spec_stepE: "spec_step s e t"

fun abs_phase :: "slot_phase \<Rightarrow> spec_phase" where
  "abs_phase Waiting = Queued"
| "abs_phase (Executing d) = Held d"
| "abs_phase (Sleeping d) = Held d"
| "abs_phase Permit_dropped = Closing"
| "abs_phase Finished = Done"

definition abs_run :: "run \<Rightarrow> spec_run" where
  "abs_run r = \<lparr>spec_phase = abs_phase (phase r), spec_caller = run_caller r,
     spec_acquired = acquired r, spec_released = released r\<rparr>"

definition abs_sched :: "scheduler \<Rightarrow> spec" where
  "abs_sched s = \<lparr>spec_policy = app_policy (app s), spec_hash = module_sha256 (app s),
     spec_now = now s, spec_runs = map abs_run (runs s), spec_answers = answers s\<rparr>"

text \<open>The two ways in which \<open>timeout_at\<close> ends are the only steps that the contract does not have.\<close>

fun guest_step :: "event \<Rightarrow> bool" where
  "guest_step (Complete _) = True"
| "guest_step (Expire _) = True"
| "guest_step _ = False"

definition erase :: "event \<Rightarrow> event list" where
  "erase e = (if guest_step e then [] else [e])"

lemma abs_sched_simps [simp]:
  "spec_policy (abs_sched s) = app_policy (app s)" "spec_hash (abs_sched s) = module_sha256 (app s)"
  "spec_now (abs_sched s) = now s" "spec_runs (abs_sched s) = map abs_run (runs s)"
  "spec_answers (abs_sched s) = answers s"
  by (simp_all add: abs_sched_def)

lemma abs_run_simps [simp]:
  "spec_phase (abs_run r) = abs_phase (phase r)" "spec_caller (abs_run r) = run_caller r"
  by (simp_all add: abs_run_def)

lemma abs_phase_iffs [simp]:
  "abs_phase ph = Queued \<longleftrightarrow> ph = Waiting" "abs_phase ph = Closing \<longleftrightarrow> ph = Permit_dropped"
  "abs_phase ph = Done \<longleftrightarrow> ph = Finished"
  "abs_phase ph = Held d \<longleftrightarrow> ph = Executing d \<or> ph = Sleeping d"
  "is_held (abs_phase ph) \<longleftrightarrow> holds_permit ph"
  by (cases ph; simp)+

lemma spec_open_abs: "sched_inv s \<Longrightarrow> spec_open (abs_sched s) = unat (pending (app s))"
  by (simp add: spec_open_def sched_inv_def Let_def filter_map o_def unfinished_def [abs_def])

lemma spec_busy_abs:
  "sched_inv s \<Longrightarrow> spec_busy (abs_sched s) + slots (app s) = unat (max_parallel_workers (app_policy (app s)))"
  by (simp add: spec_busy_def sched_inv_def Let_def filter_map o_def)

lemma abs_answer: "abs_sched (answer who rep s) = spec_answer who rep (abs_sched s)"
  by (simp add: abs_sched_def answer_def spec_answer_def)

lemma abs_update:
  assumes "i < length (runs s)" and "abs_run (f (runs s ! i)) = h (abs_run (runs s ! i))"
  shows "abs_sched (update_run i f s) = spec_update i h (abs_sched s)"
  using assms by (simp add: abs_sched_def update_run_def spec_update_def map_update)

lemma abs_app:
  "app_policy a = app_policy (app s) \<Longrightarrow> module_sha256 a = module_sha256 (app s) \<Longrightarrow>
   abs_sched (s\<lparr>app := a\<rparr>) = abs_sched s"
  by (simp add: abs_sched_def)

lemma abs_run_worker:
  assumes "sched_inv s"
  shows "abs_sched (run_worker s) =
    (if spec_open (abs_sched s) < unat (max_pending_runs (app_policy (app s)))
     then (abs_sched s)\<lparr>spec_runs := spec_runs (abs_sched s) @ [spec_fresh]\<rparr>
     else spec_answer None (Error_reply queue_full) (abs_sched s))"
  unfolding spec_open_abs [OF assms]
  by (auto simp: run_worker_def admit_pending_def fetch_update_def word_less_nat_alt
      abs_answer abs_app abs_sched_def spec_fresh_def fresh_run_def abs_run_def spec_answer_def answer_def)

lemma abs_task:
  "i < length (runs s) \<Longrightarrow> abs_sched (begin_slot i n s) =
     spec_update i (\<lambda>r. r\<lparr>spec_phase := Held (now s + execution_slot (app_policy (app s))),
       spec_acquired := Some (now s)\<rparr>) (abs_sched s)"
  "i < length (runs s) \<Longrightarrow> phase (runs s ! i) = Executing d \<Longrightarrow>
     abs_sched (end_timeout i e d s) = abs_sched s"
  "i < length (runs s) \<Longrightarrow> abs_sched (end_slot i s) =
     spec_update i (\<lambda>r. r\<lparr>spec_phase := Closing, spec_released := Some (now s)\<rparr>) (abs_sched s)"
  "i < length (runs s) \<Longrightarrow> abs_sched (finish_task i s) =
     spec_update i (\<lambda>r. r\<lparr>spec_phase := Done\<rparr>) (abs_sched s)"
  "i < length (runs s) \<Longrightarrow> abs_sched (respond i s) =
     spec_answer (Some i) (Complete_reply normalized_response)
       (spec_update i (\<lambda>r. r\<lparr>spec_caller := Answered\<rparr>) (abs_sched s))"
  "i < length (runs s) \<Longrightarrow> abs_sched (update_run i (\<lambda>r. r\<lparr>run_caller := Disconnected\<rparr>) s) =
     spec_update i (\<lambda>r. r\<lparr>spec_caller := Disconnected\<rparr>) (abs_sched s)"
  by (simp_all add: abs_sched_def handler_defs spec_update_def spec_answer_def map_update abs_run_def
      list_update_same_conv)

lemma sched_step_simulated:
  assumes "sched_inv s" and "sched_step g s e t"
  shows "run_of spec_step (abs_sched s) (erase e) (abs_sched t)"
  using assms(2)
proof cases
  case post
  show ?thesis
    using spec_admit [of "abs_sched s"] spec_refuse [of "abs_sched s"]
    by (simp add: post erase_def run_of_single abs_run_worker [OF assms(1)])
next
  case get_health
  show ?thesis
    using spec_health [of "abs_sched s"]
    by (simp add: get_health erase_def run_of_single abs_answer health_def)
next
  case (acquire i permits)
  have "spec_busy (abs_sched s) < unat (max_parallel_workers (app_policy (app s)))"
    using spec_busy_abs [OF assms(1)] try_acquire_law [OF acquire(5)] by simp
  with acquire spec_acquire [of i "abs_sched s"] show ?thesis
    by (simp add: erase_def run_of_single abs_task)
next
  case (complete i d a r)
  then show ?thesis by (simp add: erase_def abs_task run_of_Nil_iff)
next
  case (expire i d a)
  then show ?thesis by (simp add: erase_def abs_task run_of_Nil_iff)
next
  case (wake i d)
  with spec_wake [of i "abs_sched s" d] show ?thesis
    by (simp add: erase_def run_of_single abs_task)
next
  case (guard_drop i)
  with spec_finish [of i "abs_sched s"] show ?thesis
    by (simp add: erase_def run_of_single abs_task)
next
  case (respond i)
  with spec_respond [of i "abs_sched s"] show ?thesis
    by (simp add: erase_def run_of_single abs_task)
next
  case (disconnect i)
  with spec_disconnect [of i "abs_sched s"] show ?thesis
    by (simp add: erase_def run_of_single abs_task)
next
  case (tick dt)
  with spec_tick [of "abs_sched s" dt] show ?thesis
    by (simp add: erase_def run_of_single abs_sched_def)
qed

interpretation sched_refines: forward_simulation "sched_step g" spec_step sched_inv abs_sched erase
  for g
  by unfold_locales (auto intro: sched_inv_step sched_step_simulated)

lemmas sched_run_single = run_of_single [of "sched_step g" for g]

text \<open>Every step of the contract can be taken by the service whatever the guest does: a task inside
  \<open>timeout_at\<close> whose deadline has passed leaves it first, with a result or without.\<close>

lemma leave_timeout:
  assumes "sched_inv s" and "i < length (runs s)" and "phase (runs s ! i) = Executing d" and "d \<le> now s"
  shows "\<exists>e r. sched_step g s e (end_timeout i r d s) \<and> guest_step e"
proof -
  from run_at [OF assms(1,2)] assms(3) obtain a where a: "acquired (runs s ! i) = Some a"
    by (auto simp: run_ok_def)
  show ?thesis
  proof (cases "guest_ready g i a (now s)")
    case None
    with sched_step.expire [OF assms(2,3) a] assms(4) show ?thesis
      by (metis guest_step.simps(2))
  next
    case (Some r)
    with sched_step.complete [OF assms(2,3) a] show ?thesis by (metis guest_step.simps(1))
  qed
qed

lemma wake_after_deadline:
  assumes "sched_inv s" and "i < length (runs s)" and "d \<le> now s"
    and "phase (runs s ! i) = Executing d \<or> phase (runs s ! i) = Sleeping d"
  shows "\<exists>es t. run_of (sched_step g) s es t \<and> concat (map erase es) = [Wake i] \<and>
           abs_sched t = abs_sched (end_slot i s)"
  using assms(4)
proof
  assume "phase (runs s ! i) = Sleeping d"
  from sched_run_single [OF sched_step.wake [OF assms(2) this assms(3)]] show ?thesis
    by (intro exI [of _ "[Wake i]"]) (auto simp: erase_def)
next
  assume ph: "phase (runs s ! i) = Executing d"
  from leave_timeout [OF assms(1,2) ph assms(3)] obtain e r where
    e: "sched_step g s e (end_timeout i r d s)" "guest_step e" by blast
  let ?u = "end_timeout i r d s"
  have u: "i < length (runs ?u)" "phase (runs ?u ! i) = Sleeping d" "d \<le> now ?u"
    using assms(2,3) by (simp_all add: handler_defs)
  have "run_of (sched_step g) s [e, Wake i] (end_slot i ?u)"
    using run_of_append [OF sched_run_single [OF e(1)]
        sched_run_single [OF sched_step.wake [OF u]]] by simp
  moreover have "abs_sched (end_slot i ?u) = abs_sched (end_slot i s)"
    using abs_task(3) [OF u(1)] abs_task(3) [OF assms(2)] abs_task(2) [OF assms(2) ph]
    by (simp add: end_timeout_def update_run_def)
  ultimately show ?thesis
    using e(2) by (intro exI [of _ "[e, Wake i]"]) (auto simp: erase_def)
qed

lemma spec_step_realised:
  assumes inv: "sched_inv s" and "spec_step (abs_sched s) e v"
  shows "\<exists>es t. run_of (sched_step g) s es t \<and> concat (map erase es) = [e] \<and> abs_sched t = v"
proof -
  have single: "?thesis" if "sched_step g s e t" "abs_sched t = v" "\<not> guest_step e" for t
    using sched_run_single [OF that(1)] that by (intro exI [of _ "[e]"]) (auto simp: erase_def)
  from assms(2) show ?thesis
  proof cases
    case spec_admit
    then show ?thesis
      using sched_step.post [of g s] by (intro single) (auto simp: abs_run_worker [OF inv])
  next
    case spec_refuse
    then show ?thesis
      using sched_step.post [of g s] by (intro single) (auto simp: abs_run_worker [OF inv])
  next
    case spec_health
    then show ?thesis
      using sched_step.get_health [of g s] by (intro single) (auto simp: abs_answer health_def)
  next
    case (spec_acquire i)
    then have "slots (app s) \<noteq> 0" using spec_busy_abs [OF inv] by (intro notI) simp
    then have "try_acquire (slots (app s)) = Some (slots (app s) - 1)" by (simp add: try_acquire_def)
    with spec_acquire sched_step.acquire [of i s _ g] show ?thesis
      by (intro single) (auto simp: abs_task)
  next
    case (spec_wake i d)
    with wake_after_deadline [OF inv, of i d g] show ?thesis by (auto simp: abs_task)
  next
    case (spec_finish i)
    with sched_step.guard_drop [of i s g] show ?thesis by (intro single) (auto simp: abs_task)
  next
    case (spec_respond i)
    with sched_step.respond [of i s g] show ?thesis by (intro single) (auto simp: abs_task)
  next
    case (spec_disconnect i)
    with sched_step.disconnect [of i s g] show ?thesis by (intro single) (auto simp: abs_task)
  next
    case (spec_tick dt)
    with sched_step.tick [of g s dt] show ?thesis by (intro single) (auto simp: abs_sched_def)
  qed
qed

lemma spec_run_realised:
  assumes "run_of spec_step v0 vs v" and "v0 = abs_sched s0" and "sched_inv s0"
  shows "\<exists>es t. run_of (sched_step g) s0 es t \<and> concat (map erase es) = vs \<and> abs_sched t = v"
  using assms
proof (induction rule: run_of.induct)
  case (run_nil v)
  then show ?case using run_of.run_nil [of "sched_step g" s0] by (intro exI [of _ "[]"]) auto
next
  case (run_snoc v0 vs v e w)
  then obtain es t where 1: "run_of (sched_step g) s0 es t" "concat (map erase es) = vs" "abs_sched t = v"
    by blast
  have "sched_inv t" using sched_refines.run_good [OF 1(1) run_snoc.prems(2)] .
  from spec_step_realised [OF this, of e w g] run_snoc.hyps(2) 1(3) obtain es' u where
    2: "run_of (sched_step g) t es' u" "concat (map erase es') = [e]" "abs_sched u = w"
    by blast
  from run_of_append [OF 1(1) 2(1)] 1(2) 2(2,3) show ?case by (intro exI [of _ "es @ es'"]) auto
qed

text \<open>What can be observed of the service: every event but the ends of \<open>timeout_at\<close>, with the
  state of the contract that goes with it, hence the time and content of every answer and the time
  at which every permit is taken and given back.\<close>

definition observations :: "guest \<Rightarrow> app_state \<Rightarrow> (event list \<times> spec) set" where
  "observations g a = {(concat (map erase es), abs_sched s) | es s. run_of (sched_step g) (initial a) es s}"

lemma observations_eq:
  "observations g (initial_app artifact pol) =
     {(vs, v). run_of spec_step (abs_sched (initial (initial_app artifact pol))) vs v}"
proof -
  note inv = sched_inv_initial [of artifact pol]
  have "run_of spec_step (abs_sched (initial (initial_app artifact pol))) (concat (map erase es)) (abs_sched s)"
    if "run_of (sched_step g) (initial (initial_app artifact pol)) es s" for es s
    using sched_refines.run_simulated [OF that inv] .
  moreover have "\<exists>es s. run_of (sched_step g) (initial (initial_app artifact pol)) es s \<and>
      concat (map erase es) = vs \<and> abs_sched s = v"
    if "run_of spec_step (abs_sched (initial (initial_app artifact pol))) vs v" for vs v
    using spec_run_realised [OF that refl inv] .
  ultimately show ?thesis by (force simp: observations_def)
qed

text \<open>C4: the service implements its contract. Every execution, with the two ends of \<open>timeout_at\<close>
  left out, is an execution of the machine that has neither guests nor counters, from the start
  state to the abstraction of the state reached.\<close>

theorem scheduler_refines_normalised_service:
  assumes "run_of (sched_step g) (initial (initial_app artifact pol)) es s"
  shows "run_of spec_step (abs_sched (initial (initial_app artifact pol)))
           (concat (map erase es)) (abs_sched s)"
  using sched_refines.run_simulated [OF assms sched_inv_initial] .

text \<open>C1: the guest has no influence on what can be observed. For any two behaviours of the spawned
  processes (when each one resolves and with what result, or that it never does) the sets of
  observable executions are the same, answers, their times and the times of every permit
  included.\<close>

theorem guest_is_unobservable:
  "observations g (initial_app artifact pol) = observations g' (initial_app artifact pol)"
  by (simp add: observations_eq)

section \<open>Admission\<close>

text \<open>C6: in every reachable state a request is admitted exactly when fewer runs than the policy
  allows are unfinished: then one waiting task is added and the counter goes up by one, without
  wrapping; otherwise the caller gets status 429 and nothing else changes.\<close>

theorem run_worker_admits_iff_room:
  assumes "run_of (sched_step g) (initial (initial_app artifact pol)) es s"
  shows "if length (filter unfinished (runs s)) < unat (max_pending_runs pol)
         then runs (run_worker s) = runs s @ [fresh_run] \<and> answers (run_worker s) = answers s \<and>
              unat (pending (app (run_worker s))) = unat (pending (app s)) + 1
         else run_worker s = answer None (Error_reply queue_full) s"
proof -
  have p: "app_policy (app s) = pol" by (rule sched_policy_constant [OF assms])
  have n: "unat (pending (app s)) = length (filter unfinished (runs s))"
    using reachable_sched_inv [OF assms] by (simp add: sched_inv_def Let_def)
  show ?thesis
  proof (cases "pending (app s) < max_pending_runs pol")
    case True
    from admit_pending_laws(2) [OF this] True show ?thesis
      by (auto simp: run_worker_def p word_less_nat_alt n split: if_splits)
  next
    case False
    then have "admit_pending (max_pending_runs pol) (pending (app s)) =
        (Inl (pending (app s)), pending (app s))"
      by (intro admit_pending_laws(1)) simp
    with False show ?thesis by (simp add: run_worker_def p word_less_nat_alt n)
  qed
qed

section \<open>Progress\<close>

definition run_rank :: "run \<Rightarrow> nat" where
  "run_rank r =
     (case phase r of
        Waiting \<Rightarrow> 5 | Executing _ \<Rightarrow> 4 | Sleeping _ \<Rightarrow> 3 | Permit_dropped \<Rightarrow> 2
      | Finished \<Rightarrow> if run_caller r = Connected then 1 else 0)"

definition work_left :: "scheduler \<Rightarrow> nat" where
  "work_left s = sum_list (map run_rank (runs s))"

lemma run_rank_zero_iff: "run_rank r = 0 \<longleftrightarrow> phase r = Finished \<and> run_caller r \<noteq> Connected"
  by (cases "phase r") (auto simp: run_rank_def)

lemma work_left_zero_iff: "work_left s = 0 \<longleftrightarrow> (\<forall>r \<in> set (runs s). run_rank r = 0)"
  by (simp add: work_left_def)

lemma sum_list_map_update_less:
  fixes f :: "'a \<Rightarrow> nat"
  shows "i < length xs \<Longrightarrow> f x < f (xs ! i) \<Longrightarrow> sum_list (map f (xs[i := x])) < sum_list (map f xs)"
proof (induction xs arbitrary: i)
  case (Cons y ys)
  then show ?case by (cases i) auto
qed simp

lemma work_left_update:
  "i < length (runs s) \<Longrightarrow> runs t = (runs s)[i := r] \<Longrightarrow> run_rank r < run_rank (runs s ! i) \<Longrightarrow>
   work_left t < work_left s"
  by (simp add: work_left_def sum_list_map_update_less)

lemma holder_progress:
  assumes inv: "sched_inv s" and i: "i < length (runs s)" and "holds_permit (phase (runs s ! i))"
  shows "\<exists>es t. run_of (sched_step g) s es t \<and> work_left t < work_left s"
proof -
  from assms(3) obtain d where d: "phase (runs s ! i) = Executing d \<or> phase (runs s ! i) = Sleeping d"
    by (cases "phase (runs s ! i)") auto
  let ?u = "s\<lparr>now := now s + d\<rparr>"
  have u: "sched_step g s (Tick d) ?u" by (rule sched_step.tick)
  then have iu: "sched_inv ?u" using inv by (rule sched_inv_step)
  have w: "work_left ?u = work_left s" by (simp add: work_left_def)
  have "\<exists>e t. sched_step g ?u e t \<and> work_left t < work_left ?u"
    using d
  proof
    assume ph: "phase (runs s ! i) = Executing d"
    from leave_timeout [OF iu, of i d g] i ph obtain e r where
      "sched_step g ?u e (end_timeout i r d ?u)" by auto
    moreover have "work_left (end_timeout i r d ?u) < work_left ?u"
      by (rule work_left_update [where i = i]) (use i ph in \<open>auto simp: handler_defs run_rank_def\<close>)
    ultimately show ?thesis by blast
  next
    assume ph: "phase (runs s ! i) = Sleeping d"
    then have "sched_step g ?u (Wake i) (end_slot i ?u)" using i by (intro sched_step.wake) auto
    moreover have "work_left (end_slot i ?u) < work_left ?u"
      by (rule work_left_update [where i = i]) (use i ph in \<open>auto simp: handler_defs run_rank_def\<close>)
    ultimately show ?thesis by blast
  qed
  then obtain e t where "sched_step g ?u e t" "work_left t < work_left s" using w by auto
  with run_of_append [OF sched_run_single [OF u] sched_run_single] show ?thesis by blast
qed

lemma waiting_progress:
  assumes inv: "sched_inv s" and i: "i < length (runs s)" and ph: "phase (runs s ! i) = Waiting"
    and "0 < max_parallel_workers (app_policy (app s))"
  shows "\<exists>es t. run_of (sched_step g) s es t \<and> work_left t < work_left s"
proof (cases "slots (app s) = 0")
  case False
  then have "sched_step g s (Acquire i) (begin_slot i (slots (app s) - 1) s)"
    using i ph by (intro sched_step.acquire) (auto simp: try_acquire_def)
  moreover have "work_left (begin_slot i (slots (app s) - 1) s) < work_left s"
    by (rule work_left_update [where i = i]) (use i ph in \<open>auto simp: handler_defs run_rank_def\<close>)
  ultimately show ?thesis by (blast intro: sched_run_single)
next
  case True
  then have "filter (\<lambda>r. holds_permit (phase r)) (runs s) \<noteq> []"
    using inv assms(4) by (auto simp: sched_inv_def Let_def word_less_nat_alt)
  then obtain j where "j < length (runs s)" "holds_permit (phase (runs s ! j))"
    by (auto simp: filter_empty_conv in_set_conv_nth)
  with holder_progress [OF inv] show ?thesis by blast
qed

lemma sched_progress:
  assumes inv: "sched_inv s" and "0 < work_left s" and "0 < max_parallel_workers (app_policy (app s))"
  shows "\<exists>es t. run_of (sched_step g) s es t \<and> work_left t < work_left s"
proof -
  from assms(2) obtain i where i: "i < length (runs s)" "0 < run_rank (runs s ! i)"
    by (metis gr0I less_irrefl in_set_conv_nth work_left_zero_iff)
  show ?thesis
  proof (cases "phase (runs s ! i)")
    case Waiting
    with waiting_progress [OF inv i(1) _ assms(3)] show ?thesis by blast
  next
    case Permit_dropped
    with i have "sched_step g s (Guard_drop i) (finish_task i s)" by (intro sched_step.guard_drop)
    moreover have "work_left (finish_task i s) < work_left s"
      by (rule work_left_update [where i = i])
        (use i Permit_dropped in \<open>auto simp: handler_defs run_rank_def\<close>)
    ultimately show ?thesis by (blast intro: sched_run_single)
  next
    case Finished
    with i have "sched_step g s (Respond i) (respond i s)"
      by (intro sched_step.respond) (auto simp: run_rank_def split: if_splits)
    moreover have "work_left (respond i s) < work_left s"
      by (rule work_left_update [where i = i])
        (use i Finished in \<open>auto simp: handler_defs run_rank_def split: if_splits\<close>)
    ultimately show ?thesis by (blast intro: sched_run_single)
  qed (use holder_progress [OF inv i(1)] in \<open>auto\<close>)
qed

lemma step_max_workers:
  "run_of (sched_step g) s es t \<Longrightarrow> app_policy (app t) = app_policy (app s)"
  by (induction rule: run_of.induct) (auto dest: step_policy)

lemma sched_drains:
  assumes "sched_inv s" and "0 < max_parallel_workers (app_policy (app s))"
  shows "\<exists>es t. run_of (sched_step g) s es t \<and> work_left t = 0"
  using assms
proof (induction "work_left s" arbitrary: s rule: less_induct)
  case less
  show ?case
  proof (cases "work_left s = 0")
    case True
    then show ?thesis using run_of.run_nil [of "sched_step g" s] by blast
  next
    case False
    with sched_progress [OF less.prems(1) _ less.prems(2), of g] obtain es u where
      1: "run_of (sched_step g) s es u" "work_left u < work_left s" by auto
    have "sched_inv u" "0 < max_parallel_workers (app_policy (app u))"
      using sched_refines.run_good [OF 1(1) less.prems(1)] step_max_workers [OF 1(1)] less.prems(2)
      by simp_all
    from less.hyps [OF 1(2) this] run_of_append [OF 1(1)] show ?thesis by blast
  qed
qed

text \<open>C5: the service cannot get stuck. From every reachable state, even if no guest ever resolves,
  some continuation finishes every task and answers every caller that has not gone: then the
  counter is zero and all permits are free.\<close>

theorem scheduler_can_always_drain:
  assumes "run_of (sched_step g) (initial (initial_app artifact pol)) es s"
    and "0 < max_parallel_workers pol"
  shows "\<exists>es' t. run_of (sched_step g) s es' t \<and>
           (\<forall>r \<in> set (runs t). phase r = Finished \<and> run_caller r \<noteq> Connected) \<and>
           pending (app t) = 0 \<and> slots (app t) = unat (max_parallel_workers pol)"
proof -
  have p: "app_policy (app s) = pol" by (rule sched_policy_constant [OF assms(1)])
  from sched_drains [OF reachable_sched_inv [OF assms(1)], of g] assms(2) p obtain es' t where
    t: "run_of (sched_step g) s es' t" "work_left t = 0" by auto
  have r: "phase r = Finished \<and> run_caller r \<noteq> Connected" if "r \<in> set (runs t)" for r
    using t(2) that by (simp add: work_left_zero_iff run_rank_zero_iff)
  have "filter unfinished (runs t) = []" "filter (\<lambda>r. holds_permit (phase r)) (runs t) = []"
    using r by (auto simp: filter_empty_conv unfinished_def)
  with sched_refines.run_good [OF t(1) reachable_sched_inv [OF assms(1)]] step_max_workers [OF t(1)] p
  have "pending (app t) = 0" "slots (app t) = unat (max_parallel_workers pol)"
    by (auto simp: sched_inv_def Let_def unat_eq_zero)
  with t(1) r show ?thesis by blast
qed

section \<open>Start-up\<close>

text \<open>C7: whatever the environment and the network supply, a service that begins to serve serves an
  authentic module: the body that was fetched is the magic, a nonce and the sealing of exactly the
  bytes of the module under the key of the environment; these bytes are non-empty and at most one
  mebibyte, the health report carries their hash, the secrets are gone from the environment, and
  nothing has been admitted yet.\<close>

theorem main_server_serves_authentic_module:
  assumes "aead_laws C" and "main_server C H url_parse runtime listen env = (Inr s, env')"
  shows "\<exists>url token response cs key kb k nonce c.
           env ''WASM_PULL_URL'' = Some url \<and> env ''WASM_PULL_API_TOKEN'' = Some token \<and>
           http_get H [\<lparr>req_client = pull_client, req_url = url, req_authorization =
               \<lparr>header_text = ''Bearer '' @ token, header_sensitive = True\<rparr>\<rparr>] = Some response \<and>
           http_chunks response = map Inr cs \<and> concat cs = MAGIC @ nonce @ c \<and> length nonce = 12 \<and>
           env ''WASM_DECRYPTION_KEY'' = Some key \<and> base64_decode C (as_bytes key) = Some kb \<and>
           unbound_key C kb = Some k \<and> aead_seal C k nonce MAGIC (app_module (app s)) = Some c \<and>
           app_module (app s) \<noteq> [] \<and> length (app_module (app s)) \<le> 1024 * 1024 \<and>
           wasm_sha256 (health (app s)) = hex_encode C (sha256 C (app_module (app s))) \<and>
           runs s = [] \<and> pending (app s) = 0 \<and> slots (app s) = 8 \<and>
           (\<forall>v \<in> {''WASM_PULL_URL'', ''WASM_DECRYPTION_KEY'', ''WASM_PULL_API_TOKEN''}. env' v = None)"
proof -
  obtain secrets where t: "take_from_environment C url_parse env = (Inr secrets, env')"
    and sm: "server_main C H listen env' secrets = Inr s"
    using assms(2) by (auto simp: main_server_def result_simps split: prod.splits sum.splits)
  from sm obtain a where pl: "fst (pull_and_decrypt C H secrets (max_module_bytes production)) = Inr a"
    and s: "s = initial (initial_app a production)"
    by (auto simp: server_main_def Let_def result_simps)
  from pl obtain response cs where
    r: "http_get H [the_request secrets] = Some response"
      "http_chunks response = map Inr cs"
    and d: "decrypt C (concat cs) (secret_key secrets) (unat (max_module_bytes production)) = Inr a"
    by (rule pull_ok)
  from decrypt_sealed [OF assms(1) d] obtain k nonce c where
    k: "unbound_key C (secret_key secrets) = Some k" "length nonce = 12"
      "aead_seal C k nonce MAGIC (artifact_module a) = Some c" "concat cs = MAGIC @ nonce @ c"
      "artifact_module a \<noteq> []" "length (artifact_module a) \<le> 1024 * 1024"
      "artifact_sha256_hex a = hex_encode C (sha256 C (artifact_module a))"
    by auto
  from t obtain key where e: "env ''WASM_PULL_URL'' = Some (secret_url secrets)"
      "env ''WASM_PULL_API_TOKEN'' = Some (secret_api_token secrets)"
      "env ''WASM_DECRYPTION_KEY'' = Some key" "base64_decode C (as_bytes key) = Some (secret_key secrets)"
      "env' = remove_secrets env"
    by (auto simp: take_from_environment_def result_simps split: option.splits)
  have "runs s = []" "pending (app s) = 0" "slots (app s) = 8" "app_module (app s) = artifact_module a"
    "wasm_sha256 (health (app s)) = artifact_sha256_hex a"
    by (simp_all add: s initial_def initial_app_def health_def)
  moreover have "\<forall>v \<in> {''WASM_PULL_URL'', ''WASM_DECRYPTION_KEY'', ''WASM_PULL_API_TOKEN''}. env' v = None"
    by (simp add: e(5) remove_secrets_def)
  ultimately show ?thesis using r [unfolded the_request_def] k e(1-4) by metis
qed

section \<open>Executing the transition system\<close>

definition next_run :: "nat \<Rightarrow> scheduler \<Rightarrow> (run \<Rightarrow> scheduler option) \<Rightarrow> scheduler option" where
  "next_run i s f = (if i < length (runs s) then f (runs s ! i) else None)"

fun sched_next :: "guest \<Rightarrow> scheduler \<Rightarrow> event \<Rightarrow> scheduler option" where
  "sched_next g s Post = Some (run_worker s)"
| "sched_next g s Get_health = Some (answer None (Health_reply (health (app s))) s)"
| "sched_next g s (Acquire i) = next_run i s (\<lambda>r.
     if phase r = Waiting then map_option (\<lambda>n. begin_slot i n s) (try_acquire (slots (app s))) else None)"
| "sched_next g s (Complete i) = next_run i s (\<lambda>r.
     case (phase r, acquired r) of
       (Executing d, Some a) \<Rightarrow>
         map_option (\<lambda>res. end_timeout i (Resolved res) d s) (guest_ready g i a (now s))
     | _ \<Rightarrow> None)"
| "sched_next g s (Expire i) = next_run i s (\<lambda>r.
     case (phase r, acquired r) of
       (Executing d, Some a) \<Rightarrow>
         if guest_ready g i a (now s) = None \<and> d \<le> now s then Some (end_timeout i Elapsed d s) else None
     | _ \<Rightarrow> None)"
| "sched_next g s (Wake i) = next_run i s (\<lambda>r.
     case phase r of Sleeping d \<Rightarrow> if d \<le> now s then Some (end_slot i s) else None | _ \<Rightarrow> None)"
| "sched_next g s (Guard_drop i) = next_run i s (\<lambda>r.
     if phase r = Permit_dropped then Some (finish_task i s) else None)"
| "sched_next g s (Respond i) = next_run i s (\<lambda>r.
     if phase r = Finished \<and> run_caller r = Connected then Some (respond i s) else None)"
| "sched_next g s (Disconnect i) = next_run i s (\<lambda>r.
     if run_caller r = Connected
     then Some (update_run i (\<lambda>r. r\<lparr>run_caller := Disconnected\<rparr>) s) else None)"
| "sched_next g s (Tick dt) = Some (s\<lparr>now := now s + dt\<rparr>)"

lemma sched_step_iff_next: "sched_step g s e t \<longleftrightarrow> sched_next g s e = Some t"
proof
  show "sched_next g s e = Some t" if "sched_step g s e t"
    using that by cases (auto simp: next_run_def)
  show "sched_step g s e t" if "sched_next g s e = Some t"
    using that
    by (cases e) (auto simp: next_run_def intro: sched_step.intros
        split: if_splits slot_phase.splits option.splits)
qed

fun sched_exec :: "guest \<Rightarrow> scheduler \<Rightarrow> event list \<Rightarrow> scheduler option" where
  "sched_exec g s [] = Some s"
| "sched_exec g s (e # es) = Option.bind (sched_next g s e) (\<lambda>t. sched_exec g t es)"

lemma sched_exec_run: "sched_exec g s es = Some t \<Longrightarrow> run_of (sched_step g) s es t"
proof (induction es arbitrary: s)
  case Nil
  then show ?case by (simp add: run_of_Nil_iff)
next
  case (Cons e es)
  then obtain u where "sched_step g s e u" "sched_exec g u es = Some t"
    by (auto simp: sched_step_iff_next bind_eq_Some_conv)
  with run_of_append [OF sched_run_single Cons.IH] show ?case by fastforce
qed

section \<open>Witnesses\<close>

text \<open>One run of a guest that never resolves, answered after its slot, while a second caller leaves
  and its task is left waiting.\<close>

definition sample_artifact :: loaded_artifact where
  "sample_artifact = \<lparr>artifact_module = [0, 97, 115, 109], artifact_sha256_hex = ''00''\<rparr>"

definition stuck_guest :: guest where
  "stuck_guest = (\<lambda>_ _. None)"

definition sample_events :: "event list" where
  "sample_events = [Post, Acquire 0, Tick 5, Post, Disconnect 1, Tick 1000000000, Expire 0, Wake 0,
     Guard_drop 0, Respond 0]"

definition sample_end :: scheduler where
  "sample_end =
     \<lparr>app = \<lparr>app_module = [0, 97, 115, 109], module_sha256 = ''00'', slots = 8, pending = 1,
              app_policy = production\<rparr>,
      now = 1000000005,
      runs = [\<lparr>phase = Finished, run_caller = Answered, acquired = Some 0, released = Some 1000000005,
                runner_result = Some Elapsed\<rparr>,
              \<lparr>phase = Waiting, run_caller = Disconnected, acquired = None, released = None,
                runner_result = None\<rparr>],
      answers = [(1000000005, Some 0, Complete_reply normalized_response)]\<rparr>"

lemma sample_run:
  "run_of (sched_step stuck_guest) (initial (initial_app sample_artifact production)) sample_events sample_end"
  by (rule sched_exec_run)
    (simp add: sample_events_def sample_end_def initial_def initial_app_def sample_artifact_def
      stuck_guest_def next_run_def run_worker_def admit_pending_def fetch_update_def try_acquire_def
      drop_permit_def pending_guard_drop_def handler_defs fresh_run_def guest_ready_def)

theorem scheduler_resources_bounded_witness:
  "unat (pending (app sample_end)) = length (filter unfinished (runs sample_end)) \<and>
   length (filter unfinished (runs sample_end)) \<le> 128"
  using scheduler_resources_bounded [OF sample_run] by simp

theorem scheduler_slots_are_fixed_witness:
  "the (acquired (runs sample_end ! 0)) + 1000000000 \<le> the (released (runs sample_end ! 0))"
proof -
  have "runs sample_end ! 0 \<in> set (runs sample_end)" "released (runs sample_end ! 0) \<noteq> None"
    by (simp_all add: sample_end_def)
  with scheduler_slots_are_fixed [OF sample_run] show ?thesis by auto
qed

theorem scheduler_refines_normalised_service_witness:
  "run_of spec_step (abs_sched (initial (initial_app sample_artifact production)))
     [Post, Acquire 0, Tick 5, Post, Disconnect 1, Tick 1000000000, Wake 0, Guard_drop 0, Respond 0]
     (abs_sched sample_end)"
  using scheduler_refines_normalised_service [OF sample_run] by (simp add: sample_events_def erase_def)

theorem run_worker_admits_iff_room_witness:
  "runs (run_worker sample_end) = runs sample_end @ [fresh_run] \<and>
   unat (pending (app (run_worker sample_end))) = 2"
  using run_worker_admits_iff_room [OF sample_run] by (simp add: sample_end_def unfinished_def)

theorem scheduler_can_always_drain_witness:
  "\<exists>es' t. run_of (sched_step stuck_guest) sample_end es' t \<and> pending (app t) = 0 \<and> slots (app t) = 8"
  using scheduler_can_always_drain [OF sample_run] by auto

definition sample_url :: parsed_url where
  "sample_url = \<lparr>url_scheme = ''https'', url_host_str = Some AUTHORIZED_HOST,
     url_port_or_known_default = Some 443, url_username = [], url_password = None\<rparr>"

theorem main_server_serves_authentic_module_witness:
  "\<exists>s env'. main_server checksum_crypto (sample_http sample_envelope) (\<lambda>_. Some sample_url) True
       (\<lambda>_. True) sample_environment = (Inr s, env') \<and> app_module (app s) = [1, 2] \<and>
     length (app_module (app s)) \<le> 1024 * 1024 \<and> env' ''WASM_DECRYPTION_KEY'' = None"
proof -
  let ?s = "initial (initial_app \<lparr>artifact_module = [1, 2],
    artifact_sha256_hex = hex_encode checksum_crypto [3]\<rparr> production)"
  have "base64_decode checksum_crypto = Some" by (simp add: checksum_crypto_def)
  then have m: "main_server checksum_crypto (sample_http sample_envelope) (\<lambda>_. Some sample_url) True
       (\<lambda>_. True) sample_environment = (Inr ?s, remove_secrets sample_environment)"
    using sample_pull
    by (simp add: main_server_def take_from_environment_def sample_environment_def sample_key_def
        sample_url_def url_authorized_def ensure_def server_main_def Let_def sample_secrets_def)
  from main_server_serves_authentic_module [OF checksum_crypto_laws m]
  have "length (app_module (app ?s)) \<le> 1024 * 1024"
    "remove_secrets sample_environment ''WASM_DECRYPTION_KEY'' = None"
    by auto
  with m show ?thesis by (auto simp: initial_def initial_app_def)
qed

end
