(* ===== verification/Healthcheck.thy ===== *)
theory Healthcheck
  imports Scheduler
begin

text \<open>
  The health check of the image, \<open>healthcheck_main\<close> of \<open>crates/scheduler/src/main.rs\<close>: a bounded HTTP request to
  the service on the loopback interface. Name resolution and the TCP stream are parameters.
\<close>

record ('a, 's) tcp_api =
  tcp_resolve :: "string \<Rightarrow> error + 'a list"
  tcp_connect_timeout :: "'a \<Rightarrow> duration \<Rightarrow> error + 's"
  tcp_set_read_timeout :: "'s \<Rightarrow> duration \<Rightarrow> error + 's"
  tcp_set_write_timeout :: "'s \<Rightarrow> duration \<Rightarrow> error + 's"
  tcp_write_all :: "'s \<Rightarrow> bytes \<Rightarrow> error + 's"
  tcp_read :: "'s \<Rightarrow> nat \<Rightarrow> error + bytes"

definition crlf :: string where
  "crlf = [char_of (13 :: nat), char_of (10 :: nat)]"

definition health_request :: bytes where
  "health_request =
     as_bytes (''GET /health HTTP/1.1'' @ crlf @ ''Host: localhost'' @ crlf @ ''Connection: close'' @ crlf @ crlf)"

definition healthcheck_timeout :: duration where
  "healthcheck_timeout = 2 * nanos_per_sec"

definition starts_with :: "bytes \<Rightarrow> bytes \<Rightarrow> bool" where
  "starts_with bs p \<longleftrightarrow> take (length p) bs = p"

definition healthcheck_main :: "('a, 's) tcp_api \<Rightarrow> (string \<rightharpoonup> string) \<Rightarrow> error + unit" where
  "healthcheck_main T vars =
     (let port = (case vars ''PORT'' of None \<Rightarrow> ''8080'' | Some p \<Rightarrow> p) in
      try_bind (tcp_resolve T (''127.0.0.1:'' @ port)) (\<lambda>addresses.
      try_bind (ok_or (case addresses of [] \<Rightarrow> None | a # _ \<Rightarrow> Some a) ''healthcheck address did not resolve'') (\<lambda>address.
      try_bind (tcp_connect_timeout T address healthcheck_timeout) (\<lambda>stream.
      try_bind (tcp_set_read_timeout T stream healthcheck_timeout) (\<lambda>stream.
      try_bind (tcp_set_write_timeout T stream healthcheck_timeout) (\<lambda>stream.
      try_bind (tcp_write_all T stream health_request) (\<lambda>stream.
      try_bind (tcp_read T stream 64) (\<lambda>response.
        ensure (starts_with (take 64 response) (as_bytes ''HTTP/1.1 200''))
          ''health endpoint did not return HTTP 200''))))))))"

text \<open>A passing check has read, in one call, the status line of a successful response.\<close>

lemma healthcheck_passes_iff:
  "healthcheck_main T vars = Inr () \<longleftrightarrow>
     (\<exists>address rest stream0 stream1 stream2 stream3 response.
        tcp_resolve T (''127.0.0.1:'' @ (case vars ''PORT'' of None \<Rightarrow> ''8080'' | Some p \<Rightarrow> p)) = Inr (address # rest) \<and>
        tcp_connect_timeout T address healthcheck_timeout = Inr stream0 \<and>
        tcp_set_read_timeout T stream0 healthcheck_timeout = Inr stream1 \<and>
        tcp_set_write_timeout T stream1 healthcheck_timeout = Inr stream2 \<and>
        tcp_write_all T stream2 health_request = Inr stream3 \<and>
        tcp_read T stream3 64 = Inr response \<and> take 12 response = as_bytes ''HTTP/1.1 200'')"
proof -
  have first_address: "(case xs of [] \<Rightarrow> None | a # _ \<Rightarrow> Some a) = Some x \<longleftrightarrow> (\<exists>ys. xs = x # ys)" for xs and x :: 'a
    by (cases xs) auto
  have prefix: "starts_with (take 64 response) (as_bytes ''HTTP/1.1 200'') \<longleftrightarrow> take 12 response = as_bytes ''HTTP/1.1 200''"
    for response by (simp add: starts_with_def eval_nat_numeral)
  show ?thesis
    unfolding healthcheck_main_def Let_def result_simps first_address prefix by blast
qed

end
