(* ===== verification/Bench_Guest.thy ===== *)
theory Bench_Guest
  imports Ishtar_Prelude
begin

text \<open>
  The guest of the synthetic benchmark, \<open>crates/bench-wasm/src/lib.rs\<close>. The static array is a list of
  32-bit words that every call receives and returns. The guest reads and writes it through a raw
  pointer, without a bounds check: an access outside the array, which would be undefined behaviour, is
  the value \<open>None\<close>.
\<close>

unbundle bit_operations_syntax

section \<open>Memory and arithmetic loops\<close>

definition WORDS :: nat where
  "WORDS = 16 * 1024"

definition iteration_count :: "u32 \<Rightarrow> u32 \<Rightarrow> u32" where
  "iteration_count profile_word fallback =
     (let requested = profile_word AND 0x000fffff
      in if requested = 0 then fallback else min requested 100000)"

text \<open>One access of the inner loop: the value read, incremented, written back, and mixed into the
  accumulator.\<close>

definition touch_word :: "nat \<Rightarrow> u32 \<Rightarrow> u32 list \<Rightarrow> (u32 \<times> u32 list) option" where
  "touch_word index acc mem =
     (if index < length mem
      then (let value = mem ! index + (acc XOR of_nat index)
            in Some (word_rotl 5 acc XOR value, mem[index := value]))
      else None)"

fun touch_words :: "nat \<Rightarrow> nat \<Rightarrow> nat \<Rightarrow> u32 \<Rightarrow> u32 list \<Rightarrow> (u32 \<times> u32 list) option" where
  "touch_words 0 stride index acc mem = Some (acc, mem)"
| "touch_words (Suc n) stride index acc mem =
     (case touch_word index acc mem of
        None \<Rightarrow> None
      | Some (acc, mem) \<Rightarrow> touch_words n stride ((index + stride) mod WORDS) acc mem)"

fun touch_rounds :: "nat list \<Rightarrow> nat \<Rightarrow> u32 \<Rightarrow> u32 list \<Rightarrow> (u32 \<times> u32 list) option" where
  "touch_rounds [] stride acc mem = Some (acc, mem)"
| "touch_rounds (round # rounds) stride acc mem =
     (case touch_words 256 stride (round mod WORDS) acc mem of
        None \<Rightarrow> None
      | Some (acc, mem) \<Rightarrow> touch_rounds rounds stride acc mem)"

definition touch_memory :: "u32 \<Rightarrow> nat \<Rightarrow> u32 list \<Rightarrow> (u32 \<times> u32 list) option" where
  "touch_memory rounds stride mem = touch_rounds [0..<unat rounds] stride 0x9e3779b9 mem"

definition spin_step :: "nat \<Rightarrow> u32 \<Rightarrow> u32" where
  "spin_step i value = word_rotl 7 (value + (of_nat i XOR 0x85ebca6b)) * 0xc2b2ae35"

definition spin :: "u32 \<Rightarrow> u32" where
  "spin rounds = fold spin_step [0..<unat (saturating_mul rounds 128)] 0x243f6a88"

section \<open>Roles\<close>

definition sender :: "u32 \<Rightarrow> u32 \<Rightarrow> u32 list \<Rightarrow> (u32 \<times> u32 list) option" where
  "sender b profile_word mem =
     (let rounds = iteration_count profile_word (if b = 1 then 64 else 2)
      in map_option (map_prod (\<lambda>acc. acc XOR spin (rounds div 2 + 1)) id)
           (touch_memory rounds (if b = 1 then 17 else 1021) mem))"

definition probe :: "u32 \<Rightarrow> u32 list \<Rightarrow> (u32 \<times> u32 list) option" where
  "probe profile_word mem =
     (let rounds = iteration_count profile_word 24
      in map_option (map_prod (\<lambda>acc. acc XOR spin rounds) id) (touch_memory rounds 31 mem))"

definition background :: "u32 \<Rightarrow> u32 list \<Rightarrow> (u32 \<times> u32 list) option" where
  "background profile_word mem = touch_memory (iteration_count profile_word 12) 127 mem"

definition control :: "u32 \<Rightarrow> u32 list \<Rightarrow> (u32 \<times> u32 list) option" where
  "control profile_word mem = Some (spin (iteration_count profile_word 8), mem)"

definition bench_turn :: "i32 \<Rightarrow> i32 \<Rightarrow> i32 \<Rightarrow> i32 \<Rightarrow> i32 \<Rightarrow> u32 list \<Rightarrow> (i32 \<times> u32 list) option" where
  "bench_turn role b trial_low trial_high profile_word mem =
     (let salt = trial_low XOR word_rotl 13 trial_high;
          answer = map_option (map_prod (\<lambda>result. if result = salt + 0xfeedbeef then 2 else 0) id)
      in if role = 0 \<and> (b = 0 \<or> b = 1) then answer (sender b profile_word mem)
         else if role = 1 then answer (probe profile_word mem)
         else if role = 2 then answer (background profile_word mem)
         else if role = 3 then answer (control profile_word mem)
         else Some (1, mem))"

section \<open>Every access is in bounds\<close>

lemma WORDS_pos [simp]: "0 < WORDS"
  by (simp add: WORDS_def)

lemma touch_words_in_bounds:
  "length mem = WORDS \<Longrightarrow> index < WORDS \<Longrightarrow>
   \<exists>acc' mem'. touch_words n stride index acc mem = Some (acc', mem') \<and> length mem' = WORDS"
  by (induction n arbitrary: index acc mem) (simp_all add: touch_word_def Let_def)

lemma touch_rounds_in_bounds:
  "length mem = WORDS \<Longrightarrow>
   \<exists>acc' mem'. touch_rounds rounds stride acc mem = Some (acc', mem') \<and> length mem' = WORDS"
proof (induction rounds arbitrary: acc mem)
  case (Cons round rounds)
  obtain acc' mem' where "touch_words 256 stride (round mod WORDS) acc mem = Some (acc', mem')" "length mem' = WORDS"
    using touch_words_in_bounds [OF Cons.prems, of "round mod WORDS"] by fastforce
  with Cons.IH show ?case by simp
qed simp

lemma touch_memory_in_bounds:
  "length mem = WORDS \<Longrightarrow> \<exists>acc mem'. touch_memory rounds stride mem = Some (acc, mem') \<and> length mem' = WORDS"
  by (simp add: touch_memory_def touch_rounds_in_bounds)

text \<open>C36: on its array the benchmark guest never reads or writes out of bounds: every turn returns,
  with one of the results 0, 1 and 2, and with an array of the same size; the result 1 is returned
  exactly for an unknown role or a sender without a valid bit, and then, as for a control turn, the
  array is unchanged.\<close>

theorem bench_turn_in_bounds:
  assumes "length mem = WORDS"
  shows "\<exists>result mem'. bench_turn role b trial_low trial_high profile_word mem = Some (result, mem') \<and>
     result \<in> {0, 1, 2} \<and> length mem' = WORDS \<and>
     (result = 1 \<longleftrightarrow> \<not> (role \<in> {1, 2, 3} \<or> role = 0 \<and> b \<in> {0, 1})) \<and>
     (result = 1 \<or> role = 3 \<longrightarrow> mem' = mem)"
proof -
  have "\<exists>acc mem'. sender b profile_word mem = Some (acc, mem') \<and> length mem' = WORDS"
    "\<exists>acc mem'. probe profile_word mem = Some (acc, mem') \<and> length mem' = WORDS"
    "\<exists>acc mem'. background profile_word mem = Some (acc, mem') \<and> length mem' = WORDS"
    "\<exists>acc. control profile_word mem = Some (acc, mem)"
    using touch_memory_in_bounds [OF assms]
    by (fastforce simp: sender_def probe_def background_def control_def Let_def)+
  with assms show ?thesis
    by (elim exE conjE) (simp add: bench_turn_def Let_def)
qed

theorem bench_turn_in_bounds_witness:
  "\<exists>result mem'. bench_turn 0 1 5 0 0 (replicate WORDS 0) = Some (result, mem') \<and> length mem' = WORDS \<and> result \<noteq> 1"
  using bench_turn_in_bounds [of "replicate WORDS 0" 0 1 5 0 0] by auto

section \<open>Bounded work\<close>

lemma iteration_count_bounds:
  "unat fallback \<le> 100000 \<Longrightarrow> 0 < fallback \<Longrightarrow> unat (iteration_count profile_word fallback) \<in> {1..100000}"
proof -
  assume d: "unat fallback \<le> 100000" "0 < fallback"
  have "1 \<le> unat w" if "w \<noteq> 0" for w :: u32 using that by (simp add: Suc_le_eq unat_gt_0)
  moreover have "unat (min w 100000) = min (unat w) 100000" for w :: u32
    by (simp add: min_def word_le_nat_alt)
  ultimately show ?thesis using d by (simp add: iteration_count_def Let_def word_less_nat_alt)
qed

text \<open>With a positive count in the profile word, the two bits of a sender differ only in the stride of
  their memory accesses: the number of rounds and the arithmetic are the same.\<close>

lemma sender_bits_same_rounds:
  "profile_word AND 0x000fffff \<noteq> 0 \<Longrightarrow>
   sender b profile_word mem =
     (let rounds = min (profile_word AND 0x000fffff) 100000
      in map_option (map_prod (\<lambda>acc. acc XOR spin (rounds div 2 + 1)) id)
           (touch_memory rounds (if b = 1 then 17 else 1021) mem))"
  by (simp add: sender_def iteration_count_def Let_def)

text \<open>The multiplication in \<open>spin\<close> never saturates for the counts of a turn.\<close>

lemma spin_unsaturated:
  "unat rounds \<le> 100001 \<Longrightarrow> spin rounds = fold spin_step [0..<128 * unat rounds] 0x243f6a88"
  by (simp add: spin_def saturating_mul_def unat_word_ariths mult.commute)

end
