(* ===== verification/Float64.thy ===== *)
theory Float64
  imports Complex_Main
begin

text \<open>
  The type \<open>f64\<close> as the benchmark clients use it: IEEE 754 binary64 with round-to-nearest-even. A
  value is a real number, an infinity or not-a-number; the sign of a zero and the payload of a
  not-a-number are left out, because no operation of the sources can see them. An operation rounds its exact result. The two
  things that the standard library leaves to the platform or that a theorem may want to idealise,
  rounding and the binary logarithm, are the fields of a record: \<open>ieee\<close> is the deployed arithmetic (with
  the logarithm of the platform as a parameter), \<open>exact\<close> that of the real numbers.
\<close>

section \<open>Values and operations\<close>

datatype f64 = Fin real | PosInf | NegInf | NaN

record arith =
  rnd :: "real \<Rightarrow> f64"
  lg2 :: "real \<Rightarrow> f64"

definition is_finite :: "f64 \<Rightarrow> bool" where
  "is_finite x = (case x of Fin _ \<Rightarrow> True | _ \<Rightarrow> False)"

fun fneg :: "f64 \<Rightarrow> f64" where
  "fneg (Fin a) = Fin (- a)"
| "fneg PosInf = NegInf"
| "fneg NegInf = PosInf"
| "fneg NaN = NaN"

fun fadd :: "arith \<Rightarrow> f64 \<Rightarrow> f64 \<Rightarrow> f64" where
  "fadd A (Fin a) (Fin b) = rnd A (a + b)"
| "fadd A NaN y = NaN"
| "fadd A x NaN = NaN"
| "fadd A PosInf NegInf = NaN"
| "fadd A NegInf PosInf = NaN"
| "fadd A PosInf y = PosInf"
| "fadd A NegInf y = NegInf"
| "fadd A x y = y"

definition fsub :: "arith \<Rightarrow> f64 \<Rightarrow> f64 \<Rightarrow> f64" where
  "fsub A x y = fadd A x (fneg y)"

definition signed_inf :: "real \<Rightarrow> f64" where
  "signed_inf s = (if s = 0 then NaN else if 0 < s then PosInf else NegInf)"

text \<open>The sign of a value that is a number, for the products and quotients with infinities.\<close>

fun fsgn :: "f64 \<Rightarrow> real" where
  "fsgn (Fin a) = sgn a"
| "fsgn PosInf = 1"
| "fsgn NegInf = - 1"
| "fsgn NaN = 0"

fun fmul :: "arith \<Rightarrow> f64 \<Rightarrow> f64 \<Rightarrow> f64" where
  "fmul A (Fin a) (Fin b) = rnd A (a * b)"
| "fmul A x y = (if x = NaN \<or> y = NaN then NaN else signed_inf (fsgn x * fsgn y))"

text \<open>Division by zero takes the zero as positive.\<close>

fun fdiv :: "arith \<Rightarrow> f64 \<Rightarrow> f64 \<Rightarrow> f64" where
  "fdiv A (Fin a) (Fin b) = (if b = 0 then signed_inf a else rnd A (a / b))"
| "fdiv A NaN y = NaN"
| "fdiv A x NaN = NaN"
| "fdiv A (Fin a) y = Fin 0"
| "fdiv A x (Fin b) = signed_inf (fsgn x * (if b < 0 then - 1 else 1))"
| "fdiv A x y = NaN"

fun flog2 :: "arith \<Rightarrow> f64 \<Rightarrow> f64" where
  "flog2 A (Fin a) = (if a < 0 then NaN else if a = 0 then NegInf else lg2 A a)"
| "flog2 A PosInf = PosInf"
| "flog2 A NegInf = NaN"
| "flog2 A NaN = NaN"

text \<open>Comparisons are false on not-a-number; \<open>f64::max\<close> ignores one.\<close>

fun fle :: "f64 \<Rightarrow> f64 \<Rightarrow> bool" where
  "fle NaN y = False"
| "fle x NaN = False"
| "fle NegInf y = True"
| "fle x PosInf = True"
| "fle (Fin a) (Fin b) = (a \<le> b)"
| "fle x y = False"

definition flt :: "f64 \<Rightarrow> f64 \<Rightarrow> bool" where
  "flt x y \<longleftrightarrow> fle x y \<and> \<not> fle y x"

definition fmax :: "f64 \<Rightarrow> f64 \<Rightarrow> f64" where
  "fmax x y = (if x = NaN then y else if y = NaN then x else if fle x y then y else x)"

text \<open>An integer as \<open>f64\<close>.\<close>

definition of_int64 :: "arith \<Rightarrow> nat \<Rightarrow> f64" where
  "of_int64 A n = rnd A (real n)"

definition exact :: arith where
  "exact = \<lparr>rnd = Fin, lg2 = \<lambda>x. Fin (log 2 x)\<rparr>"

text \<open>Round to nearest, ties to even: first among the integers, then on the grid of the binade of the
  argument, whose spacing is \<open>2\<^sup>e\<^sup>-\<^sup>5\<^sup>2\<close> for the exponent \<open>e \<ge> - 1022\<close>.\<close>

definition rne :: "real \<Rightarrow> int" where
  "rne x = (let f = \<lfloor>x\<rfloor>; d = x - of_int f in if d < 1 / 2 \<or> d = 1 / 2 \<and> even f then f else f + 1)"

definition grid_round :: "real \<Rightarrow> real \<Rightarrow> real" where
  "grid_round u x = of_int (rne (x / u)) * u"

definition exponent :: "real \<Rightarrow> int" where
  "exponent x = max \<lfloor>log 2 \<bar>x\<bar>\<rfloor> (- 1022)"

definition spacing :: "real \<Rightarrow> real" where
  "spacing x = 2 powr of_int (exponent x - 52)"

definition round64 :: "real \<Rightarrow> real" where
  "round64 x = (if x = 0 then 0 else grid_round (spacing x) x)"

definition rnd64 :: "real \<Rightarrow> f64" where
  "rnd64 x = (let r = round64 x in if 2 ^ 1024 \<le> r then PosInf else if r \<le> - (2 ^ 1024) then NegInf else Fin r)"

definition ieee :: "(real \<Rightarrow> f64) \<Rightarrow> arith" where
  "ieee log2 = \<lparr>rnd = rnd64, lg2 = log2\<rparr>"

section \<open>The order of the values\<close>

text \<open>The order of \<open>f64::total_cmp\<close>, by which the clients sort; no list that they sort can have a
  not-a-number, which is put last here.\<close>

instantiation f64 :: linorder
begin

fun rank :: "f64 \<Rightarrow> nat \<times> real" where
  "rank NegInf = (0, 0)"
| "rank (Fin a) = (1, a)"
| "rank PosInf = (2, 0)"
| "rank NaN = (3, 0)"

definition less_eq_f64 :: "f64 \<Rightarrow> f64 \<Rightarrow> bool" where
  "less_eq_f64 x y \<longleftrightarrow> fst (rank x) < fst (rank y) \<or> fst (rank x) = fst (rank y) \<and> snd (rank x) \<le> snd (rank y)"

definition less_f64 :: "f64 \<Rightarrow> f64 \<Rightarrow> bool" where
  "less_f64 x y \<longleftrightarrow> x \<le> y \<and> \<not> y \<le> (x :: f64)"

instance
proof
  fix x y z :: f64
  show "x < y \<longleftrightarrow> x \<le> y \<and> \<not> y \<le> x" by (rule less_f64_def)
  show "x \<le> x" by (simp add: less_eq_f64_def)
  show "x \<le> y \<Longrightarrow> y \<le> z \<Longrightarrow> x \<le> z" by (auto simp: less_eq_f64_def)
  show "x \<le> y \<Longrightarrow> y \<le> x \<Longrightarrow> x = y" by (cases x; cases y) (auto simp: less_eq_f64_def)
  show "x \<le> y \<or> y \<le> x" by (auto simp: less_eq_f64_def)
qed

end

lemma le_Fin_iff [simp]: "Fin a \<le> Fin b \<longleftrightarrow> a \<le> b"
  by (simp add: less_eq_f64_def)

lemma not_le_inf [simp]: "\<not> PosInf \<le> Fin a" "\<not> Fin a \<le> NegInf" "\<not> NaN \<le> Fin a"
  by (simp_all add: less_eq_f64_def)

text \<open>Away from not-a-number the comparison operators agree with this order.\<close>

lemma fle_iff: "fle x y \<longleftrightarrow> x \<le> y \<and> y \<noteq> NaN \<and> x \<noteq> NaN"
  by (cases x; cases y) (simp_all add: less_eq_f64_def)

lemma between_Fin: "Fin a \<le> x \<Longrightarrow> x \<le> Fin b \<Longrightarrow> \<exists>r. x = Fin r \<and> a \<le> r \<and> r \<le> b"
  by (cases x) simp_all

lemma fmax_zero: "x = NaN \<or> x \<le> y \<Longrightarrow> y \<noteq> NaN \<Longrightarrow> fmax x y = y"
  by (auto simp: fmax_def fle_iff)

lemma fmax_number: "y \<noteq> NaN \<Longrightarrow> fmax x y \<noteq> NaN \<and> y \<le> fmax x y"
  by (auto simp: fmax_def fle_iff)

section \<open>What is used of an arithmetic\<close>

locale rounding =
  fixes A :: arith
  assumes rnd_mono: "x \<le> y \<Longrightarrow> rnd A x \<le> rnd A y"
    and rnd_nat: "n \<le> 2 ^ 53 \<Longrightarrow> rnd A (real n) = Fin (real n)"
    and rnd_number: "rnd A x \<noteq> NaN"
begin

lemma rnd_0 [simp]: "rnd A 0 = Fin 0"
  using rnd_nat [of 0] by simp

lemma rnd_1 [simp]: "rnd A 1 = Fin 1"
  using rnd_nat [of 1] by simp

lemma rnd_nonneg: "0 \<le> x \<Longrightarrow> Fin 0 \<le> rnd A x"
  using rnd_mono [of 0 x] by simp

lemma rnd_unit: "0 \<le> x \<Longrightarrow> x \<le> 1 \<Longrightarrow> \<exists>r. rnd A x = Fin r \<and> 0 \<le> r \<and> r \<le> 1"
  using between_Fin rnd_mono [of 0 x] rnd_mono [of x 1] by simp

text \<open>A quotient of counts is a number between zero and one.\<close>

lemma fdiv_nat_unit:
  assumes "m \<le> n" "0 < n" "n \<le> 2 ^ 53"
  shows "\<exists>r. fdiv A (of_int64 A m) (of_int64 A n) = Fin r \<and> 0 \<le> r \<and> r \<le> 1"
  using assms rnd_unit [of "real m / real n"] by (simp add: of_int64_def rnd_nat)

end

interpretation exact: rounding exact
  by unfold_locales (simp_all add: exact_def)

section \<open>The deployed rounding satisfies it\<close>

lemma rne_of_int [simp]: "rne (of_int k) = k"
  by (simp add: rne_def)

lemma rne_near: "\<bar>x - of_int (rne x)\<bar> \<le> 1 / 2"
  unfolding rne_def Let_def by (smt (verit) floor_correct of_int_1 of_int_add field_sum_of_halves)

lemma rne_mono: "x \<le> y \<Longrightarrow> rne x \<le> rne y"
proof (cases "\<lfloor>x\<rfloor> = \<lfloor>y\<rfloor>")
  case True
  assume "x \<le> y"
  then show ?thesis by (auto simp: rne_def True Let_def)
next
  case False
  assume "x \<le> y"
  then have "\<lfloor>x\<rfloor> + 1 \<le> \<lfloor>y\<rfloor>" using False floor_mono [of x y] by simp
  moreover have "rne x \<le> \<lfloor>x\<rfloor> + 1" "\<lfloor>y\<rfloor> \<le> rne y" by (simp_all add: rne_def Let_def)
  ultimately show ?thesis by linarith
qed

lemma rne_minus: "rne (- x) = - rne x"
proof (cases "x = of_int \<lfloor>x\<rfloor>")
  case True
  then have "rne x = \<lfloor>x\<rfloor>" "rne (- x) = - \<lfloor>x\<rfloor>" by (metis rne_of_int, metis rne_of_int of_int_minus)
  then show ?thesis by simp
next
  case False
  then have f: "\<lfloor>- x\<rfloor> = - \<lfloor>x\<rfloor> - 1" by linarith
  show ?thesis unfolding rne_def Let_def f by (auto simp: field_simps)
qed

lemma grid_round_mono: "0 < u \<Longrightarrow> x \<le> y \<Longrightarrow> grid_round u x \<le> grid_round u y"
  by (simp add: grid_round_def rne_mono divide_right_mono)

lemma grid_round_on: "0 < u \<Longrightarrow> x = of_int k * u \<Longrightarrow> grid_round u x = x"
  by (simp add: grid_round_def)

lemma spacing_pos [simp]: "0 < spacing x"
  by (simp add: spacing_def)

lemma round64_minus: "round64 (- x) = - round64 x"
  by (simp add: round64_def grid_round_def spacing_def exponent_def rne_minus)

lemma powr_grid:
  assumes "i \<le> j"
  shows "\<exists>k. 2 powr of_int j = of_int k * (2 :: real) powr of_int i"
proof -
  have "(2 :: real) powr of_int j = 2 powr real (nat (j - i)) * 2 powr of_int i"
    using assms by (simp flip: powr_add)
  also have "2 powr real (nat (j - i)) = of_int (2 ^ nat (j - i))"
    by (simp add: powr_realpow)
  finally show ?thesis by blast
qed

lemma round64_mono_pos:
  assumes "0 < x" "x \<le> y"
  shows "round64 x \<le> round64 y"
proof (cases "exponent x = exponent y")
  case True
  then have "spacing x = spacing y" by (simp add: spacing_def)
  then show ?thesis using assms by (simp add: round64_def grid_round_mono)
next
  case False
  have "\<lfloor>log 2 x\<rfloor> \<le> \<lfloor>log 2 y\<rfloor>" using assms by (intro floor_mono) simp
  then have lt: "exponent x < exponent y" using False assms by (auto simp: exponent_def)
  then have ey: "exponent y = \<lfloor>log 2 y\<rfloor>" using assms by (auto simp: exponent_def)
  let ?p = "2 powr of_int (exponent y) :: real"
  have "log 2 x < of_int (exponent x) + 1" using assms(1) unfolding exponent_def by (simp; linarith)
  then have "log 2 x \<le> of_int (exponent y)" using lt by linarith
  then have xp: "x \<le> ?p" using assms(1) by (simp add: log_le_iff)
  have py: "?p \<le> y" using assms by (simp add: ey le_log_iff [symmetric])
  have "grid_round (spacing x) x \<le> ?p"
  proof -
    obtain k where "?p = of_int k * spacing x"
      using powr_grid [of "exponent x - 52" "exponent y"] lt by (auto simp: spacing_def)
    then have "grid_round (spacing x) ?p = ?p" by (rule grid_round_on [OF spacing_pos])
    then show ?thesis using grid_round_mono [OF spacing_pos xp] by metis
  qed
  also have "?p \<le> grid_round (spacing y) y"
  proof -
    obtain k where "?p = of_int k * spacing y"
      using powr_grid [of "exponent y - 52" "exponent y"] by (auto simp: spacing_def)
    then have "grid_round (spacing y) ?p = ?p" by (rule grid_round_on [OF spacing_pos])
    then show ?thesis using grid_round_mono [OF spacing_pos py] by metis
  qed
  finally show ?thesis using assms by (simp add: round64_def)
qed

lemma round64_nonneg: "0 \<le> x \<Longrightarrow> 0 \<le> round64 x"
  using grid_round_mono [OF spacing_pos, of 0 x x] grid_round_on [OF spacing_pos, of 0 0 x]
  by (simp add: round64_def)

lemma round64_mono: "x \<le> y \<Longrightarrow> round64 x \<le> round64 y"
proof -
  assume le: "x \<le> y"
  consider "0 < x" | "y < 0" | "x \<le> 0" "0 \<le> y" by linarith
  then show ?thesis
  proof cases
    case 1
    then show ?thesis using le by (rule round64_mono_pos)
  next
    case 2
    then show ?thesis using round64_mono_pos [of "- y" "- x"] le by (simp add: round64_minus)
  next
    case 3
    then show ?thesis using round64_nonneg [of y] round64_nonneg [of "- x"] by (simp add: round64_minus)
  qed
qed

text \<open>Integers up to \<open>2\<^sup>5\<^sup>3\<close> are represented exactly.\<close>

lemma round64_nat:
  assumes "n \<le> 2 ^ 53"
  shows "round64 (real n) = real n"
proof (cases "n = 0 \<or> n = 2 ^ 53")
  case True
  have "log 2 (2 ^ 53 :: real) = 53" using log_nat_power [of 2 2 53] by (simp del: power_numeral)
  then have "exponent (2 ^ 53) = 53" by (simp add: exponent_def)
  then have "grid_round (spacing (2 ^ 53)) (2 ^ 53) = 2 ^ 53"
    by (intro grid_round_on [of _ _ "2 ^ 52"]) (simp_all add: spacing_def)
  with True show ?thesis by (auto simp: round64_def)
next
  case False
  then have n: "0 < n" "n < 2 ^ 53" using assms by auto
  then have "real n < 2 powr 53" using of_nat_less_iff [of n "2 ^ 53", where 'a = real] by simp
  then have "log 2 (real n) < 53" using n(1) by (simp add: log_less_iff)
  then have "exponent (real n) \<le> 52" using n(1) by (simp add: exponent_def floor_le_iff)
  then obtain k where "1 = of_int k * spacing (real n)"
    using powr_grid [of "exponent (real n) - 52" 0] by (auto simp: spacing_def)
  then have "real n = of_int (int n * k) * spacing (real n)"
    by (simp add: mult.assoc)
  from grid_round_on [OF spacing_pos this] show ?thesis using n(1) by (simp add: round64_def)
qed

interpretation ieee: rounding "ieee log2" for log2 :: "real \<Rightarrow> f64"
proof unfold_locales
  show "x \<le> y \<Longrightarrow> rnd (ieee log2) x \<le> rnd (ieee log2) y" for x y
    using round64_mono [of x y] by (auto simp: ieee_def rnd64_def Let_def less_eq_f64_def)
  show "n \<le> 2 ^ 53 \<Longrightarrow> rnd (ieee log2) (real n) = Fin (real n)" for n
    by (simp add: ieee_def rnd64_def round64_nat)
  show "rnd (ieee log2) x \<noteq> NaN" for x
    by (simp add: ieee_def rnd64_def Let_def)
qed

end
