(* ===== verification/Protocol.thy ===== *)
theory Protocol
  imports Ishtar_Prelude Float64
begin

text \<open>
  The crate \<open>crates/protocol/src/lib.rs\<close>: the messages and records of the synthetic leakage lab, the
  validation of session identifiers and of experiment profiles, the fixed body of a turn response, and
  the rate estimate of the report. The JSON encoding derived by serde and the hash \<open>sha256_hex\<close>, a
  call into the sha2 and hex crates, are not modelled.
\<close>

unbundle bit_operations_syntax

section \<open>Constants, errors, requests and responses\<close>

definition DEFAULT_IDLE_EXPIRY_MS :: u64 where
  "DEFAULT_IDLE_EXPIRY_MS = 300000"

definition MAX_SESSION_ID_BYTES :: nat where
  "MAX_SESSION_ID_BYTES = 128"

datatype protocol_error = ProtocolError string

record create_session_request =
  csq_session_id :: "string option"

record create_session_response =
  csr_session_id :: string
  csr_bearer_token :: string
  csr_expires_after_idle_ms :: u64

datatype worker_role = WSender | WProbe | WBackground | WControl

fun abi_value :: "worker_role \<Rightarrow> i32" where
  "abi_value WSender = 0"
| "abi_value WProbe = 1"
| "abi_value WBackground = 2"
| "abi_value WControl = 3"

record bench_turn_request =
  btq_role :: worker_role
  btq_bit :: "u8 option"
  btq_trial_id :: u64
  btq_profile_id :: string
  btq_payload_len :: "u32 option"

record bench_turn_response =
  btr_session_id :: string
  btr_trial_id :: u64
  btr_fixed_body :: string
  btr_server_trace_id :: u64

record experiment_profile =
  ep_id :: string
  ep_description :: string
  ep_attacker_favorable :: bool
  ep_max_parallel_turns :: usize
  ep_trials :: u64
  ep_synthetic_bits :: u64
  ep_background_sessions :: usize
  ep_sender_sessions :: usize
  ep_probe_sessions :: usize
  ep_turn_fuel :: u64
  ep_sender_hot_iterations :: u64
  ep_sender_cold_iterations :: u64
  ep_probe_iterations :: u64
  ep_wasm_memory_pages :: u32
  ep_fixed_response_bytes :: usize
  ep_dispatch_jitter_min_us :: u64
  ep_dispatch_jitter_max_us :: u64
  ep_release_epoch_us :: u64
  ep_target_overlap_us :: "u64 list"
  ep_session_idle_expiry_ms :: u64
  ep_request_timeout_ms :: u64

record experiment_start_request =
  esr_profile_id :: string
  esr_seed :: "u64 option"
  esr_notes :: "string option"

record runtime_profile =
  rp_wasm_engine :: string
  rp_interpreter_only :: bool
  rp_wasi_enabled :: bool
  rp_imports_enabled :: bool
  rp_threads_enabled :: bool
  rp_shared_memory_enabled :: bool
  rp_clocks_available_to_guest :: bool
  rp_runner_process_per_turn :: bool
  rp_linux_seccomp_requested :: bool
  rp_linux_seccomp_applied :: bool
  rp_linux_landlock_requested :: bool
  rp_linux_landlock_applied :: bool
  rp_no_new_privs_applied :: bool
  rp_rlimits_applied :: bool
  rp_sandbox_notes :: "string list"

record experiment_run_info =
  ri_run_id :: string
  ri_profile :: experiment_profile
  ri_started_at_unix_ms :: u64
  ri_scheduler_version :: string
  ri_wasm_sha256_hex :: string
  ri_container_config_sha256_hex :: "string option"
  ri_tinfoil_attestation_sha256_hex :: "string option"
  ri_runtime_profile :: runtime_profile
  ri_completed :: bool
  ri_records_dropped :: u64

section \<open>Records and reports\<close>

type_synonym u128 = "128 word"

record server_timing_record =
  st_trace_id :: u64
  st_trial_id :: u64
  st_role :: worker_role
  st_queued_at_ns :: u128
  st_dispatch_at_ns :: u128
  st_runner_start_at_ns :: u128
  st_wasm_enter_at_ns :: u128
  st_wasm_exit_at_ns :: u128
  st_response_release_at_ns :: u128
  st_fuel_consumed :: "u64 option"
  st_timed_out :: bool
  st_trap :: "string option"

record client_timing_record =
  ct_trace_id :: u64
  ct_trial_id :: u64
  ct_role :: worker_role
  ct_sent_at_ns :: u128
  ct_first_byte_at_ns :: "u128 option"
  ct_completed_at_ns :: u128
  ct_status :: u16
  ct_decoded_bit :: "u8 option"

record overlap_summary_t =
  ov_samples :: u64
  ov_min_us :: f64
  ov_p50_us :: f64
  ov_p95_us :: f64
  ov_max_us :: f64

record latency_summary_t =
  la_samples :: u64
  la_min_us :: f64
  la_p50_us :: f64
  la_p95_us :: f64
  la_p99_us :: f64
  la_max_us :: f64

record utilization_summary_t =
  ut_completed_turns :: u64
  ut_trapped_turns :: u64
  ut_timed_out_turns :: u64
  ut_total_wasm_time_ms :: f64
  ut_wall_time_ms :: f64

record offset_leakage_summary =
  ol_target_overlap_us :: u64
  ol_calibration_zero_mean_us :: f64
  ol_calibration_one_mean_us :: f64
  ol_calibration_threshold_us :: f64
  ol_high_latency_is_one :: bool
  ol_usable_trials :: u64
  ol_bit_error_rate :: f64
  ol_mutual_information_bits_per_trial :: f64
  ol_corrected_mutual_information_bits_per_trial :: f64
  ol_permutation_p_value :: f64

record leakage_report =
  lr_run_id :: string
  lr_profile_id :: string
  lr_seed :: u64
  lr_control :: bool
  lr_run_info :: experiment_run_info
  lr_synthetic_bits :: "u8 list"
  lr_target_overlap_us_by_trial :: "u64 list"
  lr_total_trials :: u64
  lr_calibration_trials :: u64
  lr_usable_trials :: u64
  lr_probe_aggregation :: string
  lr_bit_error_rate :: f64
  lr_false_positive_rate :: f64
  lr_false_negative_rate :: f64
  lr_false_discovery_rate :: f64
  lr_mutual_information_bits_per_trial :: f64
  lr_corrected_mutual_information_bits_per_trial :: f64
  lr_raw_reliable_bits_per_hour :: f64
  lr_corrected_reliable_bits_per_hour :: f64
  lr_reliable_bits_per_hour :: f64
  lr_raw_information_bits_observed :: f64
  lr_corrected_information_bits_observed :: f64
  lr_scored_trials_per_hour :: f64
  lr_permutation_p_value :: f64
  lr_statistically_detected :: bool
  lr_permutation_null_mean :: f64
  lr_permutation_null_p95 :: f64
  lr_confidence_low :: f64
  lr_confidence_high :: f64
  lr_offset_summaries :: "offset_leakage_summary list"
  lr_overlap_summary :: overlap_summary_t
  lr_latency_histogram :: latency_summary_t
  lr_utilization :: utilization_summary_t
  lr_server_records :: "server_timing_record list"
  lr_client_records :: "client_timing_record list"

section \<open>Validation\<close>

definition is_ascii_digit :: "char \<Rightarrow> bool" where
  "is_ascii_digit c \<longleftrightarrow> (let k = of_char c :: nat in 48 \<le> k \<and> k \<le> 57)"

definition is_ascii_lowercase :: "char \<Rightarrow> bool" where
  "is_ascii_lowercase c \<longleftrightarrow> (let k = of_char c :: nat in 97 \<le> k \<and> k \<le> 122)"

definition is_ascii_uppercase :: "char \<Rightarrow> bool" where
  "is_ascii_uppercase c \<longleftrightarrow> (let k = of_char c :: nat in 65 \<le> k \<and> k \<le> 90)"

definition is_ascii_alphanumeric :: "char \<Rightarrow> bool" where
  "is_ascii_alphanumeric c \<longleftrightarrow> is_ascii_digit c \<or> is_ascii_lowercase c \<or> is_ascii_uppercase c"

definition validate_session_id :: "string \<Rightarrow> protocol_error + unit" where
  "validate_session_id value =
     (if value = [] \<or> MAX_SESSION_ID_BYTES < length value
      then Inl (ProtocolError ''session_id must contain 1..=128 ASCII bytes'')
      else if \<not> list_all (\<lambda>b. is_ascii_alphanumeric b \<or> b \<in> set ''._:-'') value
      then Inl (ProtocolError ''session_id contains a forbidden character'')
      else Inr ())"

definition validate_profile :: "experiment_profile \<Rightarrow> protocol_error + unit" where
  "validate_profile profile =
     (if ep_id profile = [] \<or> 64 < length (ep_id profile) \<or>
         \<not> list_all (\<lambda>b. is_ascii_lowercase b \<or> is_ascii_digit b \<or> b = CHR ''-'') (ep_id profile)
      then Inl (ProtocolError ''profile id must match [a-z0-9-]{1,64}'')
      else if \<not> (1 \<le> ep_max_parallel_turns profile \<and> ep_max_parallel_turns profile \<le> 256)
      then Inl (ProtocolError ''max_parallel_turns must be 1..=256'')
      else if \<not> (64 \<le> ep_fixed_response_bytes profile \<and> ep_fixed_response_bytes profile \<le> 4096)
      then Inl (ProtocolError ''fixed_response_bytes must be 64..=4096'')
      else if ep_turn_fuel profile = 0 \<or> ep_request_timeout_ms profile = 0 \<or> ep_wasm_memory_pages profile = 0
      then Inl (ProtocolError ''fuel, timeout, and memory limits must be nonzero'')
      else if ep_dispatch_jitter_max_us profile < ep_dispatch_jitter_min_us profile
      then Inl (ProtocolError ''dispatch jitter bounds are reversed'')
      else if ep_target_overlap_us profile = [] \<or>
              \<not> List.member (ep_target_overlap_us profile) 0 \<or>
              \<not> list_ex (\<lambda>v. 0 < v \<and> v < 1000) (ep_target_overlap_us profile) \<or>
              \<not> list_ex (\<lambda>v. 1000 \<le> v) (ep_target_overlap_us profile)
      then Inl (ProtocolError ''target_overlap_us must contain zero, sub-ms, and long-overlap values'')
      else if \<not> ep_attacker_favorable profile
      then (if ep_release_epoch_us profile = 0
            then Inl (ProtocolError ''realistic profiles require response quantization'')
            else if DEFAULT_IDLE_EXPIRY_MS < ep_session_idle_expiry_ms profile
            then Inl (ProtocolError ''realistic profiles may not exceed five-minute idle expiry'')
            else Inr ())
      else Inr ())"

section \<open>The fixed response\<close>

definition hex_digit :: "nat \<Rightarrow> char" where
  "hex_digit d = char_of (if d < 10 then 48 + d else 87 + d)"

text \<open>Lower-case hexadecimal with sixteen digits (\<open>{:016x}\<close>).\<close>

definition hex16 :: "u64 \<Rightarrow> string" where
  "hex16 w = map (\<lambda>i. hex_digit (unat w div 16 ^ (15 - i) mod 16)) [0..<16]"

definition response_seed :: "u64 \<Rightarrow> string" where
  "response_seed trace_id = ''trace-'' @ hex16 trace_id @ ''-synthetic-only-''"

definition fixed_response :: "u64 \<Rightarrow> nat \<Rightarrow> string" where
  "fixed_response trace_id len =
     (let seed = response_seed trace_id in map (\<lambda>i. seed ! (i mod length seed)) [0..<len])"

section \<open>The rate estimate\<close>

definition estimate_reliable_bits_per_hour :: "arith \<Rightarrow> f64 \<Rightarrow> f64 \<Rightarrow> f64" where
  "estimate_reliable_bits_per_hour A mi_bits_per_trial trials_per_hour =
     (if \<not> is_finite mi_bits_per_trial \<or> \<not> is_finite trials_per_hour then Fin 0
      else fmul A (fmax mi_bits_per_trial (Fin 0)) (fmax trials_per_hour (Fin 0)))"

section \<open>Properties\<close>

text \<open>Chains of early returns.\<close>

lemma guard_Inr_iff: "(if c then Inl e else r) = Inr v \<longleftrightarrow> \<not> c \<and> r = Inr v"
  by simp

lemma validate_session_id_iff:
  "validate_session_id value = Inr () \<longleftrightarrow>
     value \<noteq> [] \<and> length value \<le> 128 \<and>
     (\<forall>b \<in> set value. is_ascii_alphanumeric b \<or> b \<in> {CHR ''.'', CHR ''_'', CHR '':'', CHR ''-''})"
  by (auto simp: validate_session_id_def MAX_SESSION_ID_BYTES_def list_all_iff)

text \<open>A profile is accepted exactly if its identifier is one to 64 lower-case letters, digits and
  dashes, all its limits are within their ranges, the overlaps have a zero, a value below and a value
  from one millisecond, and, unless it is attacker-favourable, responses are quantised and sessions
  expire within five minutes.\<close>

theorem validate_profile_iff:
  "validate_profile p = Inr () \<longleftrightarrow>
     ep_id p \<noteq> [] \<and> length (ep_id p) \<le> 64 \<and>
     set (ep_id p) \<subseteq> {c. is_ascii_lowercase c \<or> is_ascii_digit c \<or> c = CHR ''-''} \<and>
     unat (ep_max_parallel_turns p) \<in> {1..256} \<and> unat (ep_fixed_response_bytes p) \<in> {64..4096} \<and>
     0 \<notin> {ep_turn_fuel p, ep_request_timeout_ms p} \<and> ep_wasm_memory_pages p \<noteq> 0 \<and>
     ep_dispatch_jitter_min_us p \<le> ep_dispatch_jitter_max_us p \<and>
     0 \<in> set (ep_target_overlap_us p) \<and>
     set (ep_target_overlap_us p) \<inter> {1..999} \<noteq> {} \<and> set (ep_target_overlap_us p) \<inter> {1000..} \<noteq> {} \<and>
     (ep_attacker_favorable p \<or>
      0 < ep_release_epoch_us p \<and> unat (ep_session_idle_expiry_ms p) \<le> 5 * 60 * 1000)"
proof -
  have range: "1 \<le> w \<and> w \<le> 256 \<longleftrightarrow> unat w \<in> {1..256}" "64 \<le> w \<and> w \<le> 4096 \<longleftrightarrow> unat w \<in> {64..4096}"
    for w :: usize
    by (simp_all add: word_le_nat_alt)
  have sub: "list_ex (\<lambda>v. 0 < v \<and> v < 1000) vs \<longleftrightarrow> set vs \<inter> {1..999} \<noteq> {}" for vs :: "u64 list"
  proof -
    have "0 < v \<and> v < 1000 \<longleftrightarrow> v \<in> {1..999}" for v :: u64
      by (auto simp: word_le_nat_alt word_less_nat_alt)
    then show ?thesis by (auto simp: list_ex_iff)
  qed
  have long: "list_ex (\<lambda>v. 1000 \<le> v) vs \<longleftrightarrow> set vs \<inter> {1000..} \<noteq> {}" for vs :: "u64 list"
    by (auto simp: list_ex_iff)
  have idle: "\<not> DEFAULT_IDLE_EXPIRY_MS < v \<longleftrightarrow> unat v \<le> 5 * 60 * 1000" for v
    by (simp add: DEFAULT_IDLE_EXPIRY_MS_def word_less_nat_alt not_less)
  show ?thesis
    unfolding validate_profile_def guard_Inr_iff range [symmetric] sub [symmetric] long [symmetric] idle [symmetric]
    by (cases "ep_attacker_favorable p") (auto simp: guard_Inr_iff list_all_iff word_neq_0_conv split del: if_split)
qed

text \<open>The sixteen digits determine the number.\<close>

lemma digits_determine:
  "(\<And>i. i < k \<Longrightarrow> (n :: nat) div 16 ^ i mod 16 = m div 16 ^ i mod 16) \<Longrightarrow> n mod 16 ^ k = m mod 16 ^ k"
proof (induction k)
  case (Suc k)
  have "v mod 16 ^ Suc k = 16 ^ k * (v div 16 ^ k mod 16) + v mod 16 ^ k" for v :: nat
    using mod_mult2_eq [of v "16 ^ k" 16] by (simp add: mult.commute)
  then show ?case using Suc by simp
qed simp

lemma hex_digit_inj: "a < 16 \<Longrightarrow> b < 16 \<Longrightarrow> hex_digit a = hex_digit b \<Longrightarrow> a = b"
proof -
  assume less: "a < 16" "b < 16" and "hex_digit a = hex_digit b"
  then have "(of_char (hex_digit a) :: nat) = of_char (hex_digit b)" by simp
  then show "a = b" using less by (auto simp: hex_digit_def split: if_splits)
qed

lemma length_hex16 [simp]: "length (hex16 w) = 16"
  by (simp add: hex16_def)

lemma hex16_inj: "hex16 v = hex16 w \<Longrightarrow> v = w"
proof -
  assume eq: "hex16 v = hex16 w"
  have "unat v div 16 ^ i mod 16 = unat w div 16 ^ i mod 16" if "i < 16" for i
  proof -
    have nth: "hex16 x ! (15 - i) = hex_digit (unat x div 16 ^ i mod 16)" for x
    proof -
      have "[0..<16] ! (15 - i) = 15 - i" using nth_upt [of 0 "15 - i" 16] by simp
      then show ?thesis using that by (simp add: hex16_def)
    qed
    show ?thesis using arg_cong [OF eq, of "\<lambda>s. s ! (15 - i)"] by (intro hex_digit_inj) (simp_all add: nth)
  qed
  then have "unat v mod 16 ^ 16 = unat w mod 16 ^ 16" by (rule digits_determine)
  then show "v = w" using unsigned_less [of v, where 'a = nat] unsigned_less [of w, where 'a = nat]
    by (simp add: word_unat_eq_iff)
qed

definition printable :: "char \<Rightarrow> bool" where
  "printable c \<longleftrightarrow> of_char c \<in> {32..126 :: nat}"

lemma printable_hex16: "list_all printable (hex16 w)"
  by (auto simp: list_all_iff hex16_def printable_def hex_digit_def)

lemma printable_seed: "list_all printable (response_seed t)"
  using printable_hex16 [of t] by (simp add: response_seed_def) (simp add: printable_def)

lemma length_response_seed: "length (response_seed t) = 38"
  by (simp add: response_seed_def)

lemma take_fixed_response:
  "k \<le> len \<Longrightarrow> k \<le> 38 \<Longrightarrow> take k (fixed_response t len) = take k (response_seed t)"
  by (rule nth_equalityI) (simp_all add: fixed_response_def length_response_seed)

text \<open>C37: the body of a turn response has exactly the requested length and printable ASCII characters
  only, whatever the trace number; from 22 characters on it is determined by the trace number and
  determines it.\<close>

theorem fixed_response_shape:
  "length (fixed_response t len) = len \<and> list_all printable (fixed_response t len) \<and>
   (22 \<le> len \<longrightarrow> (fixed_response t len = fixed_response u len \<longleftrightarrow> t = u))"
proof -
  have "t = u" if "22 \<le> len" "fixed_response t len = fixed_response u len"
  proof -
    have "take 22 (response_seed t) = take 22 (response_seed u)"
      using take_fixed_response [of 22 len t] take_fixed_response [of 22 len u] that by simp
    then show ?thesis by (intro hex16_inj) (simp add: response_seed_def)
  qed
  moreover have "list_all printable (fixed_response t len)"
    using printable_seed [of t] by (auto simp: list_all_length fixed_response_def length_response_seed Let_def)
  ultimately show ?thesis by (auto simp: fixed_response_def Let_def)
qed

theorem fixed_response_shape_witness:
  "length (fixed_response 7 100) = 100 \<and> fixed_response 7 100 \<noteq> fixed_response 8 100"
  using fixed_response_shape [of 7 100 8] by simp

text \<open>The rate estimate is never negative and never not-a-number, and it is zero for arguments that
  are not finite.\<close>

context rounding
begin

lemma estimate_nonneg:
  "Fin 0 \<le> estimate_reliable_bits_per_hour A mi rate \<and> estimate_reliable_bits_per_hour A mi rate \<noteq> NaN"
proof (cases "is_finite mi \<and> is_finite rate")
  case True
  then obtain a b where ab: "mi = Fin a" "rate = Fin b" by (cases mi; cases rate) (auto simp: is_finite_def)
  have "fmax (Fin x) (Fin 0) = Fin (max x 0)" for x by (simp add: fmax_def fle_iff max_def)
  then show ?thesis
    using rnd_nonneg rnd_number by (simp add: estimate_reliable_bits_per_hour_def ab is_finite_def)
next
  case False
  then show ?thesis by (auto simp: estimate_reliable_bits_per_hour_def)
qed

end

end
