(* ===== verification/Trial_Plan.thy ===== *)
theory Trial_Plan
  imports Ishtar_Prelude "HOL-Library.Multiset"
begin

text \<open>
  The trial plans of the two benchmark clients, \<open>crates/bench-client/src/main.rs\<close> and the module
  \<open>benchmark\<close> of \<open>crates/sequential-lab/src/main.rs\<close>: the xorshift generator, the shuffle, and the
  plan of calibration and scoring trials. The two crates have identical copies of the generator and
  of the shuffle. Memory exhaustion aside, a plan that is not produced (a panic on an underflowing
  length, or a loop that never ends) is the value \<open>None\<close>.
\<close>

unbundle bit_operations_syntax

section \<open>Random indices and shuffling\<close>

definition xorshift :: "u64 \<Rightarrow> u64" where
  "xorshift s =
     (let s = s XOR push_bit 13 s; s = s XOR drop_bit 7 s in s XOR push_bit 17 s)"

definition random_index :: "u64 \<Rightarrow> nat \<Rightarrow> nat \<times> u64" where
  "random_index state upper = (let state = xorshift state in (unat state mod upper, state))"

definition swap :: "nat \<Rightarrow> nat \<Rightarrow> 'a list \<Rightarrow> 'a list" where
  "swap i j xs = xs[i := xs ! j, j := xs ! i]"

fun shuffle_from :: "('s \<Rightarrow> nat \<Rightarrow> nat \<times> 's) \<Rightarrow> nat \<Rightarrow> 'a list \<Rightarrow> 's \<Rightarrow> 'a list \<times> 's" where
  "shuffle_from index 0 values state = (values, state)"
| "shuffle_from index (Suc i) values state =
     (let (j, state) = index state (Suc i + 1)
      in shuffle_from index i (swap (Suc i) j values) state)"

definition shuffle :: "'a list \<Rightarrow> u64 \<Rightarrow> 'a list \<times> u64" where
  "shuffle values state = shuffle_from random_index (length values - 1) values state"

section \<open>Plans\<close>

record trial_plan =
  plan_bit :: u8
  plan_offset :: u64

definition both_bits :: "u64 \<Rightarrow> trial_plan list" where
  "both_bits offset = map (\<lambda>b. \<lparr>plan_bit = b, plan_offset = offset\<rparr>) [0, 1]"

definition calibration_trials :: "nat \<Rightarrow> u64 list \<Rightarrow> trial_plan list" where
  "calibration_trials per_bit offsets =
     concat (map (\<lambda>offset. concat (replicate per_bit (both_bits offset))) offsets)"

definition combinations :: "u64 list \<Rightarrow> trial_plan list" where
  "combinations offsets = concat (map both_bits offsets)"

text \<open>The loop that appends shuffled blocks until the requested length is reached.\<close>

partial_function (option) extend_blocks ::
    "trial_plan list \<Rightarrow> nat \<Rightarrow> trial_plan list \<Rightarrow> u64 \<Rightarrow> trial_plan list option" where
  [code]: "extend_blocks combos wanted output state =
     (if length output < wanted
      then (case shuffle combos state of (block, state) \<Rightarrow>
              extend_blocks combos wanted (output @ take (wanted - length output) block) state)
      else Some output)"

definition CALIBRATION_SAMPLES_PER_BIT_AND_OFFSET :: nat where
  "CALIBRATION_SAMPLES_PER_BIT_AND_OFFSET = 5"

definition build_trial_plan :: "u64 \<Rightarrow> u64 \<Rightarrow> u64 list \<Rightarrow> trial_plan list option" where
  "build_trial_plan seed trial_count offsets =
     (let calibration_len = length offsets * CALIBRATION_SAMPLES_PER_BIT_AND_OFFSET * 2;
          calibration = calibration_trials CALIBRATION_SAMPLES_PER_BIT_AND_OFFSET offsets;
          state = max seed 1 XOR 0x63616c6962726174;
          (calibration, state) = shuffle calibration state
      in if unat trial_count < calibration_len then None
         else map_option (\<lambda>scoring. calibration @ scoring)
                (extend_blocks (combinations offsets) (unat trial_count - calibration_len) [] state))"

definition lab_build_trial_plan :: "u64 \<Rightarrow> usize \<Rightarrow> u64 list \<Rightarrow> usize \<Rightarrow> trial_plan list option" where
  "lab_build_trial_plan seed wanted gaps per_bit_and_gap =
     (let calibration = calibration_trials (unat per_bit_and_gap) gaps;
          random = max seed 1 XOR 0x73657175656e7469;
          (calibration, random) = shuffle calibration random
      in extend_blocks (combinations gaps) (unat wanted) calibration random)"

section \<open>Shuffling permutes\<close>

text \<open>What a shuffle needs of its source of indices.\<close>

locale index_source =
  fixes index :: "'s \<Rightarrow> nat \<Rightarrow> nat \<times> 's"
  assumes index_bound: "0 < upper \<Longrightarrow> fst (index state upper) < upper"
begin

lemma shuffle_from_mset:
  "i < length xs \<Longrightarrow> mset (fst (shuffle_from index i xs state)) = mset xs"
proof (induction i arbitrary: xs state)
  case (Suc i)
  obtain j s where j: "index state (Suc (Suc i)) = (j, s)" by fastforce
  then have "j < length xs" using index_bound [of "Suc (Suc i)" state] Suc.prems by simp
  with Suc show ?case by (simp add: j swap_def mset_swap)
qed simp

end

interpretation xorshift_index: index_source random_index
  by unfold_locales (simp add: random_index_def Let_def)

lemma mset_shuffle: "mset (fst (shuffle xs s)) = mset xs"
proof (cases xs)
  case Nil
  then show ?thesis by (simp add: shuffle_def)
next
  case (Cons y ys)
  then show ?thesis by (simp add: shuffle_def xorshift_index.shuffle_from_mset)
qed

lemma length_shuffle [simp]: "length (fst (shuffle xs s)) = length xs"
  using mset_shuffle [of xs s] by (rule mset_eq_length)

section \<open>Blocks\<close>

lemma extend_blocks_ok:
  assumes "combos \<noteq> []"
  shows "\<exists>out q part. extend_blocks combos n acc s = Some (acc @ out) \<and>
    mset out = repeat_mset q (mset combos) + part \<and> part \<subseteq># mset combos \<and>
    length (acc @ out) = max n (length acc)"
proof (induction "n - length acc" arbitrary: acc s rule: less_induct)
  case less
  show ?case
  proof (cases "length acc < n")
    case False
    then show ?thesis
      by (intro exI [of _ "[]"] exI [of _ 0] exI [of _ "{#}"]) (simp add: extend_blocks.simps)
  next
    case True
    obtain block s' where b: "shuffle combos s = (block, s')" by fastforce
    then have m: "mset block = mset combos" "length block = length combos"
      using mset_shuffle [of combos s] length_shuffle [of combos s] by simp_all
    let ?t = "take (n - length acc) block"
    have e: "extend_blocks combos n acc s = extend_blocks combos n (acc @ ?t) s'"
      using True by (simp add: extend_blocks.simps [of combos n acc s] b)
    show ?thesis
    proof (cases "n - length acc \<le> length combos")
      case small: True
      then have "length (acc @ ?t) = n" using True m(2) by simp
      then have "extend_blocks combos n (acc @ ?t) s' = Some (acc @ ?t)"
        by (simp add: extend_blocks.simps)
      moreover have "mset ?t \<subseteq># mset block"
        by (metis append_take_drop_id mset_append mset_subset_eq_add_left)
      then have "mset ?t \<subseteq># mset combos" by (simp only: m(1))
      ultimately show ?thesis
        using e True \<open>length (acc @ ?t) = n\<close>
        by (intro exI [of _ ?t] exI [of _ 0] exI [of _ "mset ?t"]) simp
    next
      case False
      then have t: "?t = block" using m(2) by simp
      obtain c cs where "combos = c # cs" using assms by (cases combos) auto
      then have "n - length (acc @ block) < n - length acc" using True m(2) by simp
      from less [OF this, of s'] obtain out q part where
        "extend_blocks combos n (acc @ block) s' = Some ((acc @ block) @ out)"
        "mset out = repeat_mset q (mset combos) + part" "part \<subseteq># mset combos"
        "length ((acc @ block) @ out) = max n (length (acc @ block))"
        by blast
      then show ?thesis
        using e t m False
        by (intro exI [of _ "block @ out"] exI [of _ "Suc q"] exI [of _ part])
          (auto simp: max_def)
    qed
  qed
qed

section \<open>Balance\<close>

abbreviation trial :: "u8 \<Rightarrow> u64 \<Rightarrow> trial_plan" where
  "trial b offset \<equiv> \<lparr>plan_bit = b, plan_offset = offset\<rparr>"

lemma count_both_bits: "count (mset (both_bits x)) (trial b y) = (if x = y \<and> (b = 0 \<or> b = 1) then 1 else 0)"
  by (auto simp: both_bits_def)

lemma count_combinations:
  "distinct xs \<Longrightarrow> b = 0 \<or> b = 1 \<Longrightarrow>
   count (mset (combinations xs)) (trial b y) = (if y \<in> set xs then 1 else 0)"
  by (induction xs) (auto simp: combinations_def count_both_bits)

lemma count_replicate: "count (mset (concat (replicate n xs))) x = n * count (mset xs) x"
  by (induction n) auto

lemma count_calibration:
  "distinct xs \<Longrightarrow> b = 0 \<or> b = 1 \<Longrightarrow>
   count (mset (calibration_trials n xs)) (trial b y) = (if y \<in> set xs then n else 0)"
  by (induction xs) (auto simp: calibration_trials_def count_both_bits count_replicate)

lemma length_calibration: "length (calibration_trials n xs) = length xs * n * 2"
proof -
  have "length (concat (replicate n (both_bits x))) = n * 2" for x
    by (induction n) (simp_all add: both_bits_def)
  then show ?thesis by (induction xs) (simp_all add: calibration_trials_def)
qed

lemma combinations_nonempty: "xs \<noteq> [] \<Longrightarrow> combinations xs \<noteq> []"
  by (cases xs) (simp_all add: combinations_def both_bits_def)

text \<open>In a number of full blocks and a part of one, two trials that a block has once occur almost
  equally often.\<close>

lemma blocks_balanced:
  assumes "mset out = repeat_mset q (mset cs) + part" and "part \<subseteq># mset cs"
    and "count (mset cs) x = 1" "count (mset cs) y = 1"
  shows "count (mset out) x \<le> count (mset out) y + 1"
proof -
  have "count part x \<le> 1" using mset_subset_eq_count [OF assms(2), of x] assms(3) by simp
  then show ?thesis using assms by simp
qed

text \<open>A plan is a shuffle of the calibration trials followed by blocks.\<close>

definition plan_parts :: "nat \<Rightarrow> u64 list \<Rightarrow> trial_plan list \<Rightarrow> trial_plan list \<Rightarrow> bool" where
  "plan_parts n offsets cal out \<longleftrightarrow>
     mset cal = mset (calibration_trials n offsets) \<and>
     (\<exists>q part. mset out = repeat_mset q (mset (combinations offsets)) + part \<and> part \<subseteq># mset (combinations offsets))"

lemma plan_parts_length: "plan_parts n offsets cal out \<Longrightarrow> length cal = length offsets * n * 2"
  using mset_eq_length [of cal "calibration_trials n offsets"] by (auto simp: plan_parts_def length_calibration)

lemma plan_parts_count:
  assumes "plan_parts n offsets cal out" "distinct offsets" "x \<in> set offsets" "b \<in> {0, 1}"
  shows "count (mset cal) (trial b x) = n \<and>
    count (mset (cal @ out)) (trial b x) \<le> count (mset (cal @ out)) (trial (1 - b) x) + 1"
proof -
  obtain q part where out: "mset out = repeat_mset q (mset (combinations offsets)) + part"
    "part \<subseteq># mset (combinations offsets)" and cal: "mset cal = mset (calibration_trials n offsets)"
    using assms(1) by (auto simp: plan_parts_def)
  have "count (mset cal) (trial c x) = n" if "c \<in> {0, 1}" for c
    using that assms(2,3) by (auto simp: cal count_calibration)
  moreover have "count (mset out) (trial b x) \<le> count (mset out) (trial (1 - b) x) + 1"
    using blocks_balanced [OF out] assms(2-4) by (auto simp: count_combinations)
  moreover have "1 - b \<in> {0, 1}" using assms(4) by auto
  ultimately show ?thesis using assms(4) by simp
qed

lemma plan_parts_offsets:
  assumes "plan_parts n offsets cal out"
  shows "plan_offset ` set (cal @ out) \<subseteq> set offsets"
proof -
  obtain q part where out: "mset out = repeat_mset q (mset (combinations offsets)) + part"
    "part \<subseteq># mset (combinations offsets)" and cal: "mset cal = mset (calibration_trials n offsets)"
    using assms by (auto simp: plan_parts_def)
  have in_rep: "x \<in># M" if "x \<in># repeat_mset q M" for x and M :: "trial_plan multiset"
    using that by (metis count_eq_zero_iff count_repeat_mset mult_0_right)
  have "set out \<subseteq> set (combinations offsets)"
  proof
    fix x
    assume "x \<in> set out"
    then have "x \<in># repeat_mset q (mset (combinations offsets)) + part" unfolding out(1) [symmetric] by simp
    then show "x \<in> set (combinations offsets)" by (auto dest: in_rep mset_subset_eqD [OF out(2)])
  qed
  moreover have "set cal = set (calibration_trials n offsets)" by (rule mset_eq_setD [OF cal])
  moreover have "plan_offset ` set (calibration_trials n offsets) \<subseteq> set offsets"
    "plan_offset ` set (combinations offsets) \<subseteq> set offsets"
    by (auto simp: calibration_trials_def combinations_def both_bits_def)
  ultimately show ?thesis by (simp add: image_Un) blast
qed

lemma build_trial_plan_parts:
  assumes "offsets \<noteq> []" and "length offsets * 10 \<le> unat trial_count"
  shows "\<exists>cal out. build_trial_plan seed trial_count offsets = Some (cal @ out) \<and> plan_parts 5 offsets cal out \<and>
    length (cal @ out) = unat trial_count"
proof -
  let ?cal = "calibration_trials 5 offsets" and ?n = "length offsets * 10" and ?cs = "combinations offsets"
  obtain cal s where sh: "shuffle ?cal (max seed 1 XOR 0x63616c6962726174) = (cal, s)" by fastforce
  have cal: "mset cal = mset ?cal" using mset_shuffle [of ?cal "max seed 1 XOR 0x63616c6962726174"] unfolding sh by simp
  obtain out q part where out: "extend_blocks ?cs (unat trial_count - ?n) [] s = Some ([] @ out)"
    "mset out = repeat_mset q (mset ?cs) + part" "part \<subseteq># mset ?cs"
    "length ([] @ out) = max (unat trial_count - ?n) (length ([] :: trial_plan list))"
    using extend_blocks_ok [OF combinations_nonempty [OF assms(1)]] by blast
  have "build_trial_plan seed trial_count offsets = Some (cal @ out)"
    using assms(2) out(1)
    by (simp add: mult.commute build_trial_plan_def CALIBRATION_SAMPLES_PER_BIT_AND_OFFSET_def sh Let_def)
  moreover have "plan_parts 5 offsets cal out" using cal out(2,3) by (auto simp: plan_parts_def)
  ultimately show ?thesis using out(4) assms(2) plan_parts_length [of 5 offsets cal out]
    by (intro exI [of _ cal] exI [of _ out]) simp
qed

lemma lab_build_trial_plan_parts:
  assumes "gaps \<noteq> []"
  shows "\<exists>cal out. lab_build_trial_plan seed wanted gaps per = Some (cal @ out) \<and> plan_parts (unat per) gaps cal out \<and>
    length (cal @ out) = max (unat wanted) (length gaps * unat per * 2)"
proof -
  let ?cal = "calibration_trials (unat per) gaps" and ?cs = "combinations gaps"
  obtain cal s where sh: "shuffle ?cal (max seed 1 XOR 0x73657175656e7469) = (cal, s)" by fastforce
  have cal: "mset cal = mset ?cal" using mset_shuffle [of ?cal "max seed 1 XOR 0x73657175656e7469"] unfolding sh by simp
  obtain out q part where out: "extend_blocks ?cs (unat wanted) cal s = Some (cal @ out)"
    "mset out = repeat_mset q (mset ?cs) + part" "part \<subseteq># mset ?cs"
    "length (cal @ out) = max (unat wanted) (length cal)"
    using extend_blocks_ok [OF combinations_nonempty [OF assms(1)]] by blast
  have "lab_build_trial_plan seed wanted gaps per = Some (cal @ out)"
    using out(1) by (simp add: lab_build_trial_plan_def sh Let_def)
  moreover have "plan_parts (unat per) gaps cal out" using cal out(2,3) by (auto simp: plan_parts_def)
  ultimately show ?thesis using out(4) plan_parts_length [of "unat per" gaps cal out]
    by (intro exI [of _ cal] exI [of _ out]) simp
qed

text \<open>C30: with at least one overlap offset, no duplicates among them and enough trials, the benchmark
  client produces a plan of exactly the requested length: its first part has every offset with
  either bit exactly five times, and over the whole plan the two bits of every offset occur equally
  often, up to one.\<close>

theorem build_trial_plan_balanced:
  assumes "offsets \<noteq> []" and "distinct offsets" and "length offsets * 10 \<le> unat trial_count"
  shows "\<exists>plan. build_trial_plan seed trial_count offsets = Some plan \<and> length plan = unat trial_count \<and>
    (\<forall>offset \<in> set offsets. \<forall>b \<in> {0, 1}.
       count (mset (take (length offsets * 10) plan)) (trial b offset) = 5 \<and>
       count (mset plan) (trial b offset) \<le> count (mset plan) (trial (1 - b) offset) + 1)"
proof -
  obtain cal out where plan: "build_trial_plan seed trial_count offsets = Some (cal @ out)"
    "plan_parts 5 offsets cal out" "length (cal @ out) = unat trial_count"
    using build_trial_plan_parts [OF assms(1,3)] by blast
  have cal: "take (length offsets * 10) (cal @ out) = cal" using plan_parts_length [OF plan(2)] by simp
  show ?thesis
    using plan plan_parts_count [OF plan(2) assms(2)] by (intro exI [of _ "cal @ out"] conjI ballI) (simp_all only: cal)
qed

theorem build_trial_plan_balanced_witness:
  "\<exists>plan. build_trial_plan 7 40 [500, 1500] = Some plan \<and> length plan = 40 \<and>
     count (mset (take 20 plan)) (trial 1 500) = 5 \<and>
     count (mset plan) (trial 0 1500) \<le> count (mset plan) (trial 1 1500) + 1"
  using build_trial_plan_balanced [of "[500, 1500]" 40 7] by auto

text \<open>The plan of the lab's benchmark has the requested length, or that of the calibration when
  that is longer, and the same balance; its calibration part has every gap with either bit exactly
  the configured number of times.\<close>

theorem lab_build_trial_plan_balanced:
  assumes "gaps \<noteq> []" and "distinct gaps"
  shows "\<exists>plan. lab_build_trial_plan seed wanted gaps per = Some plan \<and>
    length plan = max (unat wanted) (length gaps * unat per * 2) \<and>
    (\<forall>gap \<in> set gaps. \<forall>b \<in> {0, 1}.
       count (mset (take (length gaps * unat per * 2) plan)) (trial b gap) = unat per \<and>
       count (mset plan) (trial b gap) \<le> count (mset plan) (trial (1 - b) gap) + 1)"
proof -
  obtain cal out where plan: "lab_build_trial_plan seed wanted gaps per = Some (cal @ out)"
    "plan_parts (unat per) gaps cal out" "length (cal @ out) = max (unat wanted) (length gaps * unat per * 2)"
    using lab_build_trial_plan_parts [OF assms(1)] by blast
  have cal: "take (length gaps * unat per * 2) (cal @ out) = cal" using plan_parts_length [OF plan(2)] by simp
  show ?thesis
    using plan plan_parts_count [OF plan(2) assms(2)] by (intro exI [of _ "cal @ out"] conjI ballI) (simp_all only: cal)
qed

theorem lab_build_trial_plan_balanced_witness:
  "\<exists>plan. lab_build_trial_plan 7 40 [0, 100] 4 = Some plan \<and> length plan = 40 \<and>
     count (mset (take 16 plan)) (trial 1 0) = 4 \<and>
     count (mset plan) (trial 0 100) \<le> count (mset plan) (trial 1 100) + 1"
  using lab_build_trial_plan_balanced [of "[0, 100]" 7 40 4] by auto

section \<open>The generator\<close>

lemma xor_push_bit_zero: "0 < k \<Longrightarrow> (w :: 'a::len word) XOR push_bit k w = 0 \<longleftrightarrow> w = 0"
proof
  assume w: "w XOR push_bit k w = 0" and k: "0 < k"
  have eq: "bit w n \<longleftrightarrow> n < LENGTH('a) \<and> k \<le> n \<and> bit w (n - k)" for n
    using arg_cong [OF w, of "\<lambda>v. bit v n"] bit_imp_le_length [of w n]
    by (auto simp: bit_xor_iff bit_push_bit_iff)
  have "\<not> bit w n" for n
    by (induction n rule: less_induct) (metis eq k diff_less order_less_le_trans)
  then show "w = 0" by (simp add: bit_eq_iff)
qed simp

lemma xor_drop_bit_zero: "0 < k \<Longrightarrow> (w :: 'a::len word) XOR drop_bit k w = 0 \<longleftrightarrow> w = 0"
proof
  assume w: "w XOR drop_bit k w = 0" and k: "0 < k"
  have eq: "bit w n \<longleftrightarrow> bit w (k + n)" for n
    using arg_cong [OF w, of "\<lambda>v. bit v n"] by (auto simp: bit_xor_iff bit_drop_bit_eq)
  have iter: "bit w n \<longleftrightarrow> bit w (m * k + n)" for n m
    by (induction m) (use eq in \<open>simp_all add: add.assoc\<close>)
  have "\<not> bit w n" for n
  proof -
    have "LENGTH('a) \<le> LENGTH('a) * k + n" using k by (simp add: trans_le_add1)
    then show ?thesis using iter [of n "LENGTH('a)"] bit_imp_le_length [of w] by fastforce
  qed
  then show "w = 0" by (simp add: bit_eq_iff)
qed simp

text \<open>The state is zero after a step exactly if it was zero before.\<close>

lemma xorshift_zero_iff: "xorshift s = 0 \<longleftrightarrow> s = 0"
  unfolding xorshift_def Let_def
  by (simp only: xor_push_bit_zero [of 17] xor_drop_bit_zero [of 7] xor_push_bit_zero [of 13] zero_less_numeral)

lemma random_index_zero [simp]: "random_index 0 upper = (0, 0)"
  by (simp add: random_index_def xorshift_def)

text \<open>From the state zero, every index is zero: a shuffle only rotates its list, and leaves the state
  zero for every later block.\<close>

lemma shuffle_from_zero:
  "i < length xs \<Longrightarrow>
   shuffle_from random_index i xs 0 = (rotate1 (take (Suc i) xs) @ drop (Suc i) xs, 0)"
proof (induction i arbitrary: xs)
  case 0
  then show ?case by (cases xs) simp_all
next
  case (Suc i)
  then obtain y ys where xs: "xs = y # ys" by (cases xs) auto
  then have "i < length ys" using Suc.prems by simp
  moreover from this have "take i (ys[i := y]) = take i ys" "drop i (ys[i := y]) = y # drop (Suc i) ys"
    "take (Suc i) ys = take i ys @ [ys ! i]"
    by (simp_all add: upd_conv_take_nth_drop take_Suc_conv_app_nth)
  ultimately show ?case using Suc.IH [of "swap (Suc i) 0 xs"] by (simp add: xs swap_def)
qed

lemma shuffle_zero: "shuffle xs 0 = (rotate1 xs, 0)"
  by (cases xs) (simp_all add: shuffle_def shuffle_from_zero)

text \<open>A seed equal to the constant that the generator mixes in switches the shuffling off: the state
  is zero, and the calibration trials stay in their generated order, rotated by one.\<close>

lemma build_trial_plan_degenerate_seed:
  assumes "build_trial_plan 0x63616c6962726174 trial_count offsets = Some plan"
  shows "take (length offsets * 10) plan = rotate1 (calibration_trials 5 offsets)"
proof -
  have "max (0x63616c6962726174 :: u64) 1 XOR 0x63616c6962726174 = 0" by code_simp
  then obtain scoring where "plan = rotate1 (calibration_trials 5 offsets) @ scoring"
    using assms
    by (auto simp: build_trial_plan_def shuffle_zero CALIBRATION_SAMPLES_PER_BIT_AND_OFFSET_def Let_def
        split: if_splits)
  then show ?thesis by (simp add: length_calibration)
qed

lemma lab_build_trial_plan_degenerate_seed:
  assumes "gaps \<noteq> []"
  shows "\<exists>scoring. lab_build_trial_plan 0x73657175656e7469 wanted gaps per =
     Some (rotate1 (calibration_trials (unat per) gaps) @ scoring)"
proof -
  have "max (0x73657175656e7469 :: u64) 1 XOR 0x73657175656e7469 = 0" by code_simp
  then have "lab_build_trial_plan 0x73657175656e7469 wanted gaps per =
      extend_blocks (combinations gaps) (unat wanted) (rotate1 (calibration_trials (unat per) gaps)) 0"
    by (simp add: lab_build_trial_plan_def shuffle_zero Let_def)
  then show ?thesis using extend_blocks_ok [OF combinations_nonempty [OF assms]] by metis
qed

text \<open>Without offsets there is nothing to repeat, and the loop never ends.\<close>

lemma extend_blocks_terminates_combinations:
  "extend_blocks combos wanted acc state = Some result \<Longrightarrow> combos \<noteq> [] \<or> wanted \<le> length acc"
  by (rule extend_blocks.raw_induct [of "\<lambda>combos wanted acc state result. combos \<noteq> [] \<or> wanted \<le> length acc"])
    (force simp: shuffle_def split: if_splits prod.splits)+

lemma extend_blocks_no_combinations: "length acc < wanted \<Longrightarrow> extend_blocks [] wanted acc state = None"
  using extend_blocks_terminates_combinations [of "[]" wanted acc state] by fastforce

lemma build_trial_plan_no_offsets: "0 < trial_count \<Longrightarrow> build_trial_plan seed trial_count [] = None"
  by (simp add: build_trial_plan_def calibration_trials_def combinations_def Let_def split_beta
      extend_blocks_no_combinations unat_gt_0 word_neq_0_conv [symmetric])

end
