(* ===== verification/Statistics.thy ===== *)
theory Statistics
  imports Trial_Plan Float64 "HOL-Library.Monad_Syntax"
begin

text \<open>
  The statistics of the two benchmark clients: means, ratios and percentiles, the plug-in estimate of
  mutual information, the bootstrap and the stratified permutation test
  (\<open>crates/bench-client/src/main.rs\<close> and the module \<open>benchmark\<close> of
  \<open>crates/sequential-lab/src/main.rs\<close>). Every function takes the arithmetic as its first argument. An
  index out of range, on which the program panics, is the value \<open>None\<close>.
\<close>

section \<open>Means, ratios and percentiles\<close>

definition fsum :: "arith \<Rightarrow> f64 list \<Rightarrow> f64" where
  "fsum A values = foldl (fadd A) (Fin 0) values"

definition mean :: "arith \<Rightarrow> f64 list \<Rightarrow> f64" where
  "mean A values = fdiv A (fsum A values) (of_int64 A (length values))"

definition lab_mean :: "arith \<Rightarrow> f64 list \<Rightarrow> f64" where
  "lab_mean A values =
     (if values = [] then Fin 0 else fdiv A (fsum A values) (of_int64 A (length values)))"

definition ratio :: "arith \<Rightarrow> nat \<Rightarrow> nat \<Rightarrow> f64" where
  "ratio A n d = (if d = 0 then Fin 0 else fdiv A (of_int64 A n) (of_int64 A d))"

text \<open>\<open>f64::round\<close> rounds half away from zero, and \<open>as usize\<close> truncates and saturates.\<close>

fun fround :: "f64 \<Rightarrow> f64" where
  "fround (Fin a) = Fin (of_int (if 0 \<le> a then \<lfloor>a + 1 / 2\<rfloor> else - \<lfloor>1 / 2 - a\<rfloor>))"
| "fround x = x"

fun as_usize :: "f64 \<Rightarrow> nat" where
  "as_usize (Fin a) = nat (min \<lfloor>a\<rfloor> (2 ^ 64 - 1))"
| "as_usize PosInf = 2 ^ 64 - 1"
| "as_usize NegInf = 0"
| "as_usize NaN = 0"

definition index_at :: "'a list \<Rightarrow> nat \<Rightarrow> 'a option" where
  "index_at xs i = (if i < length xs then Some (xs ! i) else None)"

text \<open>The index that a quantile, a decimal literal of the source, selects.\<close>

definition percentile_index :: "arith \<Rightarrow> nat \<Rightarrow> real \<Rightarrow> nat" where
  "percentile_index A len quantile =
     as_usize (fround (fmul A (of_int64 A (len - 1)) (rnd A quantile)))"

definition percentile :: "arith \<Rightarrow> f64 list \<Rightarrow> real \<Rightarrow> f64 option" where
  "percentile A ordered quantile =
     (if ordered = [] then Some (Fin 0) else index_at ordered (percentile_index A (length ordered) quantile))"

definition percentile_u64 :: "arith \<Rightarrow> u64 list \<Rightarrow> real \<Rightarrow> u64 option" where
  "percentile_u64 A ordered quantile =
     (if ordered = [] then Some 0 else index_at ordered (percentile_index A (length ordered) quantile))"

section \<open>Mutual information\<close>

definition count_pair :: "arith \<Rightarrow> (u8 \<times> u8 \<Rightarrow> f64) \<Rightarrow> u8 \<times> u8 \<Rightarrow> (u8 \<times> u8 \<Rightarrow> f64)" where
  "count_pair A joint p =
     (if fst p \<le> 1 \<and> snd p \<le> 1 then joint(p := fadd A (joint p) (Fin 1)) else joint)"

definition joint_counts :: "arith \<Rightarrow> (u8 \<times> u8) list \<Rightarrow> (u8 \<times> u8 \<Rightarrow> f64)" where
  "joint_counts A pairs = foldl (count_pair A) (\<lambda>_. Fin 0) pairs"

definition cells :: "(u8 \<times> u8) list" where
  "cells = [(0, 0), (0, 1), (1, 0), (1, 1)]"

definition mutual_information :: "arith \<Rightarrow> (u8 \<times> u8) list \<Rightarrow> f64" where
  "mutual_information A pairs =
     (if pairs = [] then Fin 0
      else
        let n = of_int64 A (length pairs);
            joint = joint_counts A pairs;
            rows = (\<lambda>a. fadd A (joint (a, 0)) (joint (a, 1)));
            cols = (\<lambda>b. fadd A (joint (0, b)) (joint (1, b)));
            mi = foldl (\<lambda>mi (a, b).
                   if flt (Fin 0) (joint (a, b))
                   then fadd A mi (fmul A (fdiv A (joint (a, b)) n)
                          (flog2 A (fdiv A (fmul A (joint (a, b)) n) (fmul A (rows a) (cols b)))))
                   else mi) (Fin 0) cells
        in fmax mi (Fin 0))"

text \<open>The copy in the lab indexes its table without the guard, so a value above one is a panic.\<close>

definition lab_mutual_information :: "arith \<Rightarrow> (u8 \<times> u8) list \<Rightarrow> f64 option" where
  "lab_mutual_information A pairs =
     (if list_all (\<lambda>(a, b). a \<le> 1 \<and> b \<le> 1) pairs then Some (mutual_information A pairs) else None)"

section \<open>Bootstrap\<close>

fun draw_sample :: "nat \<Rightarrow> 'a list \<Rightarrow> u64 \<Rightarrow> 'a list \<times> u64" where
  "draw_sample 0 values state = ([], state)"
| "draw_sample (Suc n) values state =
     (let (j, state) = random_index state (length values);
          (rest, state) = draw_sample n values state
      in (values ! j # rest, state))"

fun bootstrap_estimates :: "nat \<Rightarrow> ('a list \<Rightarrow> f64) \<Rightarrow> 'a list \<Rightarrow> u64 \<Rightarrow> f64 list" where
  "bootstrap_estimates 0 estimate values state = []"
| "bootstrap_estimates (Suc n) estimate values state =
     (let (sample, state) = draw_sample (length values) values state
      in estimate sample # bootstrap_estimates n estimate values state)"

definition bootstrap :: "('a list \<Rightarrow> f64) \<Rightarrow> 'a list \<Rightarrow> u64 \<Rightarrow> f64 \<times> f64" where
  "bootstrap estimate values seed =
     (if values = [] then (Fin 0, Fin 0)
      else let estimates = sort (bootstrap_estimates 1000 estimate values (max seed 1))
           in (estimates ! 24, estimates ! 974))"

definition bootstrap_confidence :: "arith \<Rightarrow> f64 list \<Rightarrow> u64 \<Rightarrow> f64 \<times> f64" where
  "bootstrap_confidence A values seed =
     bootstrap (\<lambda>sample. fdiv A (fsum A sample) (of_int64 A (length values))) values seed"

definition bootstrap_mi :: "arith \<Rightarrow> (u8 \<times> u8) list \<Rightarrow> u64 \<Rightarrow> f64 \<times> f64" where
  "bootstrap_mi A pairs seed = bootstrap (mutual_information A) pairs seed"

section \<open>The permutation test\<close>

record scored_pair =
  sp_expected :: u8
  sp_decoded :: u8
  sp_offset :: u64

definition binary :: "scored_pair list \<Rightarrow> (u8 \<times> u8) list" where
  "binary pairs = map (\<lambda>p. (sp_expected p, sp_decoded p)) pairs"

definition sorted_dedup :: "u64 list \<Rightarrow> u64 list" where
  "sorted_dedup values = remdups_adj (sort values)"

definition offset_groups :: "scored_pair list \<Rightarrow> nat list list" where
  "offset_groups pairs =
     map (\<lambda>offset. filter (\<lambda>i. sp_offset (pairs ! i) = offset) [0..<length pairs])
       (sorted_dedup (map sp_offset pairs))"

fun permute_group :: "nat list \<Rightarrow> nat \<Rightarrow> 'a list \<Rightarrow> u64 \<Rightarrow> 'a list \<times> u64" where
  "permute_group members 0 expected state = (expected, state)"
| "permute_group members (Suc i) expected state =
     (let (j, state) = random_index state (Suc i + 1)
      in permute_group members i (swap (members ! Suc i) (members ! j) expected) state)"

fun permute_groups :: "nat list list \<Rightarrow> 'a list \<Rightarrow> u64 \<Rightarrow> 'a list \<times> u64" where
  "permute_groups [] expected state = (expected, state)"
| "permute_groups (members # groups) expected state =
     (let (expected, state) = permute_group members (length members - 1) expected state
      in permute_groups groups expected state)"

fun permuted_estimates ::
    "nat \<Rightarrow> ((u8 \<times> u8) list \<Rightarrow> f64) \<Rightarrow> scored_pair list \<Rightarrow> u8 list \<Rightarrow> u64 \<Rightarrow> f64 list" where
  "permuted_estimates 0 estimate pairs expected state = []"
| "permuted_estimates (Suc n) estimate pairs expected state =
     (let (expected, state) = permute_groups (offset_groups pairs) expected state
      in estimate (zip expected (map sp_decoded pairs)) # permuted_estimates n estimate pairs expected state)"

record permutation_result =
  pr_p_value :: f64
  pr_null_mean :: f64
  pr_null_p95 :: f64

definition EPSILON :: f64 where
  "EPSILON = Fin (1 / 2 ^ 52)"

definition at_least_observed :: "arith \<Rightarrow> f64 \<Rightarrow> f64 list \<Rightarrow> nat" where
  "at_least_observed A observed estimates =
     length (filter (\<lambda>estimate. fle (fsub A observed EPSILON) estimate) estimates)"

definition permutation_test :: "arith \<Rightarrow> scored_pair list \<Rightarrow> u64 \<Rightarrow> nat \<Rightarrow> permutation_result option" where
  "permutation_test A pairs seed iterations =
     (if pairs = [] \<or> iterations = 0
      then Some \<lparr>pr_p_value = Fin 1, pr_null_mean = Fin 0, pr_null_p95 = Fin 0\<rparr>
      else do {
        let observed = mutual_information A (binary pairs);
        let estimates = permuted_estimates iterations (mutual_information A) pairs (map sp_expected pairs)
              (max seed 1 XOR 0x7065726d75746521);
        null_p95 \<leftarrow> percentile A (sort estimates) 0.95;
        Some \<lparr>pr_p_value = fdiv A (of_int64 A (at_least_observed A observed estimates + 1))
                             (of_int64 A (iterations + 1)),
              pr_null_mean = mean A estimates, pr_null_p95 = null_p95\<rparr>
      })"

text \<open>The copy in the lab accumulates the sum of the estimates in the loop, has no percentile, and
  divides by the number of iterations also when that is zero; the permuted labels are those of the pairs, so that
  its table is out of range for a permutation only if it is for the pairs.\<close>

record lab_permutation =
  lp_p_value :: f64
  lp_null_mean :: f64

definition lab_permutation_test :: "arith \<Rightarrow> scored_pair list \<Rightarrow> u64 \<Rightarrow> nat \<Rightarrow> lab_permutation option" where
  "lab_permutation_test A pairs seed iterations =
     (if pairs = [] then Some \<lparr>lp_p_value = Fin 1, lp_null_mean = Fin 0\<rparr>
      else do {
        observed \<leftarrow> lab_mutual_information A (binary pairs);
        let estimates = permuted_estimates iterations (mutual_information A) pairs (map sp_expected pairs)
              (max seed 1 XOR 0x7065726d75746521);
        Some \<lparr>lp_p_value = fdiv A (of_int64 A (at_least_observed A observed estimates + 1))
                             (of_int64 A (iterations + 1)),
              lp_null_mean = fdiv A (fsum A estimates) (of_int64 A iterations)\<rparr>
      })"

definition error_rate :: "arith \<Rightarrow> scored_pair list \<Rightarrow> f64" where
  "error_rate A pairs =
     (if pairs = [] then Fin 0
      else fdiv A (of_int64 A (length (filter (\<lambda>p. sp_expected p \<noteq> sp_decoded p) pairs)))
             (of_int64 A (length pairs)))"

section \<open>Rounded arithmetic\<close>

text \<open>What holds of every arithmetic that rounds monotonically and has the small integers, and so of
  the deployed one.\<close>

context rounding
begin

lemma ratio_unit: "m \<le> n \<Longrightarrow> n \<le> 2 ^ 53 \<Longrightarrow> \<exists>r. ratio A m n = Fin r \<and> 0 \<le> r \<and> r \<le> 1"
  using fdiv_nat_unit [of m n] by (auto simp: ratio_def)

lemma percentile_index_less:
  assumes "0 < len" "len \<le> 2 ^ 53" "0 \<le> q" "q \<le> 1"
  shows "percentile_index A len q < len"
proof -
  obtain r where r: "rnd A q = Fin r" "0 \<le> r" "r \<le> 1" using rnd_unit assms(3,4) by blast
  have "real (len - 1) * r \<le> real (len - 1)" using r(3) by (simp add: mult_left_le)
  moreover have len: "rnd A (real (len - 1)) = Fin (real (len - 1))" using assms(2) by (intro rnd_nat) simp
  ultimately have "Fin 0 \<le> rnd A (real (len - 1) * r)" "rnd A (real (len - 1) * r) \<le> Fin (real (len - 1))"
    using rnd_nonneg r(2) rnd_mono [of "real (len - 1) * r" "real (len - 1)"] by simp_all
  then obtain v where v: "rnd A (real (len - 1) * r) = Fin v" "0 \<le> v" "v \<le> real (len - 1)"
    using between_Fin by blast
  then have "\<lfloor>v + 1 / 2\<rfloor> < int len" using assms(1) by (simp add: floor_less_iff)
  then show ?thesis
    using v assms(1) r(1) len by (simp add: percentile_index_def of_int64_def nat_less_iff)
qed

lemma percentile_total:
  "length xs \<le> 2 ^ 53 \<Longrightarrow> 0 \<le> q \<Longrightarrow> q \<le> 1 \<Longrightarrow>
   \<exists>x. percentile A xs q = Some x \<and> (xs \<noteq> [] \<longrightarrow> x \<in> set xs) \<and> (xs = [] \<longrightarrow> x = Fin 0)"
  using percentile_index_less [of "length xs" q] by (auto simp: percentile_def index_at_def)

lemma percentile_u64_total:
  "length xs \<le> 2 ^ 53 \<Longrightarrow> 0 \<le> q \<Longrightarrow> q \<le> 1 \<Longrightarrow>
   \<exists>x. percentile_u64 A xs q = Some x \<and> (xs \<noteq> [] \<longrightarrow> x \<in> set xs) \<and> (xs = [] \<longrightarrow> x = 0)"
  using percentile_index_less [of "length xs" q] by (auto simp: percentile_u64_def index_at_def)

lemma mutual_information_number: "Fin 0 \<le> mutual_information A pairs \<and> mutual_information A pairs \<noteq> NaN"
  using fmax_number [of "Fin 0"] by (simp add: mutual_information_def Let_def)

lemma joint_counts_exact:
  "length pairs \<le> 2 ^ 53 \<Longrightarrow>
   joint_counts A pairs p = Fin (real (if fst p \<le> 1 \<and> snd p \<le> 1 then count_list pairs p else 0))"
proof (induction pairs rule: rev_induct)
  case (snoc x pairs)
  have "count_list pairs p + 1 \<le> 2 ^ 53" using snoc.prems count_le_length [of pairs p] by simp
  then have "rnd A (real (count_list pairs p) + 1) = Fin (real (count_list pairs p) + 1)"
    using rnd_nat [of "count_list pairs p + 1"] by (simp add: add.commute)
  with snoc show ?case by (auto simp: joint_counts_def count_pair_def)
qed (simp add: joint_counts_def)

end

section \<open>Mutual information in exact arithmetic\<close>

text \<open>The contribution of one cell of the table.\<close>

definition mi_term :: "real \<Rightarrow> real \<Rightarrow> real \<Rightarrow> real \<Rightarrow> real" where
  "mi_term n r c j = (if j = 0 then 0 else j / n * log 2 (j * n / (r * c)))"

lemma log2_lower: "0 < u \<Longrightarrow> (1 - 1 / u) / ln 2 \<le> log 2 u"
proof -
  assume u: "0 < u"
  then have "ln (1 / u) \<le> 1 / u - 1" by (intro ln_le_minus_one) simp
  then have "1 - 1 / u \<le> ln u" using u by (simp add: ln_div)
  then show ?thesis unfolding log_def by (intro divide_right_mono) auto
qed

lemma log2_upper: "0 < u \<Longrightarrow> log 2 u \<le> (u - 1) / ln 2"
  unfolding log_def by (intro divide_right_mono ln_le_minus_one) auto

lemma mi_term_lower:
  assumes "0 < n" "0 \<le> j" "j \<le> r" "j \<le> c"
  shows "(j / n - r * c / n\<^sup>2) / ln 2 \<le> mi_term n r c j"
proof (cases "j = 0")
  case True
  then show ?thesis using assms by (simp add: mi_term_def)
next
  case False
  then have pos: "0 < j" "0 < r" "0 < c" using assms by auto
  have "0 < j * n / (r * c)" "0 \<le> j / n" using pos assms(1) by simp_all
  then have "j / n * ((1 - 1 / (j * n / (r * c))) / ln 2) \<le> mi_term n r c j"
    unfolding mi_term_def if_not_P [OF False] by (intro mult_left_mono log2_lower)
  moreover have "j / n * ((1 - 1 / (j * n / (r * c))) / ln 2) = (j / n - r * c / n\<^sup>2) / ln 2"
    using pos assms(1) by (simp add: field_simps power2_eq_square)
  ultimately show ?thesis by simp
qed

lemma mi_term_upper:
  assumes "0 < n" "0 \<le> j" "j \<le> r" "j \<le> c"
  shows "mi_term n r c j \<le> j / n + (j / (2 * c) - j / n) / ln 2"
proof (cases "j = 0")
  case True
  then show ?thesis by (simp add: mi_term_def)
next
  case False
  then have pos: "0 < j" "0 < r" "0 < c" using assms by auto
  have "j * n / (r * c) \<le> n / c"
    using pos assms by (simp add: field_simps mult_left_mono)
  then have "log 2 (j * n / (r * c)) \<le> log 2 (n / c)" using pos assms(1) by simp
  also have "\<dots> = 1 + log 2 (n / (2 * c))" using pos assms(1) by (simp add: log_divide log_mult)
  also have "\<dots> \<le> 1 + (n / (2 * c) - 1) / ln 2" using log2_upper [of "n / (2 * c)"] pos assms(1) by simp
  finally have "mi_term n r c j \<le> j / n * (1 + (n / (2 * c) - 1) / ln 2)"
    unfolding mi_term_def if_not_P [OF False] by (rule mult_left_mono) (use pos assms(1) in simp)
  also have "\<dots> = j / n + (j / (2 * c) - j / n) / ln 2"
    using pos assms(1) by (simp add: field_simps)
  finally show ?thesis .
qed

definition mi_sum :: "real \<Rightarrow> real \<Rightarrow> real \<Rightarrow> real \<Rightarrow> real" where
  "mi_sum w x y z =
     (let n = w + x + y + z
      in mi_term n (w + x) (w + y) w + mi_term n (w + x) (x + z) x +
         mi_term n (y + z) (w + y) y + mi_term n (y + z) (x + z) z)"

lemma mi_sum_bounds:
  assumes nonneg: "0 \<le> w" "0 \<le> x" "0 \<le> y" "0 \<le> z" and pos: "0 < w + x + y + z"
  shows "0 \<le> mi_sum w x y z \<and> mi_sum w x y z \<le> 1"
proof -
  define n where "n = w + x + y + z"
  note bounds = mi_term_lower [of n] mi_term_upper [of n]
  have n: "0 < n" using pos by (simp add: n_def)
  have "((w / n - (w + x) * (w + y) / n\<^sup>2) + (x / n - (w + x) * (x + z) / n\<^sup>2) +
        (y / n - (y + z) * (w + y) / n\<^sup>2) + (z / n - (y + z) * (x + z) / n\<^sup>2)) / ln 2 \<le> mi_sum w x y z"
    unfolding mi_sum_def Let_def n_def [symmetric] add_divide_distrib
    by (intro add_mono mi_term_lower n) (use nonneg in auto)
  moreover have "(w / n - (w + x) * (w + y) / n\<^sup>2) + (x / n - (w + x) * (x + z) / n\<^sup>2) +
        (y / n - (y + z) * (w + y) / n\<^sup>2) + (z / n - (y + z) * (x + z) / n\<^sup>2) = 0"
  proof -
    have "(w + x) * (w + y) + (w + x) * (x + z) + (y + z) * (w + y) + (y + z) * (x + z) = n * n"
      by (simp add: n_def algebra_simps)
    then have "((w + x) * (w + y) + (w + x) * (x + z) + (y + z) * (w + y) + (y + z) * (x + z)) / n\<^sup>2 = 1"
      using n by (simp add: power2_eq_square)
    moreover have "(w + x + y + z) / n = 1" using n by (simp add: n_def)
    ultimately show ?thesis by (simp add: add_divide_distrib)
  qed
  moreover have "mi_sum w x y z \<le>
     (w / n + (w / (2 * (w + y)) - w / n) / ln 2) + (x / n + (x / (2 * (x + z)) - x / n) / ln 2) +
     (y / n + (y / (2 * (w + y)) - y / n) / ln 2) + (z / n + (z / (2 * (x + z)) - z / n) / ln 2)"
    unfolding mi_sum_def Let_def n_def [symmetric]
    by (intro add_mono mi_term_upper n) (use nonneg in auto)
  moreover have "\<dots> \<le> 1"
  proof -
    have half: "(a / (2 * (a + b)) + b / (2 * (a + b))) \<le> 1 / 2" for a b :: real
    proof -
      have "s / (2 * s) \<le> 1 / 2" for s :: real by (cases "s = 0") simp_all
      from this [of "a + b"] show ?thesis by (simp only: add_divide_distrib)
    qed
    have "w / n + x / n + y / n + z / n = 1" using n by (simp add: n_def add_divide_distrib [symmetric])
    moreover from this have "(w / (2 * (w + y)) - w / n) + (x / (2 * (x + z)) - x / n) +
        (y / (2 * (w + y)) - y / n) + (z / (2 * (x + z)) - z / n) \<le> 0"
      using half [of w y] half [of x z] by linarith
    then have "((w / (2 * (w + y)) - w / n) + (x / (2 * (x + z)) - x / n) +
        (y / (2 * (w + y)) - y / n) + (z / (2 * (x + z)) - z / n)) / ln 2 \<le> 0"
      by (rule divide_nonpos_pos) simp
    ultimately show ?thesis by (simp add: add_divide_distrib)
  qed
  ultimately show ?thesis by auto
qed

text \<open>In exact arithmetic the program computes the plug-in estimate from the four counts.\<close>

lemma exact_fields [simp]: "rnd exact x = Fin x" "lg2 exact x = Fin (log 2 x)"
  by (simp_all add: exact_def)

lemma joint_counts_plain:
  "joint_counts exact pairs p = Fin (real (if fst p \<le> 1 \<and> snd p \<le> 1 then count_list pairs p else 0))"
  by (induction pairs rule: rev_induct) (auto simp: joint_counts_def count_pair_def)

lemma exact_cell:
  assumes "0 \<le> j" "j \<le> r" "j \<le> c" "0 < n"
  shows "(if flt (Fin 0) (Fin j)
          then fadd exact (Fin m) (fmul exact (fdiv exact (Fin j) (Fin n))
                 (flog2 exact (fdiv exact (fmul exact (Fin j) (Fin n)) (fmul exact (Fin r) (Fin c)))))
          else Fin m) = Fin (m + mi_term n r c j)"
proof (cases "j = 0")
  case True
  then show ?thesis by (simp add: flt_def fle_iff mi_term_def)
next
  case False
  then have "0 < j" "0 < r" "0 < c" using assms by auto
  moreover from this have "\<not> j * n / (r * c) < 0" using assms(4) by (simp add: not_less)
  ultimately show ?thesis using assms(4) by (simp add: flt_def fle_iff mi_term_def)
qed

lemma mutual_information_exact:
  assumes "pairs \<noteq> []"
  shows "mutual_information exact pairs =
    Fin (max (let c = (\<lambda>p. real (count_list pairs p)); n = real (length pairs)
              in mi_term n (c (0, 0) + c (0, 1)) (c (0, 0) + c (1, 0)) (c (0, 0)) +
                 mi_term n (c (0, 0) + c (0, 1)) (c (0, 1) + c (1, 1)) (c (0, 1)) +
                 mi_term n (c (1, 0) + c (1, 1)) (c (0, 0) + c (1, 0)) (c (1, 0)) +
                 mi_term n (c (1, 0) + c (1, 1)) (c (0, 1) + c (1, 1)) (c (1, 1))) 0)"
proof -
  let ?c = "\<lambda>p. real (count_list pairs p)" and ?n = "real (length pairs)"
  have n: "0 < ?n" using assms by simp
  have joint: "joint_counts exact pairs (0, 0) = Fin (?c (0, 0))" "joint_counts exact pairs (0, 1) = Fin (?c (0, 1))"
    "joint_counts exact pairs (1, 0) = Fin (?c (1, 0))" "joint_counts exact pairs (1, 1) = Fin (?c (1, 1))"
    by (simp_all add: joint_counts_plain)
  have clamp: "fmax (Fin m) (Fin 0) = Fin (max m 0)" for m
    by (simp add: fmax_def fle_iff max_def)
  note cell = exact_cell [where n = ?n, OF _ _ _ n]
  show ?thesis
    unfolding mutual_information_def Let_def cells_def if_not_P [OF assms] foldl_Cons foldl_Nil case_prod_conv
      joint of_int64_def exact_fields fadd.simps(1)
      cell [of "?c (0, 0)" "?c (0, 0) + ?c (0, 1)" "?c (0, 0) + ?c (1, 0)", simplified]
      cell [of "?c (0, 1)" "?c (0, 0) + ?c (0, 1)" "?c (0, 1) + ?c (1, 1)", simplified]
      cell [of "?c (1, 0)" "?c (1, 0) + ?c (1, 1)" "?c (0, 0) + ?c (1, 0)", simplified]
      cell [of "?c (1, 1)" "?c (1, 0) + ?c (1, 1)" "?c (0, 1) + ?c (1, 1)", simplified]
      clamp by simp
qed

lemma length_binary:
  "list_all (\<lambda>(a, b). a \<le> 1 \<and> b \<le> 1) pairs \<Longrightarrow>
   length pairs = count_list pairs (0, 0) + count_list pairs (0, 1) + count_list pairs (1, 0) + count_list pairs (1, 1 :: u8)"
  for pairs :: "(u8 \<times> u8) list"
proof (induction pairs)
  case (Cons p pairs)
  obtain a b where p: "p = (a, b)" by fastforce
  have "a = 0 \<or> a = 1" if "a \<le> 1" for a :: u8
    using that by (auto simp: word_le_nat_alt word_unat_eq_iff le_Suc_eq)
  then have "a = 0 \<or> a = 1" "b = 0 \<or> b = 1" using Cons.prems by (simp_all add: p)
  then show ?case using Cons by (auto simp: p)
qed simp

text \<open>C34: computed exactly, the mutual information of bits is between zero and one bit per trial, and
  it is the plug-in estimate from the four counts: the final clamp at zero never changes it.\<close>

theorem mutual_information_bounds:
  assumes "list_all (\<lambda>(a, b). a \<le> 1 \<and> b \<le> 1) pairs" and "pairs \<noteq> []"
  shows "\<exists>r. mutual_information exact pairs = Fin r \<and> 0 \<le> r \<and> r \<le> 1 \<and>
    r = mi_sum (count_list pairs (0, 0)) (count_list pairs (0, 1)) (count_list pairs (1, 0)) (count_list pairs (1, 1))"
proof -
  let ?c = "\<lambda>p. real (count_list pairs p)"
  have n: "real (length pairs) = ?c (0, 0) + ?c (0, 1) + ?c (1, 0) + ?c (1, 1)"
    using length_binary [OF assms(1)] by simp
  then have b: "0 \<le> mi_sum (?c (0, 0)) (?c (0, 1)) (?c (1, 0)) (?c (1, 1)) \<and>
      mi_sum (?c (0, 0)) (?c (0, 1)) (?c (1, 0)) (?c (1, 1)) \<le> 1"
    using assms(2) by (intro mi_sum_bounds) (simp_all flip: n)
  have "mutual_information exact pairs = Fin (max (mi_sum (?c (0, 0)) (?c (0, 1)) (?c (1, 0)) (?c (1, 1))) 0)"
    unfolding mutual_information_exact [OF assms(2)] mi_sum_def Let_def n by simp
  with b show ?thesis by simp
qed

theorem mutual_information_bounds_witness:
  "\<exists>r. mutual_information exact [(0, 0), (1, 1), (0, 1)] = Fin r \<and> r \<le> 1"
  using mutual_information_bounds [of "[(0, 0), (1, 1), (0, 1)]"] by auto

text \<open>The values of the unit tests: a perfect and an inverted channel carry one bit, independent labels
  none.\<close>

lemma mutual_information_perfect:
  "0 < k \<Longrightarrow> mi_sum k 0 0 k = 1" "0 < k \<Longrightarrow> mi_sum 0 k k 0 = 1" "0 < k \<Longrightarrow> mi_sum k k k k = 0"
  by (simp_all add: mi_sum_def mi_term_def)

section \<open>Permutations within the offsets\<close>

text \<open>The elements of a list at the positions that satisfy a predicate.\<close>

definition select :: "(nat \<Rightarrow> bool) \<Rightarrow> 'a list \<Rightarrow> 'a multiset" where
  "select P xs = image_mset ((!) xs) (mset_set {k. k < length xs \<and> P k})"

lemma length_swap [simp]: "length (swap i j xs) = length xs"
  by (simp add: swap_def)

lemma nth_swap_other: "k \<noteq> i \<Longrightarrow> k \<noteq> j \<Longrightarrow> swap i j xs ! k = xs ! k"
  by (simp add: swap_def)

lemma select_swap:
  assumes "i < length xs" "j < length xs" "P i \<longleftrightarrow> P j"
  shows "select P (swap i j xs) = select P xs"
proof (cases "P i \<and> i \<noteq> j")
  case True
  let ?R = "{k. k < length xs \<and> P k \<and> k \<noteq> i \<and> k \<noteq> j}"
  have "{k. k < length xs \<and> P k} = insert i (insert j ?R)" using assms True by auto
  then have split: "select P ys = {#ys ! i, ys ! j#} + image_mset ((!) ys) (mset_set ?R)"
    if "length ys = length xs" for ys using that True by (simp add: select_def)
  have "image_mset ((!) (swap i j xs)) (mset_set ?R) = image_mset ((!) xs) (mset_set ?R)"
    by (rule image_mset_cong) (simp add: nth_swap_other)
  then show ?thesis using assms True by (simp add: split swap_def)
next
  case False
  have "image_mset ((!) (swap i j xs)) (mset_set {k. k < length xs \<and> P k}) =
      image_mset ((!) xs) (mset_set {k. k < length xs \<and> P k})"
    using False assms by (intro image_mset_cong) (auto simp: swap_def nth_list_update)
  then show ?thesis by (simp add: select_def)
qed

lemma length_permute_group [simp]: "length (fst (permute_group members i xs s)) = length xs"
  by (induction members i xs s rule: permute_group.induct) (simp_all add: split_beta Let_def)

lemma length_permute_groups [simp]: "length (fst (permute_groups groups xs s)) = length xs"
  by (induction groups xs s rule: permute_groups.induct) (simp_all add: split_beta Let_def)

text \<open>Swaps among the members of a group, all of which satisfy the predicate or none, keep a selection.\<close>

lemma select_permute_group:
  assumes "\<And>k. k \<in> set members \<Longrightarrow> k < length xs" "\<And>k l. k \<in> set members \<Longrightarrow> l \<in> set members \<Longrightarrow> P k \<longleftrightarrow> P l"
  shows "i = 0 \<or> i < length members \<Longrightarrow> select P (fst (permute_group members i xs s)) = select P xs"
  using assms
proof (induction i arbitrary: xs s)
  case (Suc i)
  obtain j s' where j: "random_index s (Suc (Suc i)) = (j, s')" by fastforce
  then have "j < length members" using xorshift_index.index_bound [of "Suc (Suc i)" s] Suc.prems(1) by simp
  then have in_members: "members ! j \<in> set members" "members ! Suc i \<in> set members" using Suc.prems(1) by auto
  then have "select P (swap (members ! Suc i) (members ! j) xs) = select P xs"
    using Suc.prems(2,3) by (intro select_swap) blast+
  moreover have "select P (fst (permute_group members i (swap (members ! Suc i) (members ! j) xs) s')) =
      select P (swap (members ! Suc i) (members ! j) xs)"
  proof (rule Suc.IH)
    show "i = 0 \<or> i < length members" using Suc.prems(1) by auto
    show "k < length (swap (members ! Suc i) (members ! j) xs)" if "k \<in> set members" for k
      using Suc.prems(2) that by simp
    show "P k \<longleftrightarrow> P l" if "k \<in> set members" "l \<in> set members" for k l using that by (rule Suc.prems(3))
  qed
  ultimately show ?case by (simp add: j)
qed simp

lemma select_permute_groups:
  assumes "\<And>members k. members \<in> set groups \<Longrightarrow> k \<in> set members \<Longrightarrow> k < length xs"
    "\<And>members k l. members \<in> set groups \<Longrightarrow> k \<in> set members \<Longrightarrow> l \<in> set members \<Longrightarrow> P k \<longleftrightarrow> P l"
  shows "select P (fst (permute_groups groups xs s)) = select P xs"
  using assms
proof (induction groups arbitrary: xs s)
  case (Cons members groups)
  obtain ys s' where ys: "permute_group members (length members - 1) xs s = (ys, s')" by fastforce
  have "select P (fst (permute_group members (length members - 1) xs s)) = select P xs"
  proof (rule select_permute_group)
    show "k < length xs" if "k \<in> set members" for k using that Cons.prems(1) [of members] by simp
    show "P k \<longleftrightarrow> P l" if "k \<in> set members" "l \<in> set members" for k l
      by (rule Cons.prems(2) [of members]) (use that in simp_all)
    show "length members - 1 = 0 \<or> length members - 1 < length members" by linarith
  qed
  moreover have "select P (fst (permute_groups groups ys s')) = select P ys"
  proof (rule Cons.IH)
    have "length ys = length xs" using length_permute_group [of members "length members - 1" xs s] unfolding ys by simp
    then show "k < length ys" if "m \<in> set groups" "k \<in> set m" for m k
      using that Cons.prems(1) [of m] by simp
    show "P k \<longleftrightarrow> P l" if "m \<in> set groups" "k \<in> set m" "l \<in> set m" for m k l
      by (rule Cons.prems(2) [of m]) (use that in simp_all)
  qed
  ultimately show ?case using ys by simp
qed simp

text \<open>C35: every permutation of the test is stratified: for every overlap offset, the labels of the
  trials at that offset are rearranged among themselves, so that each offset keeps its numbers of
  zeros and ones.\<close>

theorem permutation_is_stratified:
  assumes "length expected = length pairs"
  shows "select (\<lambda>i. sp_offset (pairs ! i) = offset) (fst (permute_groups (offset_groups pairs) expected state)) =
     select (\<lambda>i. sp_offset (pairs ! i) = offset) expected"
  using assms by (intro select_permute_groups) (auto simp: offset_groups_def)

theorem permutation_is_stratified_witness:
  "let pairs = [\<lparr>sp_expected = 0, sp_decoded = 1, sp_offset = 5\<rparr>, \<lparr>sp_expected = 1, sp_decoded = 1, sp_offset = 5\<rparr>];
       permuted = fst (permute_groups (offset_groups pairs) [0, 1 :: u8] 7)
   in select (\<lambda>i. sp_offset (pairs ! i) = 5) permuted = select (\<lambda>i. sp_offset (pairs ! i) = 5) [0, 1]"
  unfolding Let_def by (rule permutation_is_stratified) simp

section \<open>The result of the test\<close>

lemma length_permuted_estimates [simp]: "length (permuted_estimates n f pairs expected s) = n"
  by (induction n f pairs expected s rule: permuted_estimates.induct) (simp_all add: split_beta Let_def)

context rounding
begin

lemma p_value_unit:
  "length estimates = n \<Longrightarrow> n < 2 ^ 53 \<Longrightarrow>
   \<exists>r. fdiv A (of_int64 A (at_least_observed A observed estimates + 1)) (of_int64 A (n + 1)) = Fin r \<and> 0 \<le> r \<and> r \<le> 1"
  using length_filter_le [of "\<lambda>e. fle (fsub A observed EPSILON) e" estimates]
  by (intro fdiv_nat_unit) (auto simp: at_least_observed_def)

lemma permutation_test_total:
  assumes "iterations < 2 ^ 53"
  shows "\<exists>r. permutation_test A pairs seed iterations = Some r \<and> (\<exists>p. pr_p_value r = Fin p \<and> 0 \<le> p \<and> p \<le> 1)"
proof (cases "pairs = [] \<or> iterations = 0")
  case True
  then show ?thesis by (simp add: permutation_test_def)
next
  case False
  let ?estimates = "permuted_estimates iterations (mutual_information A) pairs (map sp_expected pairs)
    (max seed 1 XOR 0x7065726d75746521)"
  obtain x where "percentile A (sort ?estimates) 0.95 = Some x"
    using percentile_total [of "sort ?estimates" "0.95"] assms by auto
  then show ?thesis
    using False p_value_unit [of ?estimates iterations "mutual_information A (binary pairs)"] assms
    by (simp add: permutation_test_def Let_def)
qed

end

end
