(* ===== verification/Bench_Client.thy ===== *)
theory Bench_Client
  imports Protocol Statistics
begin

text \<open>
  The client of the synthetic leakage benchmark, \<open>crates/bench-client/src/main.rs\<close>: the calibration and
  the decoding of probe latencies, and the report computed from the records of a run. A panic of the
  program is the value \<open>None\<close>, an error it returns an element of \<open>bench_error\<close>.
\<close>

section \<open>Errors, sessions and models\<close>

datatype bench_error =
  AdminTokenTooShort | ProfileNotAdvertised | TooFewTrials nat | NoSenderSession | NoPlan | Interrupted
  | Http string | TaskPanicked | DecodeTurnResponse | MissingZeroCalibration | MissingOneCalibration
  | StopExperiment bench_error | Panicked | WriteFailed string

record client_session =
  cs_id :: string
  cs_token :: string

record offset_calibration =
  oc_zero_mean_us :: f64
  oc_one_mean_us :: f64
  oc_threshold_us :: f64
  oc_high_latency_is_one :: bool

record calibration_model =
  cm_by_offset :: "u64 \<rightharpoonup> offset_calibration"
  cm_scoring_starts_at_trial :: u64

abbreviation http_ok :: u16 where
  "http_ok \<equiv> 200"

definition duration_us :: "arith \<Rightarrow> u128 \<Rightarrow> u128 \<Rightarrow> f64" where
  "duration_us A start finish =
     fdiv A (of_int64 A (unat (saturating_sub finish start))) (of_int64 A 1000)"

definition trim_end_slash :: "string \<Rightarrow> string" where
  "trim_end_slash s = rev (dropWhile (\<lambda>c. c = CHR ''/'') (rev s))"

definition endpoint :: "string \<Rightarrow> string \<Rightarrow> string" where
  "endpoint base path = trim_end_slash base @ path"

section \<open>Calibration and decoding\<close>

definition probe_latencies :: "arith \<Rightarrow> client_timing_record list \<Rightarrow> f64 list" where
  "probe_latencies A records =
     map (\<lambda>r. duration_us A (ct_sent_at_ns r) (ct_completed_at_ns r))
       (filter (\<lambda>r. ct_role r = WProbe \<and> ct_status r = http_ok) records)"

definition aggregate_probe_latency :: "arith \<Rightarrow> client_timing_record list \<Rightarrow> u64 \<Rightarrow> f64 option" where
  "aggregate_probe_latency A records trial_id =
     (let latencies = probe_latencies A (filter (\<lambda>r. ct_trial_id r = trial_id) records)
      in if latencies = [] then None else Some (mean A latencies))"

definition add_sample ::
    "(u64 \<times> u8 \<Rightarrow> f64 list option) \<Rightarrow> u64 \<times> u8 \<Rightarrow> f64 \<Rightarrow> (u64 \<times> u8 \<Rightarrow> f64 list option)" where
  "add_sample samples key latency =
     samples(key \<mapsto> (case samples key of None \<Rightarrow> [] | Some values \<Rightarrow> values) @ [latency])"

fun collect_samples ::
    "arith \<Rightarrow> client_timing_record list \<Rightarrow> nat \<Rightarrow> trial_plan list \<Rightarrow> (u64 \<times> u8 \<Rightarrow> f64 list option)
     \<Rightarrow> (u64 \<times> u8 \<Rightarrow> f64 list option)" where
  "collect_samples A records trial_id [] samples = samples"
| "collect_samples A records trial_id (planned # plan) samples =
     collect_samples A records (Suc trial_id) plan
       (case aggregate_probe_latency A records (of_nat trial_id) of
          None \<Rightarrow> samples
        | Some latency \<Rightarrow> add_sample samples (plan_offset planned, plan_bit planned) latency)"

definition offset_model :: "arith \<Rightarrow> f64 list \<Rightarrow> f64 list \<Rightarrow> offset_calibration" where
  "offset_model A zero one =
     (let zero_mean = mean A zero; one_mean = mean A one
      in \<lparr>oc_zero_mean_us = zero_mean, oc_one_mean_us = one_mean,
          oc_threshold_us = fdiv A (fadd A zero_mean one_mean) (of_int64 A 2),
          oc_high_latency_is_one = fle zero_mean one_mean\<rparr>)"

fun calibrate_offsets ::
    "arith \<Rightarrow> (u64 \<times> u8 \<Rightarrow> f64 list option) \<Rightarrow> trial_plan list \<Rightarrow> (u64 \<rightharpoonup> offset_calibration)
     \<Rightarrow> bench_error + (u64 \<rightharpoonup> offset_calibration)" where
  "calibrate_offsets A samples [] by_offset = Inr by_offset"
| "calibrate_offsets A samples (planned # plan) by_offset =
     try_bind (ok_or (samples (plan_offset planned, 0)) MissingZeroCalibration) (\<lambda>zero.
     try_bind (ok_or (samples (plan_offset planned, 1)) MissingOneCalibration) (\<lambda>one.
       calibrate_offsets A samples plan (by_offset(plan_offset planned \<mapsto> offset_model A zero one))))"

definition calibration_length :: "trial_plan list \<Rightarrow> nat" where
  "calibration_length plan =
     card (set (map plan_offset plan)) * CALIBRATION_SAMPLES_PER_BIT_AND_OFFSET * 2"

definition calibrate ::
    "arith \<Rightarrow> client_timing_record list \<Rightarrow> trial_plan list \<Rightarrow> (bench_error + calibration_model) option" where
  "calibrate A records plan =
     (let n = calibration_length plan;
          samples = collect_samples A records 0 (take n plan) (\<lambda>_. None)
      in if length plan < n then None
         else Some (try_bind (calibrate_offsets A samples (take n plan) (\<lambda>_. None)) (\<lambda>by_offset.
                Inr \<lparr>cm_by_offset = by_offset, cm_scoring_starts_at_trial = of_nat n\<rparr>)))"

definition decode_bit :: "arith \<Rightarrow> client_timing_record list \<Rightarrow> u64 \<Rightarrow> calibration_model \<Rightarrow> u8 option" where
  "decode_bit A records target_overlap_us calibration =
     (let latencies = probe_latencies A records
      in case cm_by_offset calibration target_overlap_us of
           None \<Rightarrow> None
         | Some model \<Rightarrow>
             if latencies = [] then None
             else (let high = fle (oc_threshold_us model) (mean A latencies)
                   in Some (if (if oc_high_latency_is_one model then high else \<not> high) then 1 else 0)))"

text \<open>The loop of \<open>run_matrix\<close> that decodes the trials after the calibration. The plan is indexed with the
  trial number.\<close>

definition decode_trial ::
    "arith \<Rightarrow> trial_plan list \<Rightarrow> calibration_model \<Rightarrow> nat \<Rightarrow> client_timing_record list
     \<Rightarrow> client_timing_record list option" where
  "decode_trial A plan calibration trial_id records =
     (let ours = (\<lambda>r. ct_role r = WProbe \<and> ct_trial_id r = of_nat trial_id)
      in map_option (\<lambda>planned.
           let decoded = decode_bit A (filter ours records) (plan_offset planned) calibration
           in map (\<lambda>r. if ours r then r\<lparr>ct_decoded_bit := decoded\<rparr> else r) records)
         (index_at plan trial_id))"

fun decode_trials ::
    "arith \<Rightarrow> trial_plan list \<Rightarrow> calibration_model \<Rightarrow> nat list \<Rightarrow> client_timing_record list
     \<Rightarrow> client_timing_record list option" where
  "decode_trials A plan calibration [] records = Some records"
| "decode_trials A plan calibration (trial_id # trial_ids) records =
     Option.bind (decode_trial A plan calibration trial_id records)
       (decode_trials A plan calibration trial_ids)"

section \<open>Scored pairs\<close>

fun decoded_by_trial :: "client_timing_record list \<Rightarrow> (u64 \<rightharpoonup> u8) \<Rightarrow> (u64 \<rightharpoonup> u8)" where
  "decoded_by_trial [] decoded = decoded"
| "decoded_by_trial (r # records) decoded =
     decoded_by_trial records
       (if ct_role r = WProbe
        then (case ct_decoded_bit r of
                None \<Rightarrow> decoded
              | Some b \<Rightarrow> if decoded (ct_trial_id r) = None then decoded(ct_trial_id r \<mapsto> b) else decoded)
        else decoded)"

definition sender_succeeded :: "client_timing_record list \<Rightarrow> nat \<Rightarrow> bool" where
  "sender_succeeded records trial_no \<longleftrightarrow>
     list_ex (\<lambda>r. ct_trial_id r = of_nat trial_no \<and> (ct_role r = WSender \<or> ct_role r = WControl) \<and>
                  ct_status r = http_ok) records"

fun score_trials ::
    "client_timing_record list \<Rightarrow> (u64 \<rightharpoonup> u8) \<Rightarrow> trial_plan list \<Rightarrow> nat \<Rightarrow> u8 list \<Rightarrow> scored_pair list option" where
  "score_trials records decoded plan trial_no [] = Some []"
| "score_trials records decoded plan trial_no (expected # bits) =
     (case (if sender_succeeded records trial_no then decoded (of_nat trial_no) else None) of
        None \<Rightarrow> score_trials records decoded plan (Suc trial_no) bits
      | Some d \<Rightarrow> do {
          planned \<leftarrow> index_at plan trial_no;
          rest \<leftarrow> score_trials records decoded plan (Suc trial_no) bits;
          Some (\<lparr>sp_expected = expected, sp_decoded = d, sp_offset = plan_offset planned\<rparr> # rest)
        })"

definition scored_pairs :: "client_timing_record list \<Rightarrow> u8 list \<Rightarrow> trial_plan list \<Rightarrow> scored_pair list option" where
  "scored_pairs records expected_bits plan =
     score_trials records (decoded_by_trial records (\<lambda>_. None)) plan 0 expected_bits"

section \<open>Summaries\<close>

definition offset_summary ::
    "arith \<Rightarrow> scored_pair list \<Rightarrow> calibration_model \<Rightarrow> u64 \<Rightarrow> u64 \<Rightarrow> offset_leakage_summary option" where
  "offset_summary A pairs calibration seed offset =
     do {
       let selected = filter (\<lambda>p. sp_offset p = offset) pairs;
       let mi = mutual_information A (binary selected);
       permutation \<leftarrow> permutation_test A selected (seed XOR offset) 1000;
       model \<leftarrow> cm_by_offset calibration offset;
       Some \<lparr>ol_target_overlap_us = offset,
             ol_calibration_zero_mean_us = oc_zero_mean_us model,
             ol_calibration_one_mean_us = oc_one_mean_us model,
             ol_calibration_threshold_us = oc_threshold_us model,
             ol_high_latency_is_one = oc_high_latency_is_one model,
             ol_usable_trials = of_nat (length selected),
             ol_bit_error_rate =
               ratio A (length (filter (\<lambda>p. sp_expected p \<noteq> sp_decoded p) selected)) (length selected),
             ol_mutual_information_bits_per_trial = mi,
             ol_corrected_mutual_information_bits_per_trial = fmax (fsub A mi (pr_null_mean permutation)) (Fin 0),
             ol_permutation_p_value = pr_p_value permutation\<rparr>
     }"

fun traverse :: "('a \<Rightarrow> 'b option) \<Rightarrow> 'a list \<Rightarrow> 'b list option" where
  "traverse f [] = Some []"
| "traverse f (x # xs) = do { y \<leftarrow> f x; ys \<leftarrow> traverse f xs; Some (y # ys) }"

definition offset_summaries ::
    "arith \<Rightarrow> scored_pair list \<Rightarrow> calibration_model \<Rightarrow> u64 \<Rightarrow> offset_leakage_summary list option" where
  "offset_summaries A pairs calibration seed =
     traverse (offset_summary A pairs calibration seed) (sorted_dedup (map sp_offset pairs))"

definition overlaps :: "arith \<Rightarrow> server_timing_record list \<Rightarrow> f64 list" where
  "overlaps A records =
     concat (map (\<lambda>sender.
       map (\<lambda>probe.
              let start = max (st_wasm_enter_at_ns sender) (st_wasm_enter_at_ns probe);
                  finish = min (st_wasm_exit_at_ns sender) (st_wasm_exit_at_ns probe)
              in fdiv A (of_int64 A (unat (saturating_sub finish start))) (of_int64 A 1000))
         (filter (\<lambda>r. st_role r = WProbe \<and> st_trial_id r = st_trial_id sender) records))
       (filter (\<lambda>r. st_role r = WSender) records))"

definition overlap_summary :: "arith \<Rightarrow> server_timing_record list \<Rightarrow> overlap_summary_t option" where
  "overlap_summary A records =
     do {
       let values = sort (overlaps A records);
       p0 \<leftarrow> percentile A values 0; p50 \<leftarrow> percentile A values 0.5;
       p95 \<leftarrow> percentile A values 0.95; p100 \<leftarrow> percentile A values 1;
       Some \<lparr>ov_samples = of_nat (length values), ov_min_us = p0, ov_p50_us = p50, ov_p95_us = p95,
             ov_max_us = p100\<rparr>
     }"

definition latency_summary :: "arith \<Rightarrow> client_timing_record list \<Rightarrow> latency_summary_t option" where
  "latency_summary A records =
     do {
       let values = sort (map (\<lambda>r. duration_us A (ct_sent_at_ns r) (ct_completed_at_ns r))
             (filter (\<lambda>r. ct_role r = WProbe) records));
       p0 \<leftarrow> percentile A values 0; p50 \<leftarrow> percentile A values 0.5; p95 \<leftarrow> percentile A values 0.95;
       p99 \<leftarrow> percentile A values 0.99; p100 \<leftarrow> percentile A values 1;
       Some \<lparr>la_samples = of_nat (length values), la_min_us = p0, la_p50_us = p50, la_p95_us = p95,
             la_p99_us = p99, la_max_us = p100\<rparr>
     }"

definition max_or_zero :: "'a::len word list \<Rightarrow> 'a word" where
  "max_or_zero values = (case values of [] \<Rightarrow> 0 | v # vs \<Rightarrow> fold max vs v)"

definition min_or_zero :: "'a::len word list \<Rightarrow> 'a word" where
  "min_or_zero values = (case values of [] \<Rightarrow> 0 | v # vs \<Rightarrow> fold min vs v)"

definition as_millis :: "arith \<Rightarrow> u128 \<Rightarrow> f64" where
  "as_millis A ns = fdiv A (of_int64 A (unat ns)) (of_int64 A 1000000)"

definition utilization_summary :: "arith \<Rightarrow> server_timing_record list \<Rightarrow> utilization_summary_t" where
  "utilization_summary A records =
     \<lparr>ut_completed_turns = of_nat (length records),
      ut_trapped_turns = of_nat (length (filter (\<lambda>r. st_trap r \<noteq> None) records)),
      ut_timed_out_turns = of_nat (length (filter st_timed_out records)),
      ut_total_wasm_time_ms =
        fsum A (map (\<lambda>r. as_millis A (saturating_sub (st_wasm_exit_at_ns r) (st_wasm_enter_at_ns r))) records),
      ut_wall_time_ms =
        as_millis A (saturating_sub (max_or_zero (map st_response_release_at_ns records))
                                    (min_or_zero (map st_queued_at_ns records)))\<rparr>"

section \<open>The report\<close>

definition trials_per_hour :: "arith \<Rightarrow> client_timing_record list \<Rightarrow> nat \<Rightarrow> f64" where
  "trials_per_hour A client_records scored =
     (let wall_ns = saturating_sub (max_or_zero (map ct_completed_at_ns client_records))
                                   (min_or_zero (map ct_sent_at_ns client_records))
      in if wall_ns = 0 then Fin 0
         else fdiv A (fmul A (of_int64 A scored) (of_int64 A 3600000000000)) (of_int64 A (unat wall_ns)))"

definition compute_report ::
    "arith \<Rightarrow> experiment_run_info \<Rightarrow> server_timing_record list \<Rightarrow> client_timing_record list \<Rightarrow> u8 list
     \<Rightarrow> trial_plan list \<Rightarrow> calibration_model \<Rightarrow> u64 \<Rightarrow> u64 \<Rightarrow> bool \<Rightarrow> leakage_report option" where
  "compute_report A run_info server_records client_records expected_bits plan calibration calibration_count
     seed control =
     do {
       pairs \<leftarrow> scored_pairs client_records expected_bits plan;
       let how_many = (\<lambda>P. length (filter P pairs));
       let errors = how_many (\<lambda>p. sp_expected p \<noteq> sp_decoded p);
       let zero = how_many (\<lambda>p. sp_expected p = 0);
       let one = how_many (\<lambda>p. sp_expected p = 1);
       let fp = how_many (\<lambda>p. sp_expected p = 0 \<and> sp_decoded p = 1);
       let fn = how_many (\<lambda>p. sp_expected p = 1 \<and> sp_decoded p = 0);
       let decoded_positive = how_many (\<lambda>p. sp_decoded p = 1);
       let mi = mutual_information A (binary pairs);
       let (raw_confidence_low, raw_confidence_high) = bootstrap_mi A (binary pairs) seed;
       permutation \<leftarrow> permutation_test A pairs seed 2000;
       let corrected_mi = fmax (fsub A mi (pr_null_mean permutation)) (Fin 0);
       let detected = fle (pr_p_value permutation) (rnd A 0.05);
       let per_hour = trials_per_hour A client_records (length pairs);
       let corrected_rate = estimate_reliable_bits_per_hour A corrected_mi per_hour;
       summaries \<leftarrow> offset_summaries A pairs calibration seed;
       overlap \<leftarrow> overlap_summary A server_records;
       latency \<leftarrow> latency_summary A client_records;
       Some \<lparr>lr_run_id = ri_run_id run_info, lr_profile_id = ep_id (ri_profile run_info), lr_seed = seed,
             lr_control = control, lr_run_info = run_info, lr_synthetic_bits = expected_bits,
             lr_target_overlap_us_by_trial = map plan_offset plan,
             lr_total_trials = of_nat (length expected_bits), lr_calibration_trials = calibration_count,
             lr_usable_trials = of_nat (length pairs), lr_probe_aggregation = ''mean_latency_per_trial'',
             lr_bit_error_rate = ratio A errors (length pairs),
             lr_false_positive_rate = ratio A fp zero, lr_false_negative_rate = ratio A fn one,
             lr_false_discovery_rate = ratio A fp decoded_positive,
             lr_mutual_information_bits_per_trial = mi,
             lr_corrected_mutual_information_bits_per_trial = corrected_mi,
             lr_raw_reliable_bits_per_hour = estimate_reliable_bits_per_hour A mi per_hour,
             lr_corrected_reliable_bits_per_hour = corrected_rate,
             lr_reliable_bits_per_hour = (if detected then corrected_rate else Fin 0),
             lr_raw_information_bits_observed = fmul A mi (of_int64 A (length pairs)),
             lr_corrected_information_bits_observed = fmul A corrected_mi (of_int64 A (length pairs)),
             lr_scored_trials_per_hour = per_hour, lr_permutation_p_value = pr_p_value permutation,
             lr_statistically_detected = detected, lr_permutation_null_mean = pr_null_mean permutation,
             lr_permutation_null_p95 = pr_null_p95 permutation,
             lr_confidence_low = fmax (fsub A raw_confidence_low (pr_null_mean permutation)) (Fin 0),
             lr_confidence_high = fmax (fsub A raw_confidence_high (pr_null_mean permutation)) (Fin 0),
             lr_offset_summaries = summaries, lr_overlap_summary = overlap, lr_latency_histogram = latency,
             lr_utilization = utilization_summary A server_records, lr_server_records = server_records,
             lr_client_records = client_records\<rparr>
     }"

section \<open>Decoded bits\<close>

text \<open>Where a decoded bit comes from: from a trial of the plan after the calibration, whose offset is
  calibrated.\<close>

definition decoded_ok :: "trial_plan list \<Rightarrow> calibration_model \<Rightarrow> nat \<Rightarrow> client_timing_record \<Rightarrow> bool" where
  "decoded_ok plan calibration start r \<longleftrightarrow>
     (\<forall>b. ct_decoded_bit r = Some b \<longrightarrow>
        (\<exists>t. start \<le> t \<and> t < length plan \<and> ct_trial_id r = of_nat t \<and>
             cm_by_offset calibration (plan_offset (plan ! t)) \<noteq> None))"

lemma decode_bit_calibrated: "decode_bit A records offset cal = Some b \<Longrightarrow> cm_by_offset cal offset \<noteq> None"
  by (auto simp: decode_bit_def Let_def split: option.splits)

lemma decode_trial_ok:
  assumes "t < length plan" "start \<le> t" "\<And>r. r \<in> set records \<Longrightarrow> decoded_ok plan cal start r"
  shows "\<exists>decoded. decode_trial A plan cal t records = Some decoded \<and> length decoded = length records \<and>
    (\<forall>r \<in> set decoded. decoded_ok plan cal start r)"
proof -
  let ?ours = "\<lambda>r. ct_role r = WProbe \<and> ct_trial_id r = of_nat t"
  let ?d = "decode_bit A (filter ?ours records) (plan_offset (plan ! t)) cal"
  let ?records = "map (\<lambda>r. if ?ours r then r\<lparr>ct_decoded_bit := ?d\<rparr> else r) records"
  have new: "decoded_ok plan cal start (r\<lparr>ct_decoded_bit := ?d\<rparr>)" if "ct_trial_id r = of_nat t" for r
    using that assms(1,2) decode_bit_calibrated unfolding decoded_ok_def by fastforce
  have "decoded_ok plan cal start r" if "r \<in> set ?records" for r
  proof -
    from that obtain q where "q \<in> set records" "r = (if ?ours q then q\<lparr>ct_decoded_bit := ?d\<rparr> else q)"
      unfolding set_map by blast
    then show ?thesis using new [of q] assms(3) [of q] by (cases "?ours q") simp_all
  qed
  moreover have "decode_trial A plan cal t records = Some ?records"
    using assms(1) by (simp add: decode_trial_def index_at_def Let_def)
  ultimately show ?thesis by (intro exI [of _ ?records]) simp
qed

lemma decode_trials_ok:
  assumes "\<And>t. t \<in> set ts \<Longrightarrow> start \<le> t \<and> t < length plan" "\<And>r. r \<in> set records \<Longrightarrow> decoded_ok plan cal start r"
  shows "\<exists>decoded. decode_trials A plan cal ts records = Some decoded \<and> length decoded = length records \<and>
    (\<forall>r \<in> set decoded. decoded_ok plan cal start r)"
  using assms
proof (induction ts arbitrary: records)
  case (Cons t ts)
  obtain d where d: "decode_trial A plan cal t records = Some d" "length d = length records"
    "\<forall>r \<in> set d. decoded_ok plan cal start r"
    using decode_trial_ok [of t plan start records cal A] Cons.prems by auto
  with Cons.IH [of d] Cons.prems(1) show ?case by simp
qed simp

lemma decoded_by_trial_source:
  "decoded_by_trial records m t = Some b \<Longrightarrow>
   m t = Some b \<or> (\<exists>r \<in> set records. ct_trial_id r = t \<and> ct_decoded_bit r = Some b)"
proof (induction records arbitrary: m)
  case (Cons r records)
  from Cons.prems have "decoded_by_trial records
     (if ct_role r = WProbe
      then (case ct_decoded_bit r of None \<Rightarrow> m
            | Some b \<Rightarrow> if m (ct_trial_id r) = None then m(ct_trial_id r \<mapsto> b) else m)
      else m) t = Some b" by simp
  from Cons.IH [OF this] show ?case by (auto split: if_splits option.splits)
qed simp

lemma decoded_by_trial_iff:
  "decoded_by_trial records m t \<noteq> None \<longleftrightarrow>
   m t \<noteq> None \<or> (\<exists>r \<in> set records. ct_role r = WProbe \<and> ct_trial_id r = t \<and> ct_decoded_bit r \<noteq> None)"
  by (induction records arbitrary: m) (auto split: option.splits)

text \<open>Trials with an answer: a probe of the trial that the server answered with success. Decoding changes
  nothing but the decoded bits, and on calibrated offsets it decodes exactly the trials with an answer.\<close>

definition probe_answered :: "client_timing_record list \<Rightarrow> nat \<Rightarrow> bool" where
  "probe_answered records t \<longleftrightarrow>
     (\<exists>r \<in> set records. ct_role r = WProbe \<and> ct_trial_id r = of_nat t \<and> ct_status r = http_ok)"

definition undecoded :: "client_timing_record \<Rightarrow> client_timing_record" where
  "undecoded r = r\<lparr>ct_decoded_bit := None\<rparr>"

lemma undecoded_simps [simp]:
  "ct_role (undecoded r) = ct_role r" "ct_trial_id (undecoded r) = ct_trial_id r" "ct_status (undecoded r) = ct_status r"
  "undecoded (r\<lparr>ct_decoded_bit := d\<rparr>) = undecoded r"
  by (simp_all add: undecoded_def)

lemma same_records:
  assumes "map undecoded records' = map undecoded records"
  shows "sender_succeeded records' t = sender_succeeded records t" "probe_answered records' t = probe_answered records t"
proof -
  have "sender_succeeded rs t = sender_succeeded (map undecoded rs) t" for rs
    by (simp add: sender_succeeded_def list_ex_iff)
  with assms show "sender_succeeded records' t = sender_succeeded records t" by metis
  have "probe_answered rs t = probe_answered (map undecoded rs) t" for rs by (simp add: probe_answered_def)
  with assms show "probe_answered records' t = probe_answered records t" by metis
qed

lemma decode_bit_answered:
  "cm_by_offset cal offset \<noteq> None \<Longrightarrow>
   decode_bit A (filter (\<lambda>r. ct_role r = WProbe \<and> ct_trial_id r = of_nat t) records) offset cal \<noteq> None
     \<longleftrightarrow> probe_answered records t"
  by (auto simp: decode_bit_def probe_latencies_def probe_answered_def filter_empty_conv Let_def split: if_splits)

definition decoded_answered :: "client_timing_record list \<Rightarrow> nat \<Rightarrow> bool" where
  "decoded_answered records t \<longleftrightarrow>
     (\<forall>r \<in> set records. ct_role r = WProbe \<longrightarrow> ct_trial_id r = of_nat t \<longrightarrow>
        (ct_decoded_bit r \<noteq> None \<longleftrightarrow> probe_answered records t))"

lemma decode_trial_answered:
  assumes "decode_trial A plan cal t records = Some decoded" "cm_by_offset cal (plan_offset (plan ! t)) \<noteq> None"
  shows "map undecoded decoded = map undecoded records" "decoded_answered decoded t"
    "decoded_answered records u \<Longrightarrow> decoded_answered decoded u"
proof -
  let ?ours = "\<lambda>r. ct_role r = WProbe \<and> ct_trial_id r = of_nat t"
  let ?d = "decode_bit A (filter ?ours records) (plan_offset (plan ! t)) cal"
  have d: "decoded = map (\<lambda>r. if ?ours r then r\<lparr>ct_decoded_bit := ?d\<rparr> else r) records"
    using assms(1) by (auto simp: decode_trial_def index_at_def Let_def split: if_splits)
  show same: "map undecoded decoded = map undecoded records" unfolding d by simp
  note bit = decode_bit_answered [OF assms(2), of A t records]
  show "decoded_answered decoded t"
    unfolding decoded_answered_def same_records(2) [OF same] using bit by (auto simp: d)
  assume u: "decoded_answered records u"
  show "decoded_answered decoded u"
    unfolding decoded_answered_def same_records(2) [OF same]
  proof (intro ballI impI)
    fix r
    assume r: "r \<in> set decoded" "ct_role r = WProbe" "ct_trial_id r = of_nat u"
    from r(1) obtain q where q: "q \<in> set records" "r = (if ?ours q then q\<lparr>ct_decoded_bit := ?d\<rparr> else q)"
      unfolding d set_map by blast
    show "ct_decoded_bit r \<noteq> None \<longleftrightarrow> probe_answered records u"
    proof (cases "?ours q")
      case True
      then have "(of_nat t :: u64) = of_nat u" using r(3) q(2) by simp
      then have "probe_answered records t = probe_answered records u" by (simp add: probe_answered_def)
      with bit True q(2) show ?thesis by simp
    next
      case False
      with u q r(2,3) show ?thesis by (auto simp: decoded_answered_def)
    qed
  qed
qed

lemma decode_trials_answered:
  assumes "decode_trials A plan cal ts records = Some decoded"
    and "\<And>t. t \<in> set ts \<Longrightarrow> cm_by_offset cal (plan_offset (plan ! t)) \<noteq> None"
  shows "map undecoded decoded = map undecoded records \<and> (\<forall>t \<in> set ts. decoded_answered decoded t) \<and>
    (\<forall>u. decoded_answered records u \<longrightarrow> decoded_answered decoded u)"
  using assms
proof (induction ts arbitrary: records)
  case (Cons t ts)
  obtain d where d: "decode_trial A plan cal t records = Some d" "decode_trials A plan cal ts d = Some decoded"
    using Cons.prems(1) by (auto simp: bind_eq_Some_conv)
  have "cm_by_offset cal (plan_offset (plan ! t)) \<noteq> None" by (rule Cons.prems(2)) simp
  note step = decode_trial_answered [OF d(1) this]
  have "map undecoded decoded = map undecoded d \<and> (\<forall>t \<in> set ts. decoded_answered decoded t) \<and>
      (\<forall>u. decoded_answered d u \<longrightarrow> decoded_answered decoded u)"
    using Cons.prems(2) by (intro Cons.IH d(2)) simp
  with step show ?case by simp
qed simp

section \<open>Scoring\<close>

definition scorable :: "(u64 \<rightharpoonup> u8) \<Rightarrow> nat \<Rightarrow> bool" where
  "scorable decoded t \<longleftrightarrow> decoded (of_nat t) \<noteq> None"

lemma score_trials_ok:
  "t0 + length bits \<le> length plan \<Longrightarrow>
   \<exists>pairs. score_trials records decoded plan t0 bits = Some pairs \<and>
     length pairs = length (filter (\<lambda>t. sender_succeeded records t \<and> scorable decoded t) [t0..<t0 + length bits]) \<and>
     (\<forall>p \<in> set pairs. \<exists>t. t < length plan \<and> scorable decoded t \<and> sp_offset p = plan_offset (plan ! t))"
proof (induction bits arbitrary: t0)
  case (Cons b bits)
  obtain rest where rest: "score_trials records decoded plan (Suc t0) bits = Some rest"
    "length rest = length (filter (\<lambda>t. sender_succeeded records t \<and> scorable decoded t) [Suc t0..<Suc t0 + length bits])"
    "\<forall>p \<in> set rest. \<exists>t. t < length plan \<and> scorable decoded t \<and> sp_offset p = plan_offset (plan ! t)"
    using Cons.IH [of "Suc t0"] Cons.prems by auto
  have upt: "[t0..<t0 + length (b # bits)] = t0 # [Suc t0..<Suc t0 + length bits]"
    by (simp add: upt_conv_Cons del: upt_Suc)
  show ?case
  proof (cases "if sender_succeeded records t0 then decoded (of_nat t0) else None")
    case None
    then have "\<not> (sender_succeeded records t0 \<and> scorable decoded t0)" by (auto simp: scorable_def)
    with None show ?thesis using rest unfolding upt by (auto simp del: upt_Suc)
  next
    case (Some d)
    then have "sender_succeeded records t0" "scorable decoded t0" by (auto simp: scorable_def split: if_splits)
    moreover have t0: "t0 < length plan" using Cons.prems by simp
    ultimately show ?thesis
      using rest Some unfolding upt by (auto simp: index_at_def simp del: upt_Suc)
  qed
qed simp

lemma traverse_Some: "(\<And>x. x \<in> set xs \<Longrightarrow> \<exists>y. f x = Some y) \<Longrightarrow> \<exists>ys. traverse f xs = Some ys"
  by (induction xs) (fastforce simp: bind_eq_Some_conv)+

lemma set_sorted_dedup [simp]: "set (sorted_dedup xs) = set xs"
  by (simp add: sorted_dedup_def)

lemma filter_upt_from:
  assumes "\<And>t. t < k \<Longrightarrow> P t \<Longrightarrow> start \<le> t"
  shows "filter P [0..<k] = filter P [start..<k]"
proof (cases "start \<le> k")
  case True
  then have "[0..<k] = [0..<start] @ [start..<k]" using upt_add_eq_append [of 0 start "k - start"] by simp
  moreover have "filter P [0..<start] = []"
    unfolding filter_empty_conv using assms True by (metis atLeastLessThan_iff le_trans linorder_not_le set_upt)
  ultimately show ?thesis by simp
next
  case False
  then have "filter P [0..<k] = []" unfolding filter_empty_conv using assms by fastforce
  then show ?thesis using False by simp
qed

text \<open>The trials that a list of decoded records can score, when the trial numbers fit.\<close>

lemma scored_pairs_ok:
  assumes "length plan \<le> 2 ^ 53" "length bits = length plan" "\<forall>r \<in> set records. decoded_ok plan cal start r"
  shows "\<exists>pairs. scored_pairs records bits plan = Some pairs \<and>
    length pairs = length (filter (\<lambda>t. sender_succeeded records t \<and> scorable (decoded_by_trial records (\<lambda>_. None)) t)
      [start..<length plan]) \<and>
    (\<forall>p \<in> set pairs. cm_by_offset cal (sp_offset p) \<noteq> None)"
proof -
  let ?m = "decoded_by_trial records (\<lambda>_. None)"
  have source: "start \<le> t \<and> cm_by_offset cal (plan_offset (plan ! t)) \<noteq> None"
    if "t < length plan" "scorable ?m t" for t
  proof -
    from that(2) obtain b where "?m (of_nat t) = Some b" by (auto simp: scorable_def)
    then obtain r where "r \<in> set records" "ct_trial_id r = of_nat t" "ct_decoded_bit r = Some b"
      using decoded_by_trial_source by fastforce
    then obtain u where u: "start \<le> u" "u < length plan" "of_nat u = (of_nat t :: u64)"
      "cm_by_offset cal (plan_offset (plan ! u)) \<noteq> None"
      using assms(3) unfolding decoded_ok_def by metis
    have "unat (of_nat u :: u64) = u" "unat (of_nat t :: u64) = t"
      using u(2) that(1) assms(1) by (simp_all add: unat_of_nat_less)
    then have "u = t" using u(3) by metis
    then show ?thesis using u by simp
  qed
  obtain pairs where pairs: "scored_pairs records bits plan = Some pairs"
    "length pairs = length (filter (\<lambda>t. sender_succeeded records t \<and> scorable ?m t) [0..<length plan])"
    "\<forall>p \<in> set pairs. \<exists>t. t < length plan \<and> scorable ?m t \<and> sp_offset p = plan_offset (plan ! t)"
    using score_trials_ok [of 0 bits plan records ?m] assms(2) by (auto simp: scored_pairs_def)
  have "filter (\<lambda>t. sender_succeeded records t \<and> scorable ?m t) [0..<length plan] =
      filter (\<lambda>t. sender_succeeded records t \<and> scorable ?m t) [start..<length plan]"
    using source by (intro filter_upt_from) blast
  then show ?thesis using pairs source by (intro exI [of _ pairs]) metis
qed

section \<open>The report is always produced\<close>

definition in_unit :: "f64 \<Rightarrow> bool" where
  "in_unit x \<longleftrightarrow> (\<exists>r. x = Fin r \<and> 0 \<le> r \<and> r \<le> 1)"

lemma length_overlaps: "length (overlaps A records) \<le> length records * length records"
proof -
  let ?inner = "\<lambda>sender. filter (\<lambda>r. st_role r = WProbe \<and> st_trial_id r = st_trial_id sender) records"
  have "length (overlaps A records) = sum_list (map (length \<circ> ?inner) (filter (\<lambda>r. st_role r = WSender) records))"
    by (simp add: overlaps_def length_concat comp_def)
  also have "\<dots> \<le> sum_list (map (\<lambda>_. length records) (filter (\<lambda>r. st_role r = WSender) records))"
    by (intro sum_list_mono) simp
  also have "\<dots> \<le> length records * length records" by (simp add: sum_list_triv)
  finally show ?thesis .
qed

lemma square_small: "n < 2 ^ 26 \<Longrightarrow> n * n \<le> (2 :: nat) ^ 53"
  using mult_mono [of n "2 ^ 26" n "2 ^ 26"] by simp

context rounding
begin

lemma ratio_in_unit: "m \<le> n \<Longrightarrow> n \<le> 2 ^ 53 \<Longrightarrow> in_unit (ratio A m n)"
  using ratio_unit by (simp add: in_unit_def)

lemma percentiles_total:
  "length xs \<le> 2 ^ 53 \<Longrightarrow> \<exists>x. percentile A xs 0 = Some x" "length xs \<le> 2 ^ 53 \<Longrightarrow> \<exists>x. percentile A xs 0.5 = Some x"
  "length xs \<le> 2 ^ 53 \<Longrightarrow> \<exists>x. percentile A xs 0.95 = Some x" "length xs \<le> 2 ^ 53 \<Longrightarrow> \<exists>x. percentile A xs 0.99 = Some x"
  "length xs \<le> 2 ^ 53 \<Longrightarrow> \<exists>x. percentile A xs 1 = Some x"
  using percentile_total [of xs 0] percentile_total [of xs "0.5"] percentile_total [of xs "0.95"]
    percentile_total [of xs "0.99"] percentile_total [of xs 1] by auto

lemma overlap_summary_total: "length records < 2 ^ 26 \<Longrightarrow> \<exists>s. overlap_summary A records = Some s"
  using percentiles_total [of "sort (overlaps A records)"] length_overlaps [of A records]
    square_small [of "length records"]
  by (auto simp: overlap_summary_def)

lemma latency_summary_total: "length records \<le> 2 ^ 53 \<Longrightarrow> \<exists>s. latency_summary A records = Some s"
  using percentiles_total [of "sort (map (\<lambda>r. duration_us A (ct_sent_at_ns r) (ct_completed_at_ns r))
      (filter (\<lambda>r. ct_role r = WProbe) records))"] length_filter_le [of "\<lambda>r. ct_role r = WProbe" records]
  by (auto simp: latency_summary_def)

lemma offset_summaries_total:
  assumes "\<forall>p \<in> set pairs. cm_by_offset cal (sp_offset p) \<noteq> None"
  shows "\<exists>s. offset_summaries A pairs cal seed = Some s"
  unfolding offset_summaries_def
proof (rule traverse_Some)
  fix offset
  assume "offset \<in> set (sorted_dedup (map sp_offset pairs))"
  then obtain model where "cm_by_offset cal offset = Some model" using assms by auto
  moreover obtain r where
    "permutation_test A (filter (\<lambda>p. sp_offset p = offset) pairs) (seed XOR offset) 1000 = Some r"
    using permutation_test_total [of 1000] by force
  ultimately show "\<exists>s. offset_summary A pairs cal seed offset = Some s" by (simp add: offset_summary_def Let_def)
qed

lemma compute_report_total:
  assumes pairs: "scored_pairs records bits plan = Some pairs" "length pairs \<le> 2 ^ 53"
      "\<forall>p \<in> set pairs. cm_by_offset cal (sp_offset p) \<noteq> None"
    and sizes: "length records \<le> 2 ^ 53" "length server_records < 2 ^ 26"
  shows "\<exists>report. compute_report A run server_records records bits plan cal n seed control = Some report \<and>
    lr_usable_trials report = of_nat (length pairs) \<and> lr_client_records report = records \<and>
    list_all in_unit [lr_bit_error_rate report, lr_false_positive_rate report, lr_false_negative_rate report,
      lr_false_discovery_rate report, lr_permutation_p_value report] \<and>
    Fin 0 \<le> lr_reliable_bits_per_hour report \<and> lr_reliable_bits_per_hour report \<noteq> NaN"
proof -
  obtain perm where perm: "permutation_test A pairs seed 2000 = Some perm" "in_unit (pr_p_value perm)"
    using permutation_test_total [of 2000] by (force simp: in_unit_def)
  obtain os ov la where parts: "offset_summaries A pairs cal seed = Some os"
    "overlap_summary A server_records = Some ov" "latency_summary A records = Some la"
    using offset_summaries_total [OF pairs(3)] overlap_summary_total [OF sizes(2)] latency_summary_total [OF sizes(1)]
    by blast
  obtain lo hi where ci: "bootstrap_mi A (binary pairs) seed = (lo, hi)" by fastforce
  have rate: "in_unit (ratio A (length (filter P pairs)) (length (filter Q pairs)))"
    if "\<And>p. P p \<Longrightarrow> Q p" for P Q
  proof (rule ratio_in_unit)
    show "length (filter Q pairs) \<le> 2 ^ 53" using pairs(2) length_filter_le [of Q pairs] by linarith
    have "filter P pairs = filter P (filter Q pairs)" using that by (auto intro: filter_cong)
    then show "length (filter P pairs) \<le> length (filter Q pairs)" by (metis length_filter_le)
  qed
  have "in_unit (ratio A (length (filter P pairs)) (length pairs))" for P
    using pairs(2) by (intro ratio_in_unit) simp_all
  then show ?thesis
    unfolding compute_report_def pairs(1) by (simp add: perm parts ci estimate_nonneg Let_def) (intro conjI rate; simp)
qed

end

section \<open>From the plan to the report\<close>

lemma build_trial_plan_offsets:
  assumes "build_trial_plan seed trial_count offsets = Some plan" "offsets \<noteq> []"
  shows "plan_offset ` set plan \<subseteq> set offsets \<and> length plan = unat trial_count \<and> length offsets * 10 \<le> unat trial_count"
proof -
  have le: "length offsets * 10 \<le> unat trial_count"
    using assms(1) by (auto simp: build_trial_plan_def CALIBRATION_SAMPLES_PER_BIT_AND_OFFSET_def Let_def
        split: prod.splits if_splits)
  with build_trial_plan_parts [OF assms(2) le, of seed] assms(1) show ?thesis
    by (metis option.inject plan_parts_offsets)
qed

lemma build_trial_plan_total:
  "offsets \<noteq> [] \<Longrightarrow> length offsets * 10 \<le> unat trial_count \<Longrightarrow> \<exists>plan. build_trial_plan seed trial_count offsets = Some plan"
  using build_trial_plan_parts by blast

text \<open>The part of \<open>run_matrix\<close> after the traffic: calibration, decoding and report.\<close>

definition analyse ::
    "arith \<Rightarrow> experiment_run_info \<Rightarrow> server_timing_record list \<Rightarrow> client_timing_record list \<Rightarrow> u8 list
     \<Rightarrow> trial_plan list \<Rightarrow> u64 \<Rightarrow> u64 \<Rightarrow> bool \<Rightarrow> (bench_error + leakage_report) option" where
  "analyse A run server_records client_records expected_bits plan trial_count seed control =
     do {
       calibrated \<leftarrow> calibrate A client_records plan;
       case calibrated of
         Inl e \<Rightarrow> Some (Inl e)
       | Inr calibration \<Rightarrow> do {
           decoded \<leftarrow> decode_trials A plan calibration
             [unat (cm_scoring_starts_at_trial calibration)..<unat trial_count] client_records;
           report \<leftarrow> compute_report A run server_records decoded expected_bits plan calibration
             (cm_scoring_starts_at_trial calibration) seed control;
           Some (Inr report)
         }
     }"

lemma calibrate_offsets_dom:
  "calibrate_offsets A samples plan m = Inr by_offset \<Longrightarrow> dom by_offset = dom m \<union> plan_offset ` set plan"
proof (induction plan arbitrary: m)
  case (Cons planned plan)
  then obtain model where "calibrate_offsets A samples plan (m(plan_offset planned \<mapsto> model)) = Inr by_offset"
    by (auto simp: result_simps)
  from Cons.IH [OF this] show ?case by auto
qed simp

lemma calibrate_offsets_errors:
  "calibrate_offsets A samples plan m = Inl e \<Longrightarrow> e \<in> {MissingZeroCalibration, MissingOneCalibration}"
  by (induction plan arbitrary: m) (auto simp: result_simps)

lemma calibrate_offsets_total:
  "(\<And>planned b. planned \<in> set plan \<Longrightarrow> b \<in> {0, 1} \<Longrightarrow> samples (plan_offset planned, b) \<noteq> None) \<Longrightarrow>
   \<exists>by_offset. calibrate_offsets A samples plan m = Inr by_offset"
proof (induction plan arbitrary: m)
  case (Cons planned plan)
  obtain zero one where "samples (plan_offset planned, 0) = Some zero" "samples (plan_offset planned, 1) = Some one"
    using Cons.prems [of planned 0] Cons.prems [of planned 1] by auto
  moreover have "\<exists>by_offset. calibrate_offsets A samples plan m = Inr by_offset" for m
    by (rule Cons.IH) (rule Cons.prems, simp_all)
  ultimately show ?case by simp
qed simp

lemma collect_samples_keeps: "m key \<noteq> None \<Longrightarrow> collect_samples A records t plan m key \<noteq> None"
  by (induction plan arbitrary: t m) (auto simp: add_sample_def split: option.splits)

lemma aggregate_answered: "aggregate_probe_latency A records (of_nat t) \<noteq> None \<longleftrightarrow> probe_answered records t"
  by (auto simp: aggregate_probe_latency_def probe_latencies_def probe_answered_def filter_empty_conv Let_def)

lemma collect_samples_answered:
  "i < length plan \<Longrightarrow> probe_answered records (t + i) \<Longrightarrow> key = (plan_offset (plan ! i), plan_bit (plan ! i)) \<Longrightarrow>
   collect_samples A records t plan m key \<noteq> None"
proof (induction plan arbitrary: t m i)
  case (Cons planned plan)
  show ?case
  proof (cases i)
    case 0
    with Cons.prems aggregate_answered [of A records t] obtain y where
      y: "aggregate_probe_latency A records (of_nat t) = Some y" by auto
    have "collect_samples A records (Suc t) plan (add_sample m key y) key \<noteq> None"
      by (rule collect_samples_keeps) (simp add: add_sample_def)
    with y Cons.prems(3) 0 show ?thesis by simp
  next
    case (Suc j)
    with Cons.prems Cons.IH [of j "Suc t"] show ?thesis by simp
  qed
qed simp

lemma calibrate_cases:
  assumes "calibration_length plan \<le> length plan"
  shows "\<exists>calibrated. calibrate A records plan = Some calibrated \<and>
    (\<forall>e. calibrated = Inl e \<longrightarrow> e \<in> {MissingZeroCalibration, MissingOneCalibration}) \<and>
    (\<forall>cal. calibrated = Inr cal \<longrightarrow> cm_scoring_starts_at_trial cal = of_nat (calibration_length plan) \<and>
       dom (cm_by_offset cal) = plan_offset ` set (take (calibration_length plan) plan))"
proof -
  let ?cal = "take (calibration_length plan) plan"
  let ?r = "calibrate_offsets A (collect_samples A records 0 ?cal (\<lambda>_. None)) ?cal (\<lambda>_. None)"
  have "calibrate A records plan = Some (try_bind ?r (\<lambda>by_offset.
      Inr \<lparr>cm_by_offset = by_offset, cm_scoring_starts_at_trial = of_nat (calibration_length plan)\<rparr>))"
    using assms by (simp add: calibrate_def Let_def)
  moreover have "dom by_offset = plan_offset ` set ?cal" if "?r = Inr by_offset" for by_offset
    using calibrate_offsets_dom [OF that] by simp
  ultimately show ?thesis
    using calibrate_offsets_errors by (cases ?r) fastforce+
qed

text \<open>Every offset of a plan is calibrated when the calibration, as long as \<open>calibrate\<close> takes it to be, covers
  the offsets and has both bits for each; it then succeeds when its trials have an answer.\<close>

definition covers :: "trial_plan list \<Rightarrow> nat \<Rightarrow> bool" where
  "covers plan n \<longleftrightarrow> n \<le> length plan \<and> calibration_length plan = n \<and>
     (\<forall>planned \<in> set plan. \<forall>b \<in> {0, 1}. trial b (plan_offset planned) \<in> set (take n plan))"

lemma covers_offsets: "covers plan n \<Longrightarrow> planned \<in> set plan \<Longrightarrow> plan_offset planned \<in> plan_offset ` set (take n plan)"
  by (rule image_eqI [of _ _ "trial 0 (plan_offset planned)"]) (simp_all add: covers_def)

lemma calibrate_answered:
  assumes "covers plan n" "\<And>t. t < n \<Longrightarrow> probe_answered records t"
  shows "\<exists>cal. calibrate A records plan = Some (Inr cal)"
proof -
  let ?samples = "collect_samples A records 0 (take n plan) (\<lambda>_. None)"
  have "?samples (plan_offset planned, b) \<noteq> None" if "planned \<in> set (take n plan)" "b \<in> {0, 1}" for planned b
  proof -
    have "trial b (plan_offset planned) \<in> set (take n plan)"
      using assms(1) that by (auto simp: covers_def dest: in_set_takeD)
    then obtain i where "i < length (take n plan)" "take n plan ! i = trial b (plan_offset planned)"
      by (metis in_set_conv_nth)
    then show ?thesis
      using assms(2) [of i] by (intro collect_samples_answered [of i]) simp_all
  qed
  then obtain by_offset where "calibrate_offsets A ?samples (take n plan) (\<lambda>_. None) = Inr by_offset"
    using calibrate_offsets_total by blast
  then show ?thesis using assms(1) by (auto simp: calibrate_def covers_def Let_def)
qed

text \<open>The trials that can be scored: their sender succeeded and a probe has an answer.\<close>

definition usable_trial :: "client_timing_record list \<Rightarrow> nat \<Rightarrow> bool" where
  "usable_trial records t \<longleftrightarrow> sender_succeeded records t \<and> probe_answered records t"

lemma decoded_usable:
  assumes "decode_trials A plan cal [n..<length plan] records = Some decoded"
    and "\<And>planned. planned \<in> set plan \<Longrightarrow> cm_by_offset cal (plan_offset planned) \<noteq> None"
  shows "filter (\<lambda>t. sender_succeeded decoded t \<and> scorable (decoded_by_trial decoded (\<lambda>_. None)) t) [n..<length plan] =
    filter (usable_trial records) [n..<length plan]"
proof (rule filter_cong [OF refl])
  fix t
  assume t: "t \<in> set [n..<length plan]"
  have facts: "map undecoded decoded = map undecoded records" "decoded_answered decoded t"
    using decode_trials_answered [OF assms(1)] assms(2) t by auto
  note same = same_records [OF facts(1)]
  have "(\<exists>r \<in> set decoded. ct_role r = WProbe \<and> ct_trial_id r = of_nat t \<and> ct_decoded_bit r \<noteq> None)
      \<longleftrightarrow> probe_answered decoded t"
    using facts(2) unfolding decoded_answered_def probe_answered_def by blast
  then show "(sender_succeeded decoded t \<and> scorable (decoded_by_trial decoded (\<lambda>_. None)) t) = usable_trial records t"
    unfolding usable_trial_def scorable_def decoded_by_trial_iff same by simp
qed

context rounding
begin

text \<open>The analysis after a successful calibration, which starts scoring at trial \<open>n\<close>.\<close>

lemma analyse_calibrated:
  assumes plan: "n \<le> length plan" "length plan \<le> 2 ^ 53" "length plan = unat trial_count" "length bits = length plan"
    and fresh: "list_all (\<lambda>r. ct_decoded_bit r = None) records"
    and sizes: "length records \<le> 2 ^ 53" "length server_records < 2 ^ 26"
    and cal: "calibrate A records plan = Some (Inr cal)" "cm_scoring_starts_at_trial cal = of_nat n"
  shows "\<exists>report. analyse A run server_records records bits plan trial_count seed control = Some (Inr report) \<and>
    list_all in_unit [lr_bit_error_rate report, lr_false_positive_rate report, lr_false_negative_rate report,
      lr_false_discovery_rate report, lr_permutation_p_value report] \<and>
    Fin 0 \<le> lr_reliable_bits_per_hour report \<and> lr_reliable_bits_per_hour report \<noteq> NaN \<and>
    ((\<forall>planned \<in> set plan. cm_by_offset cal (plan_offset planned) \<noteq> None) \<longrightarrow>
       unat (lr_usable_trials report) = length (filter (usable_trial records) [n..<length plan])) \<and>
    (\<forall>r \<in> set (lr_client_records report). ct_decoded_bit r \<noteq> None \<longrightarrow>
       (\<exists>t. n \<le> t \<and> t < length plan \<and> ct_trial_id r = of_nat t))"
proof -
  have start: "unat (cm_scoring_starts_at_trial cal) = n" using cal(2) plan(1,2) by (simp add: unat_of_nat_less)
  obtain decoded where d: "decode_trials A plan cal [n..<length plan] records = Some decoded"
    "length decoded = length records" "\<forall>r \<in> set decoded. decoded_ok plan cal n r"
    using decode_trials_ok [of "[n..<length plan]" n plan records cal A] fresh
    by (force simp: decoded_ok_def list_all_iff)
  let ?scored = "filter (\<lambda>t. sender_succeeded decoded t \<and> scorable (decoded_by_trial decoded (\<lambda>_. None)) t) [n..<length plan]"
  obtain pairs where p: "scored_pairs decoded bits plan = Some pairs" "length pairs = length ?scored"
    "\<forall>p \<in> set pairs. cm_by_offset cal (sp_offset p) \<noteq> None"
    using scored_pairs_ok [OF plan(2) plan(4) d(3)] by blast
  have "length ?scored \<le> length plan" by (rule order_trans [OF length_filter_le]) simp
  then have small: "length pairs \<le> 2 ^ 53" "unat (of_nat (length pairs) :: u64) = length pairs"
    using p(2) plan(2) by (simp_all add: unat_of_nat_less)
  obtain report where rep: "compute_report A run server_records decoded bits plan cal (cm_scoring_starts_at_trial cal) seed control = Some report"
    "lr_usable_trials report = of_nat (length pairs)" "lr_client_records report = decoded"
    "list_all in_unit [lr_bit_error_rate report, lr_false_positive_rate report, lr_false_negative_rate report,
       lr_false_discovery_rate report, lr_permutation_p_value report]"
    "Fin 0 \<le> lr_reliable_bits_per_hour report" "lr_reliable_bits_per_hour report \<noteq> NaN"
    using compute_report_total [OF p(1) small(1) p(3), of server_records run "cm_scoring_starts_at_trial cal" seed control]
      d(2) sizes by auto
  moreover have "analyse A run server_records records bits plan trial_count seed control = Some (Inr report)"
    using cal(1) start d(1) plan(3) rep(1) by (simp add: analyse_def)
  moreover have "unat (lr_usable_trials report) = length (filter (usable_trial records) [n..<length plan])"
    if "\<forall>planned \<in> set plan. cm_by_offset cal (plan_offset planned) \<noteq> None"
    using decoded_usable [OF d(1)] that rep(2) p(2) small(2) by simp
  moreover have "\<forall>r \<in> set (lr_client_records report). ct_decoded_bit r \<noteq> None \<longrightarrow>
      (\<exists>t. n \<le> t \<and> t < length plan \<and> ct_trial_id r = of_nat t)"
    using d(3) rep(3) by (fastforce simp: decoded_ok_def)
  ultimately show ?thesis by (intro exI [of _ report] conjI) simp_all
qed

lemma analyse_total:
  assumes plan: "calibration_length plan \<le> length plan" "length plan \<le> 2 ^ 53" "length plan = unat trial_count"
      "length bits = length plan"
    and fresh: "list_all (\<lambda>r. ct_decoded_bit r = None) records"
    and sizes: "length records \<le> 2 ^ 53" "length server_records < 2 ^ 26"
  shows "\<exists>result. analyse A run server_records records bits plan trial_count seed control = Some result \<and>
    (\<forall>e. result = Inl e \<longrightarrow> e \<in> {MissingZeroCalibration, MissingOneCalibration}) \<and>
    (\<forall>report. result = Inr report \<longrightarrow>
       list_all in_unit [lr_bit_error_rate report, lr_false_positive_rate report, lr_false_negative_rate report,
         lr_false_discovery_rate report, lr_permutation_p_value report] \<and>
       Fin 0 \<le> lr_reliable_bits_per_hour report \<and> lr_reliable_bits_per_hour report \<noteq> NaN) \<and>
    (\<forall>n. covers plan n \<longrightarrow>
       ((\<forall>t < n. probe_answered records t) \<longrightarrow> (\<exists>report. result = Inr report)) \<and>
       (\<forall>report. result = Inr report \<longrightarrow>
          unat (lr_usable_trials report) = length (filter (usable_trial records) [n..<length plan]) \<and>
          (\<forall>r \<in> set (lr_client_records report). ct_decoded_bit r \<noteq> None \<longrightarrow>
             (\<exists>t. n \<le> t \<and> t < length plan \<and> ct_trial_id r = of_nat t))))"
proof -
  let ?n = "calibration_length plan"
  obtain calibrated where c: "calibrate A records plan = Some calibrated"
      "\<And>e. calibrated = Inl e \<Longrightarrow> e \<in> {MissingZeroCalibration, MissingOneCalibration}"
      "\<And>cal. calibrated = Inr cal \<Longrightarrow> cm_scoring_starts_at_trial cal = of_nat ?n"
      "\<And>cal. calibrated = Inr cal \<Longrightarrow> dom (cm_by_offset cal) = plan_offset ` set (take ?n plan)"
    using calibrate_cases [OF plan(1), of A records] by blast
  have answered: "\<exists>cal. calibrated = Inr cal" if "covers plan n" "\<forall>t < n. probe_answered records t" for n
    using calibrate_answered [OF that(1), of records A] that(2) c(1) by auto
  show ?thesis
  proof (cases calibrated)
    case (Inl e)
    then show ?thesis using c answered by (auto simp: analyse_def)
  next
    case (Inr cal)
    have "plan_offset planned \<in> dom (cm_by_offset cal) \<and> n = ?n" if "covers plan n" "planned \<in> set plan" for n planned
      using covers_offsets [OF that] that(1) c(4) [OF Inr] by (simp add: covers_def)
    moreover have "n = ?n" if "covers plan n" for n using that by (simp add: covers_def)
    ultimately show ?thesis
      using analyse_calibrated [OF plan fresh sizes c(1) [unfolded Inr] c(3) [OF Inr], of run seed control] by fastforce
  qed
qed

end

lemma calibration_length_le:
  assumes "plan_offset ` set plan \<subseteq> set offsets"
  shows "calibration_length plan \<le> length offsets * 10"
proof -
  have "card (set (map plan_offset plan)) \<le> card (set offsets)" using assms by (intro card_mono) auto
  also have "\<dots> \<le> length offsets" by (rule card_length)
  finally show ?thesis by (simp add: calibration_length_def CALIBRATION_SAMPLES_PER_BIT_AND_OFFSET_def)
qed

lemma build_trial_plan_covers:
  assumes "build_trial_plan seed trial_count offsets = Some plan" "offsets \<noteq> []" "distinct offsets"
  shows "covers plan (length offsets * 10)"
proof -
  note b = build_trial_plan_offsets [OF assms(1,2)]
  obtain cal out where plan: "plan = cal @ out" "plan_parts 5 offsets cal out"
    using build_trial_plan_parts [OF assms(2), of trial_count seed] b assms(1) by auto
  have len: "length cal = length offsets * 10" using plan_parts_length [OF plan(2)] by simp
  have both: "trial c x \<in> set cal" if "x \<in> set offsets" "c \<in> {0, 1}" for c x
    using plan_parts_count [OF plan(2) assms(3) that] by (metis count_eq_zero_iff set_mset_mset zero_neq_numeral)
  have "plan_offset ` set plan = set offsets"
    using b both [of _ 0] plan(1) by (force simp: image_iff)
  then have "calibration_length plan = length offsets * 10"
    using distinct_card [OF assms(3)] by (simp add: calibration_length_def CALIBRATION_SAMPLES_PER_BIT_AND_OFFSET_def)
  then show ?thesis
    using b both len plan(1) by (auto simp: covers_def)
qed

text \<open>C33: for a plan that the client built, whatever records a campaign collected, the analysis never
  panics: it reports that a calibration is missing, or it produces a report, in which the error rates
  and the p-value are numbers between zero and one and the reported rate is a non-negative number. When the
  offsets of the profile are distinct, it does produce the report if every calibration trial has an answered
  probe; it decodes no record of a calibration trial, which are the first ten trials per offset, and the
  usable trials of the report are exactly the later trials whose sender succeeded and that have an answered
  probe.\<close>

theorem analyse_never_panics:
  assumes "build_trial_plan seed trial_count offsets = Some plan" "offsets \<noteq> []" "unat trial_count \<le> 2 ^ 53"
    and "list_all (\<lambda>r. ct_decoded_bit r = None) records" "length records \<le> 2 ^ 53" "length server_records < 2 ^ 26"
  shows "\<exists>result. analyse (ieee log2) run server_records records (map plan_bit plan) plan trial_count seed control = Some result \<and>
    (\<forall>e. result = Inl e \<longrightarrow> e \<in> {MissingZeroCalibration, MissingOneCalibration}) \<and>
    (\<forall>report. result = Inr report \<longrightarrow>
       list_all in_unit [lr_bit_error_rate report, lr_false_positive_rate report, lr_false_negative_rate report,
         lr_false_discovery_rate report, lr_permutation_p_value report] \<and>
       Fin 0 \<le> lr_reliable_bits_per_hour report \<and> lr_reliable_bits_per_hour report \<noteq> NaN) \<and>
    (distinct offsets \<longrightarrow>
       ((\<forall>t < length offsets * 10. probe_answered records t) \<longrightarrow> (\<exists>report. result = Inr report)) \<and>
       (\<forall>report. result = Inr report \<longrightarrow>
          unat (lr_usable_trials report) =
            length (filter (usable_trial records) [length offsets * 10..<unat trial_count]) \<and>
          (\<forall>r \<in> set (lr_client_records report). ct_decoded_bit r \<noteq> None \<longrightarrow>
             (\<exists>t. length offsets * 10 \<le> t \<and> t < unat trial_count \<and> ct_trial_id r = of_nat t))))"
proof -
  note plan = build_trial_plan_offsets [OF assms(1,2)]
  then have "calibration_length plan \<le> length plan" using calibration_length_le [of plan offsets] by linarith
  note total = ieee.analyse_total [OF this _ _ _ assms(4-6), of trial_count "map plan_bit plan" log2 run seed control]
  have len: "length plan = unat trial_count" using plan by simp
  show ?thesis
    by (rule ex_forward [OF total [unfolded len]], use len assms(3) in \<open>simp_all only: length_map len\<close>)
      (use build_trial_plan_covers [OF assms(1,2)] in blast)
qed

text \<open>A campaign in which every trial has one sender and one probe, both answered.\<close>

definition answered_record :: "worker_role \<Rightarrow> nat \<Rightarrow> client_timing_record" where
  "answered_record role t = \<lparr>ct_trace_id = of_nat t, ct_trial_id = of_nat t, ct_role = role, ct_sent_at_ns = 0,
     ct_first_byte_at_ns = None, ct_completed_at_ns = 1000, ct_status = http_ok, ct_decoded_bit = None\<rparr>"

definition answered_records :: "client_timing_record list" where
  "answered_records = concat (map (\<lambda>t. [answered_record WSender t, answered_record WProbe t]) [0..<40])"

lemma answered_records_usable: "t < 40 \<Longrightarrow> probe_answered answered_records t \<and> usable_trial answered_records t"
  unfolding usable_trial_def probe_answered_def sender_succeeded_def list_ex_iff answered_records_def
  by (intro conjI bexI [of _ "answered_record WProbe t"] bexI [of _ "answered_record WSender t"])
    (auto simp: answered_record_def)

theorem analyse_never_panics_witness:
  "\<forall>run. \<exists>plan report. build_trial_plan 7 40 [500, 1500] = Some plan \<and>
     analyse (ieee (\<lambda>x. Fin (log 2 x))) run [] answered_records (map plan_bit plan) plan 40 7 False = Some (Inr report) \<and>
     unat (lr_usable_trials report) = 20"
proof
  fix run
  obtain plan where plan: "build_trial_plan 7 40 [500, 1500] = Some plan"
    using build_trial_plan_total [of "[500, 1500]" 40 7] by auto
  have fresh: "list_all (\<lambda>r. ct_decoded_bit r = None) answered_records" "length answered_records = 80"
    by (auto simp: answered_records_def answered_record_def list_all_iff length_concat comp_def sum_list_triv)
  have usable: "filter (usable_trial answered_records) [20..<40] = [20..<40]"
    by (rule filter_True) (simp add: answered_records_usable)
  show "\<exists>plan report. build_trial_plan 7 40 [500, 1500] = Some plan \<and>
     analyse (ieee (\<lambda>x. Fin (log 2 x))) run [] answered_records (map plan_bit plan) plan 40 7 False = Some (Inr report) \<and>
     unat (lr_usable_trials report) = 20"
    using analyse_never_panics [OF plan _ _ fresh(1), of "[]" "\<lambda>x. Fin (log 2 x)" run False] plan fresh(2) usable
      answered_records_usable by auto
qed

end
