(* ===== verification/Bench_Campaign.thy ===== *)
theory Bench_Campaign
  imports Bench_Client
begin

text \<open>
  The campaign of the benchmark client (\<open>run_matrix\<close>, \<open>run_trial_group\<close>, \<open>send_turn\<close> and
  \<open>create_sessions\<close> of \<open>crates/bench-client/src/main.rs\<close>). The client is a function from an environment
  to a result and the list of the calls it made, in order. The environment answers a call from the
  history up to and including that call: it stands for the server, the network, the clock, the signal
  handler and the file system, and is not constrained.
\<close>

section \<open>Calls and the environment\<close>

record turn_call =
  tc_url :: string
  tc_bearer :: string
  tc_request :: bench_turn_request
  tc_delay_us :: u64

datatype bench_call =
  GetProfiles string
  | CreateSession string create_session_request
  | StartRun string string experiment_start_request
  | Group "turn_call list"
  | StopRun string string
  | GetRecords string string
  | WriteReport string leakage_report

text \<open>The end of one turn: a transport error, an error while the body is read, or a response with its three
  clock readings, its status and the decoded body, if it can be decoded. A spawned turn can also panic.\<close>

datatype turn_outcome =
  SendError string
  | BodyError string
  | Response u128 u128 u128 u16 "bench_turn_response option"
  | TurnPanics

datatype interrupt = NoInterrupt | CtrlC | HandlerFails string

record bench_env =
  env_profiles :: "bench_call list \<Rightarrow> bench_error + experiment_profile list"
  env_session :: "bench_call list \<Rightarrow> bench_error + create_session_response"
  env_start :: "bench_call list \<Rightarrow> bench_error + experiment_run_info"
  env_turn :: "bench_call list \<Rightarrow> nat \<Rightarrow> turn_outcome"
  env_rank :: "bench_call list \<Rightarrow> nat \<Rightarrow> nat"
  env_interrupt :: "bench_call list \<Rightarrow> interrupt"
  env_stop :: "bench_call list \<Rightarrow> bench_error + experiment_run_info"
  env_records :: "bench_call list \<Rightarrow> bench_error + server_timing_record list"
  env_write :: "bench_call list \<Rightarrow> bench_error + unit"

record run_args =
  ra_base_url :: string
  ra_profile :: string
  ra_admin_token :: string
  ra_trials :: "u64 option"
  ra_seed :: u64
  ra_control :: bool
  ra_output :: string

section \<open>Turns\<close>

definition is_success :: "u16 \<Rightarrow> bool" where
  "is_success status \<longleftrightarrow> 200 \<le> status \<and> status < 300"

definition turn_call_of ::
    "string \<Rightarrow> string \<Rightarrow> client_session \<Rightarrow> worker_role \<Rightarrow> u8 option \<Rightarrow> u64 \<Rightarrow> u64 \<Rightarrow> turn_call" where
  "turn_call_of base profile_id session role bit_opt trial_id delay_us =
     \<lparr>tc_url = endpoint base (''/v1/sessions/'' @ cs_id session @ ''/turn''), tc_bearer = cs_token session,
      tc_request = \<lparr>btq_role = role, btq_bit = bit_opt, btq_trial_id = trial_id, btq_profile_id = profile_id,
                     btq_payload_len = None\<rparr>,
      tc_delay_us = delay_us\<rparr>"

definition send_turn :: "turn_call \<Rightarrow> turn_outcome \<Rightarrow> bench_error + client_timing_record" where
  "send_turn call outcome =
     (case outcome of
        SendError e \<Rightarrow> Inl (Http e)
      | BodyError e \<Rightarrow> Inl (Http e)
      | TurnPanics \<Rightarrow> Inl TaskPanicked
      | Response sent first_byte completed status body \<Rightarrow>
          try_bind (if is_success status then map_sum id btr_server_trace_id (ok_or body DecodeTurnResponse) else Inr 0)
            (\<lambda>trace_id. Inr
               \<lparr>ct_trace_id = trace_id, ct_trial_id = btq_trial_id (tc_request call),
                ct_role = btq_role (tc_request call), ct_sent_at_ns = sent, ct_first_byte_at_ns = Some first_byte,
                ct_completed_at_ns = completed, ct_status = status, ct_decoded_bit = None\<rparr>))"

definition sender_call ::
    "string \<Rightarrow> string \<Rightarrow> client_session \<Rightarrow> nat \<Rightarrow> trial_plan \<Rightarrow> bool \<Rightarrow> turn_call" where
  "sender_call base profile_id sender trial_id planned control =
     turn_call_of base profile_id sender (if control then WControl else WSender)
       (if control then None else Some (plan_bit planned)) (of_nat trial_id) 0"

definition spawned_calls ::
    "string \<Rightarrow> string \<Rightarrow> client_session list \<Rightarrow> client_session list \<Rightarrow> nat \<Rightarrow> trial_plan \<Rightarrow> turn_call list" where
  "spawned_calls base profile_id probes backgrounds trial_id planned =
     map (\<lambda>session. turn_call_of base profile_id session WProbe None (of_nat trial_id) (plan_offset planned)) probes @
     map (\<lambda>(index, session). turn_call_of base profile_id session WBackground None (of_nat trial_id)
                                (of_nat (index mod 4) * 100)) (enumerate 0 backgrounds)"

fun join_all :: "(nat \<Rightarrow> bench_error + 'a) \<Rightarrow> nat list \<Rightarrow> bench_error + 'a list" where
  "join_all result [] = Inr []"
| "join_all result (i # is) =
     try_bind (result i) (\<lambda>r. try_bind (join_all result is) (\<lambda>rs. Inr (r # rs)))"

text \<open>The turns of a trial run concurrently. The sender is the first call of the group, and the spawned
  turns are joined in the order in which they complete.\<close>

definition run_trial_group ::
    "bench_env \<Rightarrow> bench_call list \<Rightarrow> turn_call \<Rightarrow> turn_call list \<Rightarrow> bench_error + client_timing_record list" where
  "run_trial_group E history sender spawned =
     try_bind (send_turn sender (env_turn E history 0)) (\<lambda>sender_record.
     try_bind (join_all (\<lambda>i. send_turn (spawned ! i) (env_turn E history (Suc i)))
                 (sort_key (env_rank E history) [0..<length spawned])) (\<lambda>records.
       Inr (sender_record # records)))"

section \<open>The campaign\<close>

fun create_sessions ::
    "bench_env \<Rightarrow> string \<Rightarrow> nat \<Rightarrow> bench_call list \<Rightarrow> (bench_error + client_session list) \<times> bench_call list" where
  "create_sessions E base 0 h = (Inr [], h)"
| "create_sessions E base (Suc n) h =
     (let h = h @ [CreateSession (endpoint base ''/v1/sessions'') \<lparr>csq_session_id = None\<rparr>]
      in case env_session E h of
           Inl e \<Rightarrow> (Inl e, h)
         | Inr response \<Rightarrow>
             (case create_sessions E base n h of
                (Inl e, h) \<Rightarrow> (Inl e, h)
              | (Inr rest, h) \<Rightarrow>
                  (Inr (\<lparr>cs_id = csr_session_id response, cs_token = csr_bearer_token response\<rparr> # rest), h)))"

text \<open>The traffic loop raced against Ctrl-C. A failure to install the handler leaves \<open>run_matrix\<close> at once,
  which is the second component.\<close>

fun traffic ::
    "bench_env \<Rightarrow> run_args \<Rightarrow> string \<Rightarrow> client_session \<Rightarrow> client_session list \<Rightarrow> client_session list
     \<Rightarrow> nat \<Rightarrow> trial_plan list \<Rightarrow> bench_call list
     \<Rightarrow> (bench_error + client_timing_record list \<times> u8 list) \<times> bool \<times> bench_call list" where
  "traffic E args profile_id sender probes backgrounds trial_id [] h = (Inr ([], []), False, h)"
| "traffic E args profile_id sender probes backgrounds trial_id (planned # plan) h =
     (let sender_turn = sender_call (ra_base_url args) profile_id sender trial_id planned (ra_control args);
          spawned = spawned_calls (ra_base_url args) profile_id probes backgrounds trial_id planned;
          h = h @ [Group (sender_turn # spawned)]
      in case env_interrupt E h of
           HandlerFails e \<Rightarrow> (Inl (Http e), True, h)
         | CtrlC \<Rightarrow> (Inl Interrupted, False, h)
         | NoInterrupt \<Rightarrow>
             (case run_trial_group E h sender_turn spawned of
                Inl e \<Rightarrow> (Inl e, False, h)
              | Inr records \<Rightarrow>
                  (case traffic E args profile_id sender probes backgrounds (Suc trial_id) plan h of
                     (Inl e, failed, h) \<Rightarrow> (Inl e, failed, h)
                   | (Inr (later, bits), failed, h) \<Rightarrow>
                       (Inr (records @ later, plan_bit planned # bits), failed, h))))"

definition minimum_trials :: "experiment_profile \<Rightarrow> nat" where
  "minimum_trials profile =
     length (ep_target_overlap_us profile) * (CALIBRATION_SAMPLES_PER_BIT_AND_OFFSET * 2) + 8"

definition start_request :: "run_args \<Rightarrow> experiment_profile \<Rightarrow> experiment_start_request" where
  "start_request args profile =
     \<lparr>esr_profile_id = ep_id profile, esr_seed = Some (ra_seed args),
      esr_notes = Some (if ra_control args then ''mandatory no-signal control'' else ''synthetic signal run'')\<rparr>"

definition experiment_url :: "run_args \<Rightarrow> experiment_run_info \<Rightarrow> string \<Rightarrow> string" where
  "experiment_url args run action =
     endpoint (ra_base_url args) (''/v1/experiments/'' @ ri_run_id run @ ''/'' @ action)"

text \<open>After the traffic: the stop is attempted before any error is returned.\<close>

definition finish_run ::
    "bench_env \<Rightarrow> arith \<Rightarrow> run_args \<Rightarrow> trial_plan list \<Rightarrow> u64 \<Rightarrow> experiment_run_info
     \<Rightarrow> bench_error + client_timing_record list \<times> u8 list \<Rightarrow> bench_call list \<Rightarrow> (bench_error + unit) \<times> bench_call list" where
  "finish_run E A args plan trial_count run traffic_result h =
     (let h = h @ [StopRun (experiment_url args run ''stop'') (ra_admin_token args)];
          stopped_run = env_stop E h
      in case traffic_result of
           Inl e \<Rightarrow> (Inl e, h)
         | Inr (client_records, expected_bits) \<Rightarrow>
             (case stopped_run of
                Inl e \<Rightarrow> (Inl (StopExperiment e), h)
              | Inr run \<Rightarrow>
                  (let h = h @ [GetRecords (experiment_url args run ''records'') (ra_admin_token args)]
                   in case env_records E h of
                        Inl e \<Rightarrow> (Inl e, h)
                      | Inr server_records \<Rightarrow>
                          (case analyse A run server_records client_records expected_bits plan trial_count
                                  (ra_seed args) (ra_control args) of
                             None \<Rightarrow> (Inl Panicked, h)
                           | Some (Inl e) \<Rightarrow> (Inl e, h)
                           | Some (Inr report) \<Rightarrow>
                               (let h = h @ [WriteReport (ra_output args) report] in (env_write E h, h))))))"

definition start_run ::
    "bench_env \<Rightarrow> arith \<Rightarrow> run_args \<Rightarrow> experiment_profile \<Rightarrow> trial_plan list \<Rightarrow> u64 \<Rightarrow> client_session
     \<Rightarrow> client_session list \<Rightarrow> client_session list \<Rightarrow> bench_call list \<Rightarrow> (bench_error + unit) \<times> bench_call list" where
  "start_run E A args profile plan trial_count sender probes backgrounds h =
     (let h = h @ [StartRun (endpoint (ra_base_url args) ''/v1/experiments/start'') (ra_admin_token args)
                     (start_request args profile)]
      in case env_start E h of
           Inl e \<Rightarrow> (Inl e, h)
         | Inr run \<Rightarrow>
             (case traffic E args (ep_id profile) sender probes backgrounds 0 plan h of
                (result, handler_failed, h) \<Rightarrow>
                  if handler_failed then (map_sum id (\<lambda>_. ()) result, h)
                  else finish_run E A args plan trial_count run result h))"

definition open_sessions ::
    "bench_env \<Rightarrow> run_args \<Rightarrow> experiment_profile \<Rightarrow> bench_call list
     \<Rightarrow> (bench_error + client_session \<times> client_session list \<times> client_session list) \<times> bench_call list" where
  "open_sessions E args profile h =
     (case create_sessions E (ra_base_url args) (unat (max (ep_sender_sessions profile) 1)) h of
        (Inl e, h) \<Rightarrow> (Inl e, h)
      | (Inr [], h) \<Rightarrow> (Inl NoSenderSession, h)
      | (Inr (sender # _), h) \<Rightarrow>
          (case create_sessions E (ra_base_url args) (unat (max (ep_probe_sessions profile) 1)) h of
             (Inl e, h) \<Rightarrow> (Inl e, h)
           | (Inr probes, h) \<Rightarrow>
               (case create_sessions E (ra_base_url args) (unat (ep_background_sessions profile)) h of
                  (Inl e, h) \<Rightarrow> (Inl e, h)
                | (Inr backgrounds, h) \<Rightarrow> (Inr (sender, probes, backgrounds), h))))"

definition run_matrix :: "bench_env \<Rightarrow> arith \<Rightarrow> run_args \<Rightarrow> (bench_error + unit) \<times> bench_call list" where
  "run_matrix E A args =
     (if length (ra_admin_token args) < 16 then (Inl AdminTokenTooShort, [])
      else let h = [GetProfiles (endpoint (ra_base_url args) ''/v1/profiles'')]
      in case env_profiles E h of
           Inl e \<Rightarrow> (Inl e, h)
         | Inr profiles \<Rightarrow>
      (case find (\<lambda>p. ep_id p = ra_profile args) profiles of
         None \<Rightarrow> (Inl ProfileNotAdvertised, h)
       | Some profile \<Rightarrow>
      (let trial_count = min (case ra_trials args of None \<Rightarrow> ep_trials profile | Some n \<Rightarrow> n) (ep_synthetic_bits profile)
       in if unat trial_count < minimum_trials profile then (Inl (TooFewTrials (minimum_trials profile)), h)
          else case build_trial_plan (ra_seed args) trial_count (ep_target_overlap_us profile) of
            None \<Rightarrow> (Inl NoPlan, h)
          | Some plan \<Rightarrow>
              (case open_sessions E args profile h of
                 (Inl e, h) \<Rightarrow> (Inl e, h)
               | (Inr (sender, probes, backgrounds), h) \<Rightarrow>
                   start_run E A args profile plan trial_count sender probes backgrounds h))))"

section \<open>A sample campaign\<close>

text \<open>A server that advertises one profile with one offset, and a user who interrupts the first trial.\<close>

definition sample_profile :: experiment_profile where
  "sample_profile =
     \<lparr>ep_id = ''p'', ep_description = '''', ep_attacker_favorable = False, ep_max_parallel_turns = 4, ep_trials = 18,
      ep_synthetic_bits = 18, ep_background_sessions = 0, ep_sender_sessions = 1, ep_probe_sessions = 1,
      ep_turn_fuel = 100, ep_sender_hot_iterations = 10, ep_sender_cold_iterations = 1, ep_probe_iterations = 5,
      ep_wasm_memory_pages = 8, ep_fixed_response_bytes = 128, ep_dispatch_jitter_min_us = 0,
      ep_dispatch_jitter_max_us = 100, ep_release_epoch_us = 1000, ep_target_overlap_us = [0],
      ep_session_idle_expiry_ms = 300000, ep_request_timeout_ms = 1000\<rparr>"

definition sample_run :: experiment_run_info where
  "sample_run =
     \<lparr>ri_run_id = ''r'', ri_profile = sample_profile, ri_started_at_unix_ms = 0, ri_scheduler_version = '''',
      ri_wasm_sha256_hex = '''', ri_container_config_sha256_hex = None, ri_tinfoil_attestation_sha256_hex = None,
      ri_runtime_profile =
        \<lparr>rp_wasm_engine = '''', rp_interpreter_only = True, rp_wasi_enabled = False, rp_imports_enabled = False,
         rp_threads_enabled = False, rp_shared_memory_enabled = False, rp_clocks_available_to_guest = False,
         rp_runner_process_per_turn = True, rp_linux_seccomp_requested = True, rp_linux_seccomp_applied = True,
         rp_linux_landlock_requested = True, rp_linux_landlock_applied = True, rp_no_new_privs_applied = True,
         rp_rlimits_applied = True, rp_sandbox_notes = []\<rparr>,
      ri_completed = False, ri_records_dropped = 0\<rparr>"

definition sample_env :: bench_env where
  "sample_env =
     \<lparr>env_profiles = \<lambda>_. Inr [sample_profile],
      env_session = \<lambda>_. Inr \<lparr>csr_session_id = ''s'', csr_bearer_token = ''t'', csr_expires_after_idle_ms = 0\<rparr>,
      env_start = \<lambda>_. Inr sample_run, env_turn = \<lambda>_ _. SendError '''', env_rank = \<lambda>_ i. i,
      env_interrupt = \<lambda>_. CtrlC, env_stop = \<lambda>_. Inr sample_run, env_records = \<lambda>_. Inr [],
      env_write = \<lambda>_. Inr ()\<rparr>"

definition sample_args :: run_args where
  "sample_args =
     \<lparr>ra_base_url = ''u'', ra_profile = ''p'', ra_admin_token = ''0123456789abcdef'', ra_trials = None, ra_seed = 1,
      ra_control = True, ra_output = ''o''\<rparr>"

lemma sample_history:
  "\<exists>call calls. run_matrix sample_env exact sample_args =
     (Inl Interrupted,
      [GetProfiles (endpoint ''u'' ''/v1/profiles''),
       CreateSession (endpoint ''u'' ''/v1/sessions'') \<lparr>csq_session_id = None\<rparr>,
       CreateSession (endpoint ''u'' ''/v1/sessions'') \<lparr>csq_session_id = None\<rparr>] @
      StartRun (endpoint ''u'' ''/v1/experiments/start'') ''0123456789abcdef'' (start_request sample_args sample_profile) #
      [Group (call # calls),
       StopRun (experiment_url sample_args sample_run ''stop'') ''0123456789abcdef''])"
proof -
  obtain plan where p: "build_trial_plan 1 18 [0] = Some plan" using build_trial_plan_total [of "[0]" 18 1] by auto
  then obtain planned plan' where plan: "plan = planned # plan'"
    using build_trial_plan_offsets [OF p] by (cases plan) auto
  show ?thesis
    by (simp add: run_matrix_def sample_args_def sample_env_def sample_profile_def minimum_trials_def
        CALIBRATION_SAMPLES_PER_BIT_AND_OFFSET_def p plan open_sessions_def start_run_def finish_run_def Let_def)
qed

section \<open>The experiment is closed\<close>

definition is_group :: "bench_call \<Rightarrow> bool" where
  "is_group c = (case c of Group _ \<Rightarrow> True | _ \<Rightarrow> False)"

definition is_session_call :: "bench_call \<Rightarrow> bool" where
  "is_session_call c = (case c of CreateSession _ _ \<Rightarrow> True | _ \<Rightarrow> False)"

definition is_start :: "bench_call \<Rightarrow> bool" where
  "is_start c = (case c of StartRun _ _ _ \<Rightarrow> True | _ \<Rightarrow> False)"

definition is_final_call :: "bench_call \<Rightarrow> bool" where
  "is_final_call c = (case c of GetRecords _ _ \<Rightarrow> True | WriteReport _ _ \<Rightarrow> True | _ \<Rightarrow> False)"

lemma create_sessions_calls:
  "create_sessions E base n h = (r, h') \<Longrightarrow> \<exists>calls. h' = h @ calls \<and> list_all is_session_call calls"
proof (induction n arbitrary: h r h')
  case (Suc n)
  let ?h = "h @ [CreateSession (endpoint base ''/v1/sessions'') \<lparr>csq_session_id = None\<rparr>]"
  show ?case
  proof (cases "env_session E ?h")
    case (Inl e)
    then show ?thesis using Suc.prems by (auto simp: is_session_call_def)
  next
    case (Inr resp)
    obtain r2 h2 where rec: "create_sessions E base n ?h = (r2, h2)" by fastforce
    then have "h' = h2" using Suc.prems Inr by (auto simp: Let_def split: sum.splits)
    then show ?thesis using Suc.IH [OF rec] by (auto simp: is_session_call_def)
  qed
qed simp

lemma open_sessions_calls:
  "open_sessions E args profile h = (r, h') \<Longrightarrow> \<exists>calls. h' = h @ calls \<and> list_all is_session_call calls"
  by (force simp: open_sessions_def split: prod.splits sum.splits list.splits
      dest!: create_sessions_calls)

lemma traffic_calls:
  "traffic E args pid sender probes backgrounds t plan h = (r, failed, h') \<Longrightarrow>
   \<exists>calls. h' = h @ calls \<and> list_all is_group calls \<and>
     (failed \<longrightarrow> (\<exists>e. env_interrupt E h' = HandlerFails e \<and> r = Inl (Http e)))"
proof (induction plan arbitrary: t h r failed h')
  case (Cons planned plan)
  let ?sender = "sender_call (ra_base_url args) pid sender t planned (ra_control args)"
  let ?spawned = "spawned_calls (ra_base_url args) pid probes backgrounds t planned"
  let ?h = "h @ [Group (?sender # ?spawned)]"
  show ?case
  proof (cases "env_interrupt E ?h")
    case NoInterrupt
    show ?thesis
    proof (cases "run_trial_group E ?h ?sender ?spawned")
      case (Inl e)
      then show ?thesis using Cons.prems NoInterrupt by (auto simp: is_group_def)
    next
      case (Inr records)
      obtain r2 f2 h2 where rec: "traffic E args pid sender probes backgrounds (Suc t) plan ?h = (r2, f2, h2)"
        by (metis prod_cases3)
      then have "h' = h2" "failed = f2" "failed \<Longrightarrow> \<forall>e. r2 = Inl e \<longrightarrow> r = Inl e"
        using Cons.prems NoInterrupt Inr by (auto simp: Let_def split: sum.splits)
      then show ?thesis using Cons.IH [OF rec] by (auto simp: is_group_def)
    qed
  qed (use Cons.prems in \<open>auto simp: is_group_def\<close>)
qed simp

lemma finish_run_calls:
  "finish_run E A args plan n run result h = (r, h') \<Longrightarrow>
   \<exists>calls. h' = h @ [StopRun (experiment_url args run ''stop'') (ra_admin_token args)] @ calls \<and> list_all is_final_call calls"
  by (auto simp: finish_run_def Let_def is_final_call_def split: sum.splits option.splits prod.splits)

definition closed_after :: "bench_env \<Rightarrow> run_args \<Rightarrow> experiment_run_info \<Rightarrow> bench_call list \<Rightarrow> bool" where
  "closed_after E args run calls \<longleftrightarrow>
     (\<exists>groups rest. calls = groups @ [StopRun (experiment_url args run ''stop'') (ra_admin_token args)] @ rest \<and>
        list_all is_group groups \<and> list_all is_final_call rest)"

text \<open>The calls of a started run.\<close>

lemma start_run_calls:
  assumes "start_run E A args profile plan n sender probes backgrounds h = (r, h')"
  shows "\<exists>start calls. h' = h @ start # calls \<and> is_start start \<and> list_all (\<lambda>c. \<not> is_start c) calls \<and>
    (\<forall>run. env_start E (h @ [start]) = Inr run \<longrightarrow>
       closed_after E args run calls \<or> (\<exists>e. env_interrupt E h' = HandlerFails e \<and> r = Inl (Http e)))"
proof -
  let ?S = "StartRun (endpoint (ra_base_url args) ''/v1/experiments/start'') (ra_admin_token args)
    (start_request args profile)"
  have kinds: "\<not> is_start c" if "is_group c \<or> is_final_call c" for c
    using that by (cases c) (auto simp: is_group_def is_final_call_def is_start_def)
  show ?thesis
  proof (cases "env_start E (h @ [?S])")
    case (Inl e)
    then show ?thesis using assms by (auto simp: start_run_def is_start_def)
  next
    case (Inr run)
    obtain r2 failed h2 where t:
      "traffic E args (ep_id profile) sender probes backgrounds 0 plan (h @ [?S]) = (r2, failed, h2)"
      by (metis prod_cases3)
    then obtain groups where g: "h2 = h @ ?S # groups" "list_all is_group groups"
      "failed \<Longrightarrow> \<exists>e. env_interrupt E h2 = HandlerFails e \<and> r2 = Inl (Http e)"
      using traffic_calls [OF t] by auto
    have no_start: "list_all (\<lambda>c. \<not> is_start c) groups" using g(2) kinds by (auto simp: list_all_iff)
    show ?thesis
    proof (cases failed)
      case True
      then have "h' = h2" "r = map_sum id (\<lambda>_. ()) r2" using assms Inr t by (auto simp: start_run_def)
      then show ?thesis using True g no_start
        by (intro exI [of _ ?S] exI [of _ groups]) (auto simp: is_start_def)
    next
      case False
      then have "finish_run E A args plan n run r2 h2 = (r, h')" using assms Inr t by (simp add: start_run_def)
      from finish_run_calls [OF this] obtain rest where
        rest: "h' = h2 @ [StopRun (experiment_url args run ''stop'') (ra_admin_token args)] @ rest"
        "list_all is_final_call rest" by blast
      then have "closed_after E args run (groups @ [StopRun (experiment_url args run ''stop'') (ra_admin_token args)] @ rest)"
        using g(2) by (auto simp: closed_after_def)
      moreover have "list_all (\<lambda>c. \<not> is_start c) rest" using rest(2) kinds by (auto simp: list_all_iff)
      ultimately show ?thesis using rest(1) g(1) no_start Inr
        by (intro exI [of _ ?S]
            exI [of _ "groups @ [StopRun (experiment_url args run ''stop'') (ra_admin_token args)] @ rest"])
          (auto simp: is_start_def)
    qed
  qed
qed

lemma run_matrix_calls:
  assumes "run_matrix E A args = (r, h)"
  shows "list_all (\<lambda>c. \<not> is_start c \<and> \<not> is_group c) h \<or>
    (\<exists>before profile plan n sender probes backgrounds.
       list_all (\<lambda>c. \<not> is_start c \<and> \<not> is_group c) before \<and>
       start_run E A args profile plan n sender probes backgrounds before = (r, h))"
proof -
  have session: "\<not> is_start c \<and> \<not> is_group c" if "is_session_call c" for c
    using that by (cases c) (auto simp: is_session_call_def is_start_def is_group_def)
  have opened: "list_all (\<lambda>c. \<not> is_start c \<and> \<not> is_group c) h'"
    if "open_sessions E args profile [GetProfiles u] = (x, h')" for profile u x h'
    using open_sessions_calls [OF that] session by (auto simp: list_all_iff is_start_def is_group_def)
  show ?thesis
    using assms unfolding run_matrix_def
    by (fastforce simp: Let_def is_start_def [of "GetProfiles u" for u] is_group_def [of "GetProfiles u" for u]
        split: if_splits sum.splits option.splits prod.splits dest: opened)
qed

lemma split_at_start:
  assumes "h = xs @ a # ys" "list_all (\<lambda>c. \<not> is_start c) xs" "list_all (\<lambda>c. \<not> is_start c) ys"
    and "h = us @ b # vs" "is_start b"
  shows "us = xs \<and> b = a \<and> vs = ys"
proof -
  have none: "filter is_start xs = []" "filter is_start ys = []" using assms(2,3) by (auto simp: list_all_iff filter_empty_conv)
  have "length (filter is_start us) + 1 + length (filter is_start vs) = length (filter is_start h)"
    using assms(4,5) by simp
  also have "\<dots> = (if is_start a then 1 else 0)" using assms(1) none by simp
  finally have a: "is_start a" and "filter is_start us = []" by (auto split: if_splits)
  then have us: "\<And>c. c \<in> set us \<Longrightarrow> \<not> is_start c" by (auto simp: filter_empty_conv)
  have "takeWhile (\<lambda>c. \<not> is_start c) h = us" unfolding assms(4) using assms(5) us by (simp add: takeWhile_append)
  moreover have "takeWhile (\<lambda>c. \<not> is_start c) h = xs"
    unfolding assms(1) using assms(2) a by (auto simp: takeWhile_append list_all_iff)
  ultimately have "us = xs" by simp
  then show ?thesis using assms(1,4) by simp
qed

text \<open>C31: once the server has started an experiment for it, the client always asks the server to stop
  that experiment, exactly once and after the last turn, whether the traffic succeeded, failed or was
  interrupted. The one exception is a signal handler that cannot be installed.\<close>

theorem run_matrix_closes_experiment:
  assumes "run_matrix E A args = (result, history)"
    and "history = before @ StartRun url token request # after"
    and "env_start E (before @ [StartRun url token request]) = Inr run"
  shows "(\<exists>groups rest.
      after = groups @ [StopRun (experiment_url args run ''stop'') (ra_admin_token args)] @ rest \<and>
      list_all is_group groups \<and> list_all is_final_call rest) \<or>
    (\<exists>e. env_interrupt E history = HandlerFails e \<and> result = Inl (Http e))"
proof -
  let ?S = "StartRun url token request"
  have start: "is_start ?S" by (simp add: is_start_def)
  then have "\<not> list_all (\<lambda>c. \<not> is_start c \<and> \<not> is_group c) history" by (simp add: assms(2))
  then obtain h profile plan n sender probes backgrounds where
    h: "list_all (\<lambda>c. \<not> is_start c \<and> \<not> is_group c) h"
    "start_run E A args profile plan n sender probes backgrounds h = (result, history)"
    using run_matrix_calls [OF assms(1)] by blast
  obtain s calls where s: "history = h @ s # calls" "list_all (\<lambda>c. \<not> is_start c) calls"
    "\<forall>run. env_start E (h @ [s]) = Inr run \<longrightarrow>
       closed_after E args run calls \<or> (\<exists>e. env_interrupt E history = HandlerFails e \<and> result = Inl (Http e))"
    using start_run_calls [OF h(2)] by blast
  have "before = h \<and> ?S = s \<and> after = calls"
    using split_at_start [OF s(1) _ s(2) assms(2) start] h(1) by (simp add: list_all_iff)
  then have "closed_after E args run after \<or> (\<exists>e. env_interrupt E history = HandlerFails e \<and> result = Inl (Http e))"
    using s(3) assms(3) by metis
  then show ?thesis unfolding closed_after_def .
qed

theorem run_matrix_closes_experiment_witness:
  "\<exists>history before url token request after groups rest.
     run_matrix sample_env exact sample_args = (Inl Interrupted, history) \<and>
     history = before @ StartRun url token request # after \<and>
     after = groups @ [StopRun (experiment_url sample_args sample_run ''stop'') (ra_admin_token sample_args)] @ rest"
proof -
  obtain call calls before url token request after where
    h: "run_matrix sample_env exact sample_args = (Inl Interrupted, before @ StartRun url token request # after)"
    using sample_history by blast
  have "env_start sample_env (before @ [StartRun url token request]) = Inr sample_run"
    and "\<And>h e. env_interrupt sample_env h \<noteq> HandlerFails e" by (simp_all add: sample_env_def)
  with run_matrix_closes_experiment [OF h refl] h show ?thesis by metis
qed

section \<open>A control run carries no signal\<close>

definition signal_free :: "turn_call \<Rightarrow> bool" where
  "signal_free c \<longleftrightarrow> btq_bit (tc_request c) = None \<and> btq_role (tc_request c) \<noteq> WSender"

definition only_signal_free :: "bench_call \<Rightarrow> bool" where
  "only_signal_free c = (case c of Group calls \<Rightarrow> list_all signal_free calls | _ \<Rightarrow> True)"

lemma signal_free_calls:
  "signal_free (sender_call base pid s t planned True)"
  "list_all signal_free (spawned_calls base pid probes backgrounds t planned)"
  by (auto simp: signal_free_def sender_call_def spawned_calls_def turn_call_of_def list_all_iff)

lemma traffic_signal_free:
  "traffic E args pid sender probes backgrounds t plan h = (r, failed, h') \<Longrightarrow> ra_control args \<Longrightarrow>
   list_all only_signal_free h \<Longrightarrow> list_all only_signal_free h'"
proof (induction plan arbitrary: t h r failed h')
  case (Cons planned plan)
  let ?sender = "sender_call (ra_base_url args) pid sender t planned (ra_control args)"
  let ?spawned = "spawned_calls (ra_base_url args) pid probes backgrounds t planned"
  let ?h = "h @ [Group (?sender # ?spawned)]"
  have h: "list_all only_signal_free ?h"
    using Cons.prems(2,3) signal_free_calls by (simp add: only_signal_free_def [of "Group calls" for calls])
  obtain r2 f2 h2 where rec: "traffic E args pid sender probes backgrounds (Suc t) plan ?h = (r2, f2, h2)"
    by (metis prod_cases3)
  then have "h' = ?h \<or> h' = h2"
    using Cons.prems(1) by (auto simp: Let_def split: interrupt.splits sum.splits)
  then show ?case using h Cons.IH [OF rec Cons.prems(2) h] by blast
qed simp

lemma not_group_signal_free: "\<not> is_group c \<Longrightarrow> only_signal_free c"
  by (cases c) (auto simp: is_group_def only_signal_free_def)

lemma start_run_signal_free:
  assumes "start_run E A args profile plan n sender probes backgrounds h = (r, h')" "ra_control args"
    and "list_all only_signal_free h"
  shows "list_all only_signal_free h'"
proof -
  let ?S = "StartRun (endpoint (ra_base_url args) ''/v1/experiments/start'') (ra_admin_token args)
    (start_request args profile)"
  have h: "list_all only_signal_free (h @ [?S])" using assms(3) by (simp add: only_signal_free_def [of ?S])
  obtain r2 failed h2 where t:
    "traffic E args (ep_id profile) sender probes backgrounds 0 plan (h @ [?S]) = (r2, failed, h2)"
    by (metis prod_cases3)
  note h2 = traffic_signal_free [OF t assms(2) h]
  consider "h' = h @ [?S]" | "h' = h2" | run where "finish_run E A args plan n run r2 h2 = (r, h')"
    using assms(1) t by (auto simp: start_run_def Let_def split: sum.splits if_splits)
  then show ?thesis
  proof cases
    case (3 run)
    from finish_run_calls [OF this] show ?thesis using h2
      by (auto simp: list_all_iff only_signal_free_def is_final_call_def split: bench_call.splits)
  qed (use h h2 in simp_all)
qed

text \<open>C32: in a control run no turn of any trial carries a bit or has the role of a sender: nothing of
  the planned bits is sent to the server.\<close>

theorem control_run_sends_no_bits:
  assumes "run_matrix E A args = (result, history)" and "ra_control args"
    and "Group calls \<in> set history" and "call \<in> set calls"
  shows "btq_bit (tc_request call) = None \<and> btq_role (tc_request call) \<noteq> WSender"
proof -
  have "list_all only_signal_free history"
    using run_matrix_calls [OF assms(1)]
  proof (elim disjE exE conjE)
    assume "list_all (\<lambda>c. \<not> is_start c \<and> \<not> is_group c) history"
    then show ?thesis by (auto simp: list_all_iff not_group_signal_free)
  next
    fix before profile plan n sender probes backgrounds
    assume "list_all (\<lambda>c. \<not> is_start c \<and> \<not> is_group c) before"
    then have "list_all only_signal_free before" by (auto simp: list_all_iff not_group_signal_free)
    moreover assume "start_run E A args profile plan n sender probes backgrounds before = (result, history)"
    ultimately show ?thesis using assms(2) start_run_signal_free by blast
  qed
  then have "only_signal_free (Group calls)" using assms(3) unfolding list_all_iff by blast
  then have "signal_free call" using assms(4) by (simp add: only_signal_free_def list_all_iff)
  then show ?thesis by (simp add: signal_free_def)
qed

theorem control_run_sends_no_bits_witness:
  "\<exists>history call calls. run_matrix sample_env exact sample_args = (Inl Interrupted, history) \<and>
     Group (call # calls) \<in> set history \<and> btq_bit (tc_request call) = None"
proof -
  obtain call calls history where h: "run_matrix sample_env exact sample_args = (Inl Interrupted, history)"
    "Group (call # calls) \<in> set history"
    using sample_history by force
  have "ra_control sample_args" by (simp add: sample_args_def)
  from control_run_sends_no_bits [OF h(1) this h(2), of call] h show ?thesis by auto
qed

end
