(* ===== verification/Fixtures.thy ===== *)
theory Fixtures
  imports Wasm_Host
begin

text \<open>
  The two guest modules of the lab, \<open>fixtures/stream_capitalize.wat\<close> and
  \<open>fixtures/sequential_probe.wat\<close>: their exported functions on a linear memory of bytes, with 32-bit
  wrap-around arithmetic and a trap (\<open>None\<close>) for an access outside the memory, and how many
  instructions a call executes. The engine stays a parameter: the locale \<open>metered_fixtures\<close> says what it
  is documented to do with these two modules, fuel included, whatever it charges for a call.
\<close>

section \<open>Memory accesses\<close>

definition load8_u :: "bytes \<Rightarrow> u32 \<Rightarrow> u8 option" where
  "load8_u mem a = (if unat a < length mem then Some (mem ! unat a) else None)"

definition store8 :: "bytes \<Rightarrow> u32 \<Rightarrow> u8 \<Rightarrow> bytes option" where
  "store8 mem a b = (if unat a < length mem then Some (mem[unat a := b]) else None)"

definition i32_load :: "bytes \<Rightarrow> u32 \<Rightarrow> i32 option" where
  "i32_load mem a =
     (if unat a + 4 \<le> length mem
      then Some (ucast (mem ! unat a) OR push_bit 8 (ucast (mem ! (unat a + 1)))
                 OR push_bit 16 (ucast (mem ! (unat a + 2)))
                 OR push_bit 24 (ucast (mem ! (unat a + 3))))
      else None)"

definition i32_store :: "bytes \<Rightarrow> u32 \<Rightarrow> i32 \<Rightarrow> bytes option" where
  "i32_store mem a v =
     (if unat a + 4 \<le> length mem
      then Some (mem[unat a := ucast v, unat a + 1 := ucast (drop_bit 8 v),
                     unat a + 2 := ucast (drop_bit 16 v), unat a + 3 := ucast (drop_bit 24 v)])
      else None)"

lemma word_Suc_less:
  assumes "(i :: 'a::len word) < n"
  shows "unat (i + 1) = Suc (unat i)"
proof -
  from assms have "unat i < unat n" by (simp add: word_less_nat_alt)
  then have "unat i + 1 < 2 ^ LENGTH('a)"
    using unsigned_less [of n] by (simp add: less_trans_Suc)
  then show ?thesis by (simp add: unat_add_lem [THEN iffD1])
qed

section \<open>stream_capitalize.wat\<close>

definition to_ascii_uppercase :: "u8 \<Rightarrow> u8" where
  "to_ascii_uppercase b = (if 97 \<le> b \<and> b \<le> 122 then b - 32 else b)"

function capitalize_loop :: "i32 \<Rightarrow> i32 \<Rightarrow> bytes \<Rightarrow> bytes option" where
  "capitalize_loop i fin mem =
     (if fin \<le> i then Some mem
      else case load8_u mem i of
        None \<Rightarrow> None
      | Some b \<Rightarrow>
          if 97 \<le> b \<and> b \<le> 122
          then (case store8 mem i (b - 32) of
                  None \<Rightarrow> None
                | Some mem \<Rightarrow> capitalize_loop (i + 1) fin mem)
          else capitalize_loop (i + 1) fin mem)"
  by pat_completeness auto
termination
proof (relation "measure (\<lambda>(i, fin, mem). unat fin - unat i)")
  show "wf (measure (\<lambda>(i :: i32, fin :: i32, mem :: bytes). unat fin - unat i))" by simp
qed (auto simp: not_le word_Suc_less word_less_nat_alt [symmetric],
     simp_all add: word_less_nat_alt word_Suc_less)

declare capitalize_loop.simps [simp del]

definition process_capitalize :: "i32 \<Rightarrow> i32 \<Rightarrow> i32 \<Rightarrow> bytes \<Rightarrow> (i32 \<times> bytes) option" where
  "process_capitalize previous_len chunk_len capacity mem =
     (let fin = previous_len + chunk_len in
      if fin < previous_len \<or> capacity < fin then Some (- 1, mem)
      else map_option (\<lambda>mem. (fin, mem)) (capitalize_loop previous_len fin mem))"

section \<open>sequential_probe.wat\<close>

function xor_state_loop :: "i32 \<Rightarrow> i32 \<Rightarrow> bytes \<Rightarrow> bytes option" where
  "xor_state_loop i state_len mem =
     (if state_len \<le> i then Some mem
      else case load8_u mem i of
        None \<Rightarrow> None
      | Some b \<Rightarrow> (case store8 mem i (b XOR 90) of
                     None \<Rightarrow> None
                   | Some mem \<Rightarrow> xor_state_loop (i + 1) state_len mem))"
  by pat_completeness auto
termination
  by (relation "measure (\<lambda>(i, n, mem). unat n - unat i)")
    (auto simp: not_le word_less_nat_alt word_Suc_less)

declare xor_state_loop.simps [simp del]

definition work_address :: "i32 \<Rightarrow> i32" where
  "work_address i = 65536 + ((i * 64) AND 8388604)"

function work_loop :: "i32 \<Rightarrow> i32 \<Rightarrow> i32 \<Rightarrow> bytes \<Rightarrow> (i32 \<times> bytes) option" where
  "work_loop i iterations acc mem =
     (if iterations \<le> i then Some (acc, mem)
      else case i32_load mem (work_address i) of
        None \<Rightarrow> None
      | Some v \<Rightarrow>
          (let acc = acc XOR v in
           case i32_store mem (work_address i) (acc + i) of
             None \<Rightarrow> None
           | Some mem \<Rightarrow> work_loop (i + 1) iterations acc mem))"
  by pat_completeness auto
termination
  by (relation "measure (\<lambda>(i, n, acc, mem). unat n - unat i)")
    (auto simp: not_le word_less_nat_alt word_Suc_less)

declare work_loop.simps [simp del]

definition run_probe :: "i32 \<Rightarrow> i32 \<Rightarrow> i32 \<Rightarrow> i32 \<Rightarrow> bytes \<Rightarrow> (i32 \<times> bytes) option" where
  "run_probe role turn_bit iterations state_len mem =
     (case xor_state_loop 0 state_len mem of
        None \<Rightarrow> None
      | Some mem \<Rightarrow> work_loop 0 iterations 608135816 mem)"

section \<open>Correctness of the guests\<close>

lemma load8_u_at: "unat i = length pre \<Longrightarrow> load8_u (pre @ b # post) i = Some b"
  by (simp add: load8_u_def)

lemma store8_at: "unat i = length pre \<Longrightarrow> store8 (pre @ b # post) i c = Some (pre @ c # post)"
  by (simp add: store8_def)

lemma capitalize_step:
  assumes "\<not> fin \<le> i" and "unat i = length pre"
  shows "capitalize_loop i fin (pre @ b # post) =
           capitalize_loop (i + 1) fin (pre @ to_ascii_uppercase b # post)"
  using assms
  by (subst capitalize_loop.simps) (simp add: load8_u_at store8_at to_ascii_uppercase_def)

lemma xor_step:
  assumes "\<not> n \<le> i" and "unat i = length pre"
  shows "xor_state_loop i n (pre @ b # post) = xor_state_loop (i + 1) n (pre @ (b XOR 90) # post)"
  using assms by (subst xor_state_loop.simps) (simp add: load8_u_at store8_at)

lemma capitalize_loop_eq:
  "unat i = length pre \<Longrightarrow> unat fin = length pre + length mid \<Longrightarrow>
     capitalize_loop i fin (pre @ mid @ post) = Some (pre @ map to_ascii_uppercase mid @ post)"
proof (induction mid arbitrary: i pre)
  case Nil
  then have "fin \<le> i" by (simp add: word_le_nat_alt)
  then show ?case by (simp add: capitalize_loop.simps [of i])
next
  case (Cons b mid)
  have lt: "i < fin" using Cons.prems by (simp add: word_less_nat_alt)
  have "capitalize_loop (i + 1) fin ((pre @ [to_ascii_uppercase b]) @ mid @ post) =
      Some ((pre @ [to_ascii_uppercase b]) @ map to_ascii_uppercase mid @ post)"
    using Cons.prems word_Suc_less [OF lt] by (intro Cons.IH) simp_all
  then show ?case
    using Cons.prems lt by (simp add: capitalize_step not_le)
qed

lemma xor_state_loop_eq:
  "unat i = length pre \<Longrightarrow> unat n = length pre + length mid \<Longrightarrow>
     xor_state_loop i n (pre @ mid @ post) = Some (pre @ map (\<lambda>b. b XOR 90) mid @ post)"
proof (induction mid arbitrary: i pre)
  case Nil
  then have "n \<le> i" by (simp add: word_le_nat_alt)
  then show ?case by (simp add: xor_state_loop.simps [of i])
next
  case (Cons b mid)
  have lt: "i < n" using Cons.prems by (simp add: word_less_nat_alt)
  have "xor_state_loop (i + 1) n ((pre @ [b XOR 90]) @ mid @ post) =
      Some ((pre @ [b XOR 90]) @ map (\<lambda>b. b XOR 90) mid @ post)"
    using Cons.prems word_Suc_less [OF lt] by (intro Cons.IH) simp_all
  then show ?case
    using Cons.prems lt by (simp add: xor_step not_le)
qed

lemma unat_work_address: "65536 \<le> unat (work_address i) \<and> unat (work_address i) + 4 \<le> 8454144"
proof -
  have "(i * 64) AND 8388604 \<le> (8388604 :: i32)" by (rule word_and_le1)
  then have le: "unat ((i * 64) AND 8388604 :: i32) \<le> 8388604"
    by (simp add: word_le_nat_alt)
  then have "unat (work_address i) = 65536 + unat ((i * 64) AND 8388604 :: i32)"
    unfolding work_address_def by (subst unat_add_lem [THEN iffD1]) simp_all
  with le show ?thesis by simp
qed

text \<open>The work loop never traps on the declared memory of 129 pages and keeps the state page.\<close>

lemma work_loop_keeps_state_page:
  "length mem = 8454144 \<Longrightarrow>
     \<exists>acc' mem'. work_loop i iterations acc mem = Some (acc', mem') \<and> length mem' = 8454144 \<and>
       take 65536 mem' = take 65536 mem"
proof (induction i iterations acc mem rule: work_loop.induct)
  case (1 i iterations acc mem)
  show ?case
  proof (cases "iterations \<le> i")
    case True
    with "1.prems" show ?thesis by (simp add: work_loop.simps [of i])
  next
    case False
    let ?a = "unat (work_address i)"
    obtain v where v: "i32_load mem (work_address i) = Some v"
      using unat_work_address [of i] "1.prems" by (simp add: i32_load_def)
    obtain m where m: "i32_store mem (work_address i) ((acc XOR v) + i) = Some m"
      and len: "length m = 8454144" and keep: "take 65536 m = take 65536 mem"
      using unat_work_address [of i] "1.prems" by (simp add: i32_store_def)
    from "1.IH" [OF False v, where x = "acc XOR v", OF refl m len] obtain acc' mem' where
      "work_loop (i + 1) iterations (acc XOR v) m = Some (acc', mem')" "length mem' = 8454144"
      "take 65536 mem' = take 65536 m" by blast
    with False v m keep show ?thesis by (simp add: work_loop.simps [of i] Let_def)
  qed
qed

text \<open>On the declared memory of 129 pages the probe module never traps, and whatever the role, the
  bit and the number of iterations are, it leaves every state byte xor 90 in the state region.\<close>

lemma run_probe_state:
  assumes "length state + length rest = 8454144" and "length state \<le> 65536"
  shows "\<exists>acc rest'. run_probe role turn_bit iterations (of_nat (length state)) (state @ rest)
           = Some (acc, map (\<lambda>b. b XOR 90) state @ rest') \<and> length rest' = length rest"
proof -
  let ?s = "map (\<lambda>b. b XOR 90) state"
  have "unat (of_nat (length state) :: i32) = length state"
    using assms(2) by (simp add: unat_of_nat_less)
  then have x: "xor_state_loop 0 (of_nat (length state)) (state @ rest) = Some (?s @ rest)"
    using xor_state_loop_eq [of 0 "[]" "of_nat (length state)" state rest] by simp
  have "length (?s @ rest) = 8454144" using assms(1) by simp
  then obtain acc mem' where w: "work_loop 0 iterations 608135816 (?s @ rest) = Some (acc, mem')"
    and len: "length mem' = 8454144" and keep: "take 65536 mem' = take 65536 (?s @ rest)"
    using work_loop_keeps_state_page by blast
  have "take (length state) mem' = take (length state) (take 65536 mem')"
    using assms(2) by (simp add: min_def)
  also have "\<dots> = ?s" using assms(2) by (simp add: keep min_def)
  finally have "mem' = ?s @ drop (length state) mem'" by (metis append_take_drop_id)
  then show ?thesis using x w len assms(1) by (auto simp: run_probe_def)
qed

text \<open>The capitalising module, given the accumulated bytes and a chunk that fit the capacity, returns
  their joint length and has upper-cased the chunk in place; a chunk beyond the capacity is refused
  with -1 and the memory unchanged.\<close>

lemma process_capitalize_eq:
  assumes "length previous + length chunk < 2 ^ 31"
  shows "process_capitalize (of_nat (length previous)) (of_nat (length chunk)) capacity
           (previous @ chunk @ rest) =
         Some (if length previous + length chunk \<le> unat capacity
               then (of_nat (length previous + length chunk),
                     previous @ map to_ascii_uppercase chunk @ rest)
               else (- 1, previous @ chunk @ rest))"
proof -
  let ?p = "of_nat (length previous) :: i32" and ?c = "of_nat (length chunk) :: i32"
  have p: "unat ?p = length previous" using assms by (simp add: unat_of_nat_less)
  have fin: "unat (?p + ?c) = length previous + length chunk"
    using assms by (simp add: unat_of_nat_less flip: of_nat_add)
  have no_wrap: "\<not> ?p + ?c < ?p" using p fin by (simp add: word_less_nat_alt)
  have "capitalize_loop ?p (?p + ?c) (previous @ chunk @ rest) =
      Some (previous @ map to_ascii_uppercase chunk @ rest)"
    using p fin by (intro capitalize_loop_eq) simp_all
  with fin no_wrap show ?thesis
    by (simp add: process_capitalize_def Let_def word_less_nat_alt not_less)
qed

section \<open>The guests under the hosts\<close>

text \<open>Which of the two modules some bytes encode is told by \<open>dec\<close>, which stands for the text-to-binary
  compiler.\<close>

datatype fixture = Sequential_probe | Stream_capitalize

definition fixture_pages :: "fixture \<Rightarrow> nat" where
  "fixture_pages fx = (case fx of Sequential_probe \<Rightarrow> 129 | Stream_capitalize \<Rightarrow> 16)"

definition fixture_memory :: "fixture \<Rightarrow> memory_type" where
  "fixture_memory fx =
     \<lparr>mt_shared = False, mt_memory64 = False, mt_page_size_log2 = None,
      mt_initial = of_nat (fixture_pages fx), mt_maximum = Some (of_nat (fixture_pages fx))\<rparr>"

text \<open>What the crates \<open>wasmparser\<close> and \<open>wasmi\<close> are documented to do with the two modules. They are valid and
  consist of sections without policy relevance around one memory section; they instantiate when the
  memory limit allows their memory, which is then zero. \<open>view\<close> tells which module an instance runs, the fuel
  left in its store and its memory. A call costs fuel, \<open>cost\<close> for the module, the arguments and the memory: with
  enough fuel it does what the text of the module says, without it the call fails.\<close>

lemma count_memories_others:
  "count_memories (replicate n (Inr OtherPayload) @ rs) = count_memories rs"
  by (induction n) (simp_all add: memories_in_def)

locale metered_fixtures =
  fixes W :: "('m, 'i) wasm_api" and dec :: "bytes \<Rightarrow> fixture option"
    and view :: "'i \<Rightarrow> fixture \<times> nat \<times> bytes"
    and cost :: "fixture \<Rightarrow> i32 list \<Rightarrow> bytes \<Rightarrow> nat"
  assumes valid: "dec mb = Some fx \<Longrightarrow> validate_all W mb"
    and sections: "dec mb = Some fx \<Longrightarrow> \<exists>before after. parse_all W mb =
      map Inr (replicate before OtherPayload @ MemorySection [Inr (fixture_memory fx)] # replicate after OtherPayload)"
    and compiles: "dec mb = Some fx \<Longrightarrow> \<exists>m. module_new W lab_engine mb = Some m \<and>
      (\<forall>pages fuel. fixture_pages fx \<le> unat pages \<longrightarrow>
         (\<exists>i. instantiate_and_start W lab_engine (lab_limits pages) fuel m = Some i \<and>
            view i = (fx, unat fuel, replicate (fixture_pages fx * 65536) 0)))"
    and takes_fuel: "set_fuel W lab_engine fuel"
    and memory: "view i = (fx, left, mem) \<Longrightarrow> memory_data W i = Some mem"
    and replace: "view i = (fx, left, mem) \<Longrightarrow> length mem' = length mem \<Longrightarrow>
      view (memory_replace W mem' i) = (fx, left, mem')"
    and exports: "view i = (Sequential_probe, left, mem) \<Longrightarrow> exports_run4 W i"
      "view i = (Stream_capitalize, left, mem) \<Longrightarrow> exports_process W i"
    and run_call: "view i = (Sequential_probe, left, mem) \<Longrightarrow> cost Sequential_probe [role, b, n, l] mem \<le> left \<Longrightarrow>
      run_probe role b n l mem = Some (res, mem') \<Longrightarrow>
      \<exists>i'. call_run4 W (role, b, n, l) i = Some (res, i') \<and>
        view i' = (Sequential_probe, left - cost Sequential_probe [role, b, n, l] mem, mem')"
    and run_out_of_fuel: "view i = (Sequential_probe, left, mem) \<Longrightarrow>
      left < cost Sequential_probe [role, b, n, l] mem \<Longrightarrow> call_run4 W (role, b, n, l) i = None"
    and process_call: "view i = (Stream_capitalize, left, mem) \<Longrightarrow> cost Stream_capitalize [p, c, cap] mem \<le> left \<Longrightarrow>
      process_capitalize p c cap mem = Some (res, mem') \<Longrightarrow>
      \<exists>i'. call_process W (p, c, cap) i = Some (res, i') \<and>
        view i' = (Stream_capitalize, left - cost Stream_capitalize [p, c, cap] mem, mem')"
    and process_out_of_fuel: "view i = (Stream_capitalize, left, mem) \<Longrightarrow>
      left < cost Stream_capitalize [p, c, cap] mem \<Longrightarrow> call_process W (p, c, cap) i = None"
begin

lemma fixture_validates:
  assumes "dec mb = Some fx" and "fixture_pages fx \<le> unat pages"
  shows "lab_validate W mb pages = Inr ()"
proof -
  have "unat (of_nat (fixture_pages fx) :: u64) = fixture_pages fx"
    by (rule unat_of_nat_less) (simp add: fixture_pages_def split: fixture.splits)
  then have "memory_admissible pages (fixture_memory fx)"
    using assms(2) by (simp add: memory_admissible_def fixture_memory_def)
  moreover obtain before after where "parse_all W mb = map Inr
      (replicate before OtherPayload @ MemorySection [Inr (fixture_memory fx)] # replicate after OtherPayload)"
    using sections [OF assms(1)] by blast
  ultimately show ?thesis
    using valid [OF assms(1)]
    by (auto simp: lab_validate_def result_simps check_payloads_iff count_memories_others
        count_memories_others [where rs = "[]", simplified] lab_check_payload_iff payload_admissible_def memories_in_def)
qed

lemma fixture_instance:
  assumes "dec mb = Some fx" and "fixture_pages fx \<le> unat pages"
  obtains m i where "module_new W lab_engine mb = Some m"
    "instantiate_and_start W lab_engine (lab_limits pages) fuel m = Some i"
    "view i = (fx, unat fuel, replicate (fixture_pages fx * 65536) 0)"
  using compiles [OF assms(1)] assms(2) by blast

lemma probe_turn:
  assumes dec: "dec mb = Some Sequential_probe" and pages: "129 \<le> unat pages" and len: "length state \<le> 65536"
  shows "lab_execute W mb state role b n fuel pages =
    (if cost Sequential_probe [role, b, n, of_nat (length state)] (state @ replicate (8454144 - length state) 0) \<le> unat fuel
     then Inr (map (\<lambda>x. x XOR 90) state) else Inl ''execute run'')"
proof -
  let ?mem = "replicate 8454144 (0 :: u8)" and ?s = "map (\<lambda>x. x XOR 90) state"
  let ?given = "state @ replicate (8454144 - length state) 0"
  obtain m i where mi: "module_new W lab_engine mb = Some m"
      "instantiate_and_start W lab_engine (lab_limits pages) fuel m = Some i"
      "view i = (Sequential_probe, unat fuel, ?mem)"
    using fixture_instance [OF dec, of pages fuel] pages by (auto simp: fixture_pages_def)
  have w: "memory_write ?mem 0 state = Some ?given" using len by (simp add: memory_write_def)
  have v: "view (memory_replace W ?given i) = (Sequential_probe, unat fuel, ?given)"
    using replace [OF mi(3), of ?given] len by simp
  obtain acc rest where run: "run_probe role b n (of_nat (length state)) ?given = Some (acc, ?s @ rest)"
    using run_probe_state [of state "replicate (8454144 - length state) 0" role b n] len by auto
  have read: "memory_read (?s @ rest) 0 (length state) = Some ?s" by (simp add: memory_read_def)
  note steps = fixture_validates [OF dec, of pages] mi(1,2) takes_fuel memory [OF mi(3)] w exports(1) [OF mi(3)]
  show ?thesis
  proof (cases "cost Sequential_probe [role, b, n, of_nat (length state)] ?given \<le> unat fuel")
    case True
    from run_call [OF v True run] obtain i' where
      "call_run4 W (role, b, n, of_nat (length state)) (memory_replace W ?given i) = Some (acc, i')"
      "memory_data W i' = Some (?s @ rest)" using memory by blast
    with steps True read pages len show ?thesis by (simp add: lab_execute_def fixture_pages_def)
  next
    case False
    with run_out_of_fuel [OF v, of role b n] steps pages len show ?thesis
      by (simp add: lab_execute_def fixture_pages_def not_le)
  qed
qed

lemma capitalize_turn:
  assumes dec: "dec mb = Some Stream_capitalize" and pages: "16 \<le> unat pages"
    and fit: "length previous + length chunk \<le> 1048576"
  shows "execute_stream W mb previous chunk 1048576 fuel pages =
    (if cost Stream_capitalize [of_nat (length previous), of_nat (length chunk), 1048576]
          (previous @ chunk @ replicate (1048576 - (length previous + length chunk)) 0) \<le> unat fuel
     then Inr (previous @ map to_ascii_uppercase chunk) else Inl ''execute stream chunk'')"
proof -
  let ?mem = "replicate 1048576 (0 :: u8)" and ?n = "length previous + length chunk"
  let ?rest = "replicate (1048576 - ?n) (0 :: u8)"
  let ?given = "previous @ chunk @ ?rest" and ?done = "previous @ map to_ascii_uppercase chunk @ ?rest"
  have len: "unat (of_nat (length previous) :: usize) = length previous"
      "unat (of_nat (length chunk) :: usize) = length chunk"
    using fit by (simp_all add: unat_of_nat_less)
  then have cap: "saturating_add (of_nat (length previous)) (of_nat (length chunk)) \<le> (1048576 :: usize)"
    using fit by (simp add: word_le_nat_alt unat_saturating_add)
  obtain m i where mi: "module_new W lab_engine mb = Some m"
      "instantiate_and_start W lab_engine (lab_limits pages) fuel m = Some i"
      "view i = (Stream_capitalize, unat fuel, ?mem)"
    using fixture_instance [OF dec, of pages fuel] pages by (auto simp: fixture_pages_def)
  have w1: "memory_write ?mem 0 previous = Some (previous @ replicate (1048576 - length previous) 0)"
    using fit by (simp add: memory_write_def)
  have w2: "memory_write (previous @ replicate (1048576 - length previous) 0) (length previous) chunk = Some ?given"
    using fit by (simp add: memory_write_def)
  have v: "view (memory_replace W ?given i) = (Stream_capitalize, unat fuel, ?given)"
    using replace [OF mi(3), of ?given] fit by simp
  have call: "process_capitalize (of_nat (length previous)) (of_nat (length chunk)) 1048576 ?given =
      Some (of_nat ?n, ?done)"
    using process_capitalize_eq [of previous chunk 1048576 ?rest] fit by simp
  have sint: "sint (of_nat ?n :: i32) = int ?n" by (rule sint_of_nat_less) (use fit in simp)
  have read: "memory_read ?done 0 ?n = Some (previous @ map to_ascii_uppercase chunk)"
    by (simp add: memory_read_def)
  note steps = cap fixture_validates [OF dec, of pages] mi(1,2) takes_fuel memory [OF mi(3)] w1 w2 exports(2) [OF mi(3)]
  show ?thesis
  proof (cases "cost Stream_capitalize [of_nat (length previous), of_nat (length chunk), 1048576] ?given \<le> unat fuel")
    case True
    from process_call [OF v True call] obtain i' where
      "call_process W (of_nat (length previous), of_nat (length chunk), 1048576) (memory_replace W ?given i)
         = Some (of_nat ?n, i')" "memory_data W i' = Some ?done" using memory by blast
    with steps True read sint pages show ?thesis by (simp add: execute_stream_def fixture_pages_def nat_int_add)
  next
    case False
    with process_out_of_fuel [OF v] steps pages show ?thesis
      by (simp add: execute_stream_def fixture_pages_def not_le)
  qed
qed

end

section \<open>Instructions executed\<close>

text \<open>The number of instructions that a call without a trap executes: the instructions of the text, where a
  round of a loop counts the \<open>loop\<close> itself, its four-instruction exit test, the body and the branch back.\<close>

function xor_state_steps :: "i32 \<Rightarrow> i32 \<Rightarrow> nat" where
  "xor_state_steps i state_len = (if state_len \<le> i then 5 else 16 + xor_state_steps (i + 1) state_len)"
  by pat_completeness auto
termination
  by (relation "measure (\<lambda>(i, n). unat n - unat i)") (auto simp: not_le word_less_nat_alt word_Suc_less)

function work_steps :: "i32 \<Rightarrow> i32 \<Rightarrow> nat" where
  "work_steps i iterations = (if iterations \<le> i then 5 else 28 + work_steps (i + 1) iterations)"
  by pat_completeness auto
termination
  by (relation "measure (\<lambda>(i, n). unat n - unat i)") (auto simp: not_le word_less_nat_alt word_Suc_less)

function capitalize_steps :: "i32 \<Rightarrow> i32 \<Rightarrow> bytes \<Rightarrow> nat" where
  "capitalize_steps i fin mem =
     (if fin \<le> i then 5
      else (if 97 \<le> mem ! unat i \<and> mem ! unat i \<le> 122 then 26 else 21) + capitalize_steps (i + 1) fin mem)"
  by pat_completeness auto
termination
  by (relation "measure (\<lambda>(i, n, mem). unat n - unat i)") (auto simp: not_le word_less_nat_alt word_Suc_less)

declare xor_state_steps.simps [simp del] work_steps.simps [simp del] capitalize_steps.simps [simp del]

definition run_instructions :: "i32 \<Rightarrow> i32 \<Rightarrow> nat" where
  "run_instructions iterations state_len = 9 + xor_state_steps 0 state_len + work_steps 0 iterations"

definition process_instructions :: "i32 \<Rightarrow> i32 \<Rightarrow> i32 \<Rightarrow> bytes \<Rightarrow> nat" where
  "process_instructions previous_len chunk_len capacity mem =
     (let fin = previous_len + chunk_len in
      if fin < previous_len \<or> capacity < fin then 14 else 16 + capitalize_steps previous_len fin mem)"

lemma xor_state_steps_eq: "xor_state_steps i n = 16 * (unat n - unat i) + 5"
proof (induction i n rule: xor_state_steps.induct)
  case (1 i n)
  then show ?case
    using word_Suc_less [of i n]
    by (subst xor_state_steps.simps) (auto simp: not_le word_le_nat_alt word_less_nat_alt)
qed

lemma work_steps_eq: "work_steps i n = 28 * (unat n - unat i) + 5"
proof (induction i n rule: work_steps.induct)
  case (1 i n)
  then show ?case
    using word_Suc_less [of i n]
    by (subst work_steps.simps) (auto simp: not_le word_le_nat_alt word_less_nat_alt)
qed

lemma capitalize_steps_le: "capitalize_steps i fin mem \<le> 26 * (unat fin - unat i) + 5"
proof (induction i fin mem rule: capitalize_steps.induct)
  case (1 i fin mem)
  then show ?case
    using word_Suc_less [of i fin]
    by (subst capitalize_steps.simps) (auto simp: not_le word_le_nat_alt word_less_nat_alt)
qed

lemma run_instructions_eq: "run_instructions n l = 19 + 16 * unat l + 28 * unat n"
  by (simp add: run_instructions_def xor_state_steps_eq work_steps_eq)

lemma process_instructions_le:
  assumes "length previous + length chunk < 2 ^ 31"
  shows "process_instructions (of_nat (length previous)) (of_nat (length chunk)) cap mem \<le> 21 + 26 * length chunk"
proof -
  let ?p = "of_nat (length previous) :: i32" and ?c = "of_nat (length chunk) :: i32"
  have "unat ?p = length previous" "unat (?p + ?c) = length previous + length chunk"
    using assms by (simp_all add: unat_of_nat_less flip: of_nat_add)
  then show ?thesis
    using capitalize_steps_le [of ?p "?p + ?c" mem] by (simp add: process_instructions_def Let_def)
qed

text \<open>An engine that charges at most \<open>rate\<close> units of fuel for an instruction.\<close>

definition charges_at_most :: "nat \<Rightarrow> (fixture \<Rightarrow> i32 list \<Rightarrow> bytes \<Rightarrow> nat) \<Rightarrow> bool" where
  "charges_at_most rate cost \<longleftrightarrow>
     (\<forall>role b n l mem. cost Sequential_probe [role, b, n, l] mem \<le> rate * run_instructions n l) \<and>
     (\<forall>p c cap mem. cost Stream_capitalize [p, c, cap] mem \<le> rate * process_instructions p c cap mem)"

lemma charges_stream:
  assumes "charges_at_most rate cost" and "length previous + length chunk \<le> 1048576"
  shows "cost Stream_capitalize [of_nat (length previous), of_nat (length chunk), cap] mem \<le> rate * (21 + 26 * length chunk)"
proof -
  have "cost Stream_capitalize [of_nat (length previous), of_nat (length chunk), cap] mem
      \<le> rate * process_instructions (of_nat (length previous)) (of_nat (length chunk)) cap mem"
    using assms(1) by (simp add: charges_at_most_def)
  also have "\<dots> \<le> rate * (21 + 26 * length chunk)"
    by (rule mult_le_mono2, rule process_instructions_le) (use assms(2) in simp)
  finally show ?thesis .
qed

section \<open>Turns on a metered engine\<close>

text \<open>Hosted by the lab with the probe module, a turn that the fuel covers succeeds and whatever the role, the
  bit and the number of iterations are, the state it returns is the same: every state byte xor 90.
  The state that a session carries to its next turn is no channel for the bit.\<close>

theorem lab_execute_probe:
  assumes "metered_fixtures W dec view cost"
    and "dec mb = Some Sequential_probe" and "129 \<le> unat pages" and "length state \<le> 65536"
  shows "lab_execute W mb state role b n fuel pages =
    (if cost Sequential_probe [role, b, n, of_nat (length state)] (state @ replicate (8454144 - length state) 0) \<le> unat fuel
     then Inr (map (\<lambda>x. x XOR 90) state) else Inl ''execute run'')"
  using assms by (rule metered_fixtures.probe_turn)

text \<open>C15: hosted by the lab with the capitalising module on an engine that meters fuel, a chunk that fits the
  capacity of sixteen pages turns the accumulated bytes into the accumulated bytes followed by the
  upper-cased chunk when the fuel covers what the engine charges for the call, and is the error of the
  call, without any output, when it does not. An engine that charges at most \<open>rate\<close> units for an
  instruction never runs out when the fuel is \<open>rate * (21 + 26 * length chunk)\<close> or more, however long
  the accumulated bytes are.\<close>

theorem execute_stream_capitalizes:
  assumes "metered_fixtures W dec view cost"
    and "dec mb = Some Stream_capitalize" and "16 \<le> unat pages"
    and "length previous + length chunk \<le> 1048576"
  shows "execute_stream W mb previous chunk 1048576 fuel pages =
    (if cost Stream_capitalize [of_nat (length previous), of_nat (length chunk), 1048576]
          (previous @ chunk @ replicate (1048576 - (length previous + length chunk)) 0) \<le> unat fuel
     then Inr (previous @ map to_ascii_uppercase chunk) else Inl ''execute stream chunk'') \<and>
   (charges_at_most rate cost \<longrightarrow> rate * (21 + 26 * length chunk) \<le> unat fuel \<longrightarrow>
    execute_stream W mb previous chunk 1048576 fuel pages = Inr (previous @ map to_ascii_uppercase chunk))"
  using metered_fixtures.capitalize_turn [OF assms, of fuel] charges_stream [of rate cost previous chunk] assms(4)
  by (auto intro: order_trans)

section \<open>A reference engine\<close>

text \<open>An interpreter for the two modules that charges one unit for an instruction.\<close>

definition fixture_cost :: "fixture \<Rightarrow> i32 list \<Rightarrow> bytes \<Rightarrow> nat" where
  "fixture_cost fx args mem =
     (case (fx, args) of
        (Sequential_probe, [role, b, n, l]) \<Rightarrow> run_instructions n l
      | (Stream_capitalize, [p, c, cap]) \<Rightarrow> process_instructions p c cap mem
      | _ \<Rightarrow> 0)"

definition charged :: "nat \<Rightarrow> nat \<Rightarrow> fixture \<Rightarrow> (i32 \<times> bytes) option \<Rightarrow> (i32 \<times> fixture \<times> nat \<times> bytes) option" where
  "charged price left fx result =
     (if price \<le> left then map_option (\<lambda>(r, mem). (r, fx, left - price, mem)) result else None)"

definition fixture_api :: "(bytes \<Rightarrow> fixture option) \<Rightarrow> (fixture, fixture \<times> nat \<times> bytes) wasm_api" where
  "fixture_api dec =
     \<lparr>validate_all = (\<lambda>bs. dec bs \<noteq> None),
      parse_all = (\<lambda>bs. case dec bs of
          None \<Rightarrow> []
        | Some fx \<Rightarrow> [Inr OtherPayload, Inr (MemorySection [Inr (fixture_memory fx)])]),
      module_new = (\<lambda>_. dec),
      set_fuel = (\<lambda>c _. consume_fuel c),
      instantiate_and_start = (\<lambda>_ lim fuel fx.
          if fixture_pages fx * 65536 \<le> unat (sl_memory_size lim)
          then Some (fx, unat fuel, replicate (fixture_pages fx * 65536) 0) else None),
      exports_run0 = (\<lambda>_. False),
      call_run0 = (\<lambda>_. None),
      memory_data = (\<lambda>(_, _, mem). Some mem),
      memory_replace = (\<lambda>mem (fx, left, _). (fx, left, mem)),
      exports_run4 = (\<lambda>(fx, _). fx = Sequential_probe),
      call_run4 = (\<lambda>(role, b, n, l) (fx, left, mem).
          charged (fixture_cost fx [role, b, n, l] mem) left fx (run_probe role b n l mem)),
      exports_process = (\<lambda>(fx, _). fx = Stream_capitalize),
      call_process = (\<lambda>(p, c, cap) (fx, left, mem).
          charged (fixture_cost fx [p, c, cap] mem) left fx (process_capitalize p c cap mem))\<rparr>"

interpretation reference_engine: metered_fixtures "fixture_api dec" dec "\<lambda>i. i" fixture_cost for dec
proof
  fix mb fx
  assume dec: "dec mb = Some fx"
  show "validate_all (fixture_api dec) mb" using dec by (simp add: fixture_api_def)
  have "parse_all (fixture_api dec) mb = map Inr
      (replicate 1 OtherPayload @ MemorySection [Inr (fixture_memory fx)] # replicate 0 OtherPayload)"
    using dec by (simp add: fixture_api_def)
  then show "\<exists>before after. parse_all (fixture_api dec) mb = map Inr
      (replicate before OtherPayload @ MemorySection [Inr (fixture_memory fx)] # replicate after OtherPayload)"
    by blast
  show "\<exists>m. module_new (fixture_api dec) lab_engine mb = Some m \<and>
      (\<forall>pages fuel. fixture_pages fx \<le> unat pages \<longrightarrow>
         (\<exists>i. instantiate_and_start (fixture_api dec) lab_engine (lab_limits pages) fuel m = Some i \<and>
            i = (fx, unat fuel, replicate (fixture_pages fx * 65536) 0)))"
    using dec by (simp add: fixture_api_def lab_limits_def runner_limit_bytes)
qed (auto simp: fixture_api_def charged_def lab_engine_def engine_def fixture_cost_def)

lemma reference_engine: "metered_fixtures (fixture_api dec) dec (\<lambda>i. i) fixture_cost"
  by (rule reference_engine.metered_fixtures_axioms)

lemma fixture_cost_rate: "1 \<le> rate \<Longrightarrow> charges_at_most rate fixture_cost"
  by (simp add: charges_at_most_def fixture_cost_def)

section \<open>Witnesses\<close>

definition sample_decoder :: "bytes \<Rightarrow> fixture option" where
  "sample_decoder bs = (case bs of [] \<Rightarrow> None | b # _ \<Rightarrow>
     if b = 1 then Some Sequential_probe else Some Stream_capitalize)"

theorem execute_stream_capitalizes_witness:
  "execute_stream (fixture_api sample_decoder) [2] [76, 79] [114, 101, 33] 1048576 1000000 16 =
     Inr [76, 79, 82, 69, 33]"
  using execute_stream_capitalizes [OF reference_engine,
      of sample_decoder "[2]" 16 "[76, 79]" "[114, 101, 33]" 1000000 1, THEN conjunct2] fixture_cost_rate [of 1]
  by (simp add: sample_decoder_def to_ascii_uppercase_def)

lemma sample_probe_turn:
  "lab_execute (fixture_api sample_decoder) [1] [17, 17] 1 0 100 1000000 129 = Inr [75, 75]"
  using reference_engine.probe_turn [of sample_decoder "[1]" 129 "[17, 17]" 1 0 100 1000000]
  by (simp add: sample_decoder_def fixture_cost_def run_instructions_eq)

lemma sample_capitalize_turn:
  "execute_stream (fixture_api sample_decoder) [2] [76, 79] [114] 1048576 1000000 16 =
     Inr [76, 79, 82]"
proof -
  have "process_instructions 2 1 1048576 mem \<le> 1000000" for mem
    using process_instructions_le [of "[76, 79]" "[114]" 1048576 mem] by simp
  then show ?thesis
    using reference_engine.capitalize_turn [of sample_decoder "[2]" 16 "[76, 79]" "[114]" 1000000]
    by (simp add: sample_decoder_def to_ascii_uppercase_def fixture_cost_def)
qed

lemma sample_out_of_fuel:
  "execute_stream (fixture_api sample_decoder) [2] [] [114] 1048576 0 16 = Inl ''execute stream chunk''"
  using reference_engine.capitalize_turn [of sample_decoder "[2]" 16 "[]" "[114]" 0]
  by (simp add: sample_decoder_def fixture_cost_def process_instructions_def Let_def)

theorem lab_execute_state_transfer_witness:
  "\<exists>m i mem r i' mem'.
     instantiate_and_start (fixture_api sample_decoder) lab_engine (lab_limits 129) 1000000 m = Some i \<and>
     memory_data (fixture_api sample_decoder) i = Some mem \<and>
     call_run4 (fixture_api sample_decoder) (1, 0, 100, of_nat (length [17, 17 :: u8]))
       (memory_replace (fixture_api sample_decoder) ([17, 17] @ drop (length [17, 17 :: u8]) mem) i)
       = Some (r, i') \<and>
     memory_data (fixture_api sample_decoder) i' = Some mem' \<and>
     [75, 75] = take (length [17, 17 :: u8]) mem'"
  by (rule lab_execute_state_transfer [OF sample_probe_turn, THEN conjunct2])

theorem execute_stream_state_transfer_witness:
  "length [76, 79, 82 :: u8] = length [76, 79 :: u8] + length [114 :: u8] \<and>
   (\<exists>m i mem r i' mem'.
     instantiate_and_start (fixture_api sample_decoder) lab_engine (lab_limits 16) 1000000 m = Some i \<and>
     memory_data (fixture_api sample_decoder) i = Some mem \<and>
     call_process (fixture_api sample_decoder)
       (of_nat (length [76, 79 :: u8]), of_nat (length [114 :: u8]), ucast (1048576 :: usize))
       (memory_replace (fixture_api sample_decoder)
          ([76, 79] @ [114] @ drop (length [76, 79 :: u8] + length [114 :: u8]) mem) i) = Some (r, i') \<and>
     sint r = int (length [76, 79, 82 :: u8]) \<and>
     memory_data (fixture_api sample_decoder) i' = Some mem' \<and>
     [76, 79, 82] = take (length [76, 79 :: u8] + length [114 :: u8]) mem')"
  by (rule execute_stream_state_transfer [OF sample_capitalize_turn])

end
