(* ===== verification/Lab_Process.thy ===== *)
theory Lab_Process
  imports Fixtures Runner
begin

text \<open>
  The processes of the lab, \<open>crates/sequential-lab/src/main.rs\<close>: its policy, the two functions that
  spawn a fresh process per turn or chunk (\<open>execute_process\<close>, \<open>execute_stream_process\<close>), and what
  these processes do (\<open>runner_main\<close>, \<open>stream_runner_main\<close>). \<open>process_of\<close> joins the two sides: the
  arguments and the input that the parent produces are those that the child reads.
\<close>

section \<open>Policy and roles\<close>

definition MAX_CHUNK_BYTES :: usize where "MAX_CHUNK_BYTES = 1024"
definition MAX_PENDING :: usize where "MAX_PENDING = 256"
definition STREAM_STATE_BYTES :: usize where "STREAM_STATE_BYTES = 16 * 65536"

datatype role = Sender | Probe | Control

fun abi :: "role \<Rightarrow> i32" where
  "abi Sender = 0"
| "abi Probe = 1"
| "abi Control = 2"

record lab_policy =
  state_bytes :: usize
  session_slots :: usize
  sender_hot_iterations :: u32
  sender_cold_iterations :: u32
  sender_control_iterations :: u32
  probe_iterations :: u32
  execution_cutoff :: duration
  release_slot :: "duration option"
  lab_fuel :: u64
  lab_memory_pages :: u32
  lab_address_space :: u64
  lab_cpu :: u64

definition iterations_for :: "role \<Rightarrow> u8 \<Rightarrow> lab_policy \<Rightarrow> u32" where
  "iterations_for r b pol =
     (case r of
        Sender \<Rightarrow> if b = 1 then sender_hot_iterations pol else sender_cold_iterations pol
      | Control \<Rightarrow> sender_control_iterations pol
      | Probe \<Rightarrow> probe_iterations pol)"

section \<open>Signed decimal numbers\<close>

definition i32_to_string :: "i32 \<Rightarrow> string" where
  "i32_to_string w =
     (if sint w < 0 then CHR ''-'' # nat_to_string (nat (- sint w)) else nat_to_string (nat (sint w)))"

definition parse_i32 :: "string \<Rightarrow> i32 option" where
  "parse_i32 s =
     (case s of
        c # ds \<Rightarrow>
          if c = CHR ''-'' then
            (if ds = [] then None
             else case parse_digits 0 ds of
                    None \<Rightarrow> None
                  | Some n \<Rightarrow> if n \<le> 2 ^ 31 then Some (- of_nat n) else None)
          else map_option of_nat (parse_uint 31 s)
      | [] \<Rightarrow> None)"

section \<open>The parent: spawning, feeding, collecting\<close>

text \<open>The process interface of the runtime: a handle, whether its pipes could be taken, what
  \<open>timeout_at\<close> yields for the writes of the given buffers (\<open>None\<close> when the deadline passes), and
  what it yields for reading at most \<open>n\<close> bytes of output and then waiting, once the child was
  given these buffers.\<close>

record 'h lab_process_api =
  lab_current_exe :: "string option"
  lab_spawn :: "command \<Rightarrow> 'h option"
  lab_take_stdin :: "'h \<Rightarrow> bool"
  lab_write :: "'h \<Rightarrow> bytes list \<Rightarrow> instant \<Rightarrow> (error + unit) option"
  lab_take_stdout :: "'h \<Rightarrow> bool"
  lab_completion :: "'h \<Rightarrow> bytes list \<Rightarrow> nat \<Rightarrow> instant \<Rightarrow> (error + bytes \<times> exit_status) option"

datatype process_result = Success bytes | TimedOut | Failed

fun success :: "exit_status \<Rightarrow> bool" where
  "success (Exited n) = (n = 0)"
| "success (Signalled _) = False"

definition lab_command :: "string \<Rightarrow> string list \<Rightarrow> command" where
  "lab_command executable args =
     \<lparr>cmd_program = executable, cmd_args = args, cmd_env_cleared = True,
      cmd_stdin = Piped, cmd_stdout = Piped, cmd_stderr = Null, cmd_kill_on_drop = True\<rparr>"

definition turn_arguments ::
    "bytes \<Rightarrow> bytes \<Rightarrow> role \<Rightarrow> u8 \<Rightarrow> u32 \<Rightarrow> lab_policy \<Rightarrow> string list" where
  "turn_arguments module_bytes state r b iterations pol =
     [''__runner'', nat_to_string (length module_bytes), nat_to_string (length state),
      word_to_string (lab_fuel pol), word_to_string (lab_memory_pages pol),
      word_to_string (lab_address_space pol), word_to_string (lab_cpu pol),
      i32_to_string (abi r), word_to_string b, word_to_string iterations]"

definition execute_process_inner ::
    "'h lab_process_api \<Rightarrow> bytes \<Rightarrow> bytes \<Rightarrow> role \<Rightarrow> u8 \<Rightarrow> u32 \<Rightarrow> lab_policy \<Rightarrow> instant
     \<Rightarrow> error + process_result" where
  "execute_process_inner P module_bytes state r b iterations pol deadline =
     try_bind (ok_or (lab_current_exe P) ''locate lab executable'') (\<lambda>executable.
     try_bind (ok_or (lab_spawn P (lab_command executable
                 (turn_arguments module_bytes state r b iterations pol))) ''spawn runner'') (\<lambda>child.
     try_bind (ensure (lab_take_stdin P child) ''runner stdin missing'') (\<lambda>_.
     case lab_write P child [module_bytes, state] deadline of
       None \<Rightarrow> Inr TimedOut
     | Some _ \<Rightarrow>
     try_bind (ensure (lab_take_stdout P child) ''runner stdout missing'') (\<lambda>_.
     case lab_completion P child [module_bytes, state] (unat (state_bytes pol) + 1) deadline of
       None \<Rightarrow> Inr TimedOut
     | Some result \<Rightarrow>
     try_bind (with_message ''wait for runner'' result) (\<lambda>(output, status).
     if success status \<and> length output = unat (state_bytes pol)
     then Inr (Success output) else Inr Failed)))))"

definition lab_execute_process ::
    "'h lab_process_api \<Rightarrow> bytes \<Rightarrow> bytes \<Rightarrow> role \<Rightarrow> u8 \<Rightarrow> u32 \<Rightarrow> lab_policy \<Rightarrow> instant \<Rightarrow> process_result" where
  "lab_execute_process P module_bytes state r b iterations pol deadline =
     (case execute_process_inner P module_bytes state r b iterations pol deadline of
        Inr res \<Rightarrow> res | Inl _ \<Rightarrow> Failed)"

definition stream_arguments :: "bytes \<Rightarrow> bytes \<Rightarrow> bytes \<Rightarrow> lab_policy \<Rightarrow> string list" where
  "stream_arguments module_bytes previous chunk pol =
     [''__stream_runner'', nat_to_string (length module_bytes), nat_to_string (length previous),
      nat_to_string (length chunk), word_to_string (lab_fuel pol),
      word_to_string (lab_memory_pages pol), word_to_string (lab_address_space pol),
      word_to_string (lab_cpu pol), word_to_string STREAM_STATE_BYTES]"

definition execute_stream_process_inner ::
    "'h lab_process_api \<Rightarrow> bytes \<Rightarrow> bytes \<Rightarrow> bytes \<Rightarrow> lab_policy \<Rightarrow> instant \<Rightarrow> error + process_result" where
  "execute_stream_process_inner P module_bytes previous chunk pol deadline =
     try_bind (ok_or (lab_current_exe P) ''locate stream lab executable'') (\<lambda>executable.
     try_bind (ok_or (lab_spawn P (lab_command executable
                 (stream_arguments module_bytes previous chunk pol))) ''spawn stream runner'') (\<lambda>child.
     try_bind (ensure (lab_take_stdin P child) ''stream runner stdin missing'') (\<lambda>_.
     case lab_write P child [module_bytes, previous, chunk] deadline of
       None \<Rightarrow> Inr TimedOut
     | Some _ \<Rightarrow>
     try_bind (ensure (lab_take_stdout P child) ''stream runner stdout missing'') (\<lambda>_.
     case lab_completion P child [module_bytes, previous, chunk]
            (unat STREAM_STATE_BYTES + 1) deadline of
       None \<Rightarrow> Inr TimedOut
     | Some result \<Rightarrow>
     try_bind (with_message ''wait for stream runner'' result) (\<lambda>(output, status).
     if success status \<and> length output = length previous + length chunk
        \<and> length output \<le> unat STREAM_STATE_BYTES
     then Inr (Success output) else Inr Failed)))))"

definition execute_stream_process ::
    "'h lab_process_api \<Rightarrow> bytes \<Rightarrow> bytes \<Rightarrow> bytes \<Rightarrow> lab_policy \<Rightarrow> instant \<Rightarrow> process_result" where
  "execute_stream_process P module_bytes previous chunk pol deadline =
     (case execute_stream_process_inner P module_bytes previous chunk pol deadline of
        Inr res \<Rightarrow> res | Inl _ \<Rightarrow> Failed)"

section \<open>The child\<close>

definition runner_arg :: "(string \<Rightarrow> 'a option) \<Rightarrow> string list \<Rightarrow> nat \<Rightarrow> string \<Rightarrow> error + 'a" where
  "runner_arg parse args index name =
     try_bind (ok_or (if index < length args then Some (args ! index) else None)
                 (''missing runner '' @ name)) (\<lambda>s.
     ok_or (parse s) (''invalid runner '' @ name))"

definition read_exact :: "nat \<Rightarrow> error + bytes \<Rightarrow> error + bytes" where
  "read_exact n stdin =
     try_bind stdin (\<lambda>bs. if n \<le> length bs then Inr (take n bs) else Inl ''failed to fill whole buffer'')"

definition lab_clear_environment :: "proc \<Rightarrow> proc" where
  "lab_clear_environment p = p\<lparr>p_env := remove_vars (map fst (p_env p)) (p_env p)\<rparr>"

text \<open>Environment, descriptors and sandbox, in the order in which both runners apply them.\<close>

definition lab_confine :: "kernel \<Rightarrow> lab_sandbox_policy \<Rightarrow> proc \<Rightarrow> error + proc" where
  "lab_confine K pol p =
     try_bind (close_inherited_descriptors K (lab_clear_environment p)) (\<lambda>p.
     lab_apply K pol p)"

text \<open>The two runners up to the call of the host: the process state and the arguments of the call.\<close>

record turn_call =
  tc_module :: bytes
  tc_state :: bytes
  tc_role :: i32
  tc_bit :: i32
  tc_iterations :: i32
  tc_fuel :: u64
  tc_pages :: u32

definition lab_runner_prepare ::
    "kernel \<Rightarrow> string list \<Rightarrow> error + bytes \<Rightarrow> proc \<Rightarrow> error + proc \<times> turn_call" where
  "lab_runner_prepare K args stdin p =
     try_bind (runner_arg parse_word args 2 ''module length'') (\<lambda>module_len :: usize.
     try_bind (runner_arg parse_word args 3 ''state length'') (\<lambda>state_len :: usize.
     try_bind (runner_arg parse_word args 4 ''fuel'') (\<lambda>fuel.
     try_bind (runner_arg parse_word args 5 ''memory pages'') (\<lambda>pages.
     try_bind (runner_arg parse_word args 6 ''address space'') (\<lambda>address_space.
     try_bind (runner_arg parse_word args 7 ''CPU seconds'') (\<lambda>cpu.
     try_bind (runner_arg parse_i32 args 8 ''role'') (\<lambda>r.
     try_bind (runner_arg parse_i32 args 9 ''bit'') (\<lambda>b.
     try_bind (runner_arg parse_i32 args 10 ''iterations'') (\<lambda>iterations.
     try_bind (ensure (\<not> (module_len = 0 \<or> module_len > 1024 * 1024
                          \<or> state_len = 0 \<or> state_len > 65536))
                 ''runner input violates bounds'') (\<lambda>_.
     try_bind (read_exact (unat module_len + unat state_len) stdin) (\<lambda>inp.
     try_bind (lab_confine K \<lparr>lab_address_space_bytes = address_space, lab_cpu_seconds = cpu\<rparr> p) (\<lambda>p.
     Inr (p, \<lparr>tc_module = take (unat module_len) inp, tc_state = drop (unat module_len) inp,
              tc_role = r, tc_bit = b, tc_iterations = iterations, tc_fuel = fuel,
              tc_pages = pages\<rparr>)))))))))))))"

text \<open>The result is what the process writes to its standard output before it exits with success.\<close>

definition lab_runner_main ::
    "('m, 'i) wasm_api \<Rightarrow> kernel \<Rightarrow> (bytes \<Rightarrow> error + unit) \<Rightarrow> string list \<Rightarrow> error + bytes \<Rightarrow> proc
     \<Rightarrow> error + bytes" where
  "lab_runner_main W K write_stdout args stdin p =
     try_bind (lab_runner_prepare K args stdin p) (\<lambda>(_, c).
     try_bind (lab_execute W (tc_module c) (tc_state c) (tc_role c) (tc_bit c) (tc_iterations c)
                 (tc_fuel c) (tc_pages c)) (\<lambda>next.
     try_bind (write_stdout next) (\<lambda>_. Inr next)))"

record stream_call =
  sc_module :: bytes
  sc_previous :: bytes
  sc_chunk :: bytes
  sc_capacity :: usize
  sc_fuel :: u64
  sc_pages :: u32

definition stream_runner_prepare ::
    "kernel \<Rightarrow> string list \<Rightarrow> error + bytes \<Rightarrow> proc \<Rightarrow> error + proc \<times> stream_call" where
  "stream_runner_prepare K args stdin p =
     try_bind (runner_arg parse_word args 2 ''stream module length'') (\<lambda>module_len :: usize.
     try_bind (runner_arg parse_word args 3 ''stream previous length'') (\<lambda>previous_len :: usize.
     try_bind (runner_arg parse_word args 4 ''stream chunk length'') (\<lambda>chunk_len :: usize.
     try_bind (runner_arg parse_word args 5 ''stream fuel'') (\<lambda>fuel.
     try_bind (runner_arg parse_word args 6 ''stream memory pages'') (\<lambda>pages.
     try_bind (runner_arg parse_word args 7 ''stream address space'') (\<lambda>address_space.
     try_bind (runner_arg parse_word args 8 ''stream CPU seconds'') (\<lambda>cpu.
     try_bind (runner_arg parse_word args 9 ''stream state capacity'') (\<lambda>capacity :: usize.
     try_bind (ensure (\<not> (module_len = 0 \<or> module_len > 1024 * 1024 \<or> chunk_len = 0
                          \<or> chunk_len > MAX_CHUNK_BYTES \<or> capacity \<noteq> STREAM_STATE_BYTES
                          \<or> saturating_add previous_len chunk_len > capacity))
                 ''stream runner input violates bounds'') (\<lambda>_.
     try_bind (read_exact (unat module_len + unat previous_len + unat chunk_len) stdin) (\<lambda>inp.
     try_bind (lab_confine K \<lparr>lab_address_space_bytes = address_space, lab_cpu_seconds = cpu\<rparr> p) (\<lambda>p.
     let state_start = unat module_len; chunk_start = state_start + unat previous_len in
     Inr (p, \<lparr>sc_module = take state_start inp,
              sc_previous = take (chunk_start - state_start) (drop state_start inp),
              sc_chunk = drop chunk_start inp, sc_capacity = capacity, sc_fuel = fuel,
              sc_pages = pages\<rparr>))))))))))))"

definition stream_runner_main ::
    "('m, 'i) wasm_api \<Rightarrow> kernel \<Rightarrow> (bytes \<Rightarrow> error + unit) \<Rightarrow> string list \<Rightarrow> error + bytes \<Rightarrow> proc
     \<Rightarrow> error + bytes" where
  "stream_runner_main W K write_stdout args stdin p =
     try_bind (stream_runner_prepare K args stdin p) (\<lambda>(_, c).
     try_bind (execute_stream W (sc_module c) (sc_previous c) (sc_chunk c) (sc_capacity c)
                 (sc_fuel c) (sc_pages c)) (\<lambda>next.
     try_bind (write_stdout next) (\<lambda>_. Inr next)))"

text \<open>The dispatch of \<open>main\<close>.\<close>

datatype lab_invocation = Turn_runner | Stream_runner | Validate_runner | Command_line

definition lab_main_mode :: "string list \<Rightarrow> lab_invocation" where
  "lab_main_mode args =
     (case (if 1 < length args then Some (args ! 1) else None) of
        Some a \<Rightarrow> if a = ''__runner'' then Turn_runner
                  else if a = ''__stream_runner'' then Stream_runner
                  else if a = ''__validate'' then Validate_runner
                  else Command_line
      | None \<Rightarrow> Command_line)"

section \<open>Self test\<close>

definition validation_policy :: lab_policy where
  "validation_policy =
     \<lparr>state_bytes = 64, session_slots = 2, sender_hot_iterations = 100, sender_cold_iterations = 10,
      sender_control_iterations = 50, probe_iterations = 100, execution_cutoff = 5 * nanos_per_sec,
      release_slot = None, lab_fuel = 1000000, lab_memory_pages = 129,
      lab_address_space = 256 * 1024 * 1024, lab_cpu = 2\<rparr>"

text \<open>\<open>probe\<close> and \<open>capitalize\<close> are the compiled fixtures (the \<open>wat\<close> crate compiles them), \<open>t1\<close> and \<open>t2\<close>
  the two readings of the clock.\<close>

definition validate_runner ::
    "'h lab_process_api \<Rightarrow> bytes option \<Rightarrow> bytes option \<Rightarrow> instant \<Rightarrow> instant \<Rightarrow> error + string" where
  "validate_runner P probe capitalize t1 t2 =
     (let pol = validation_policy in
      try_bind (ok_or probe ''compile validation fixture'') (\<lambda>module_bytes.
      try_bind (execute_process_inner P module_bytes (replicate (unat (state_bytes pol)) 0) Probe 0
                  (probe_iterations pol) pol (t1 + execution_cutoff pol)) (\<lambda>r.
      case r of
        Success output \<Rightarrow>
          try_bind (ensure (length output = unat (state_bytes pol))
                      ''sandboxed runner returned the wrong state size'') (\<lambda>_.
          try_bind (ok_or capitalize ''compile stream validation fixture'') (\<lambda>stream_module.
          try_bind (execute_stream_process_inner P stream_module [] (as_bytes ''lorem ipsum'') pol
                      (t2 + execution_cutoff pol)) (\<lambda>r.
          case r of
            Success stream \<Rightarrow>
              try_bind (ensure (stream = as_bytes ''LOREM IPSUM'')
                          ''sandboxed stream runner did not rehydrate and capitalize'') (\<lambda>_.
              Inr ''validated fresh-process sequential and stream runners'')
          | _ \<Rightarrow> Inl ''sandboxed stream runner did not return state'')))
      | _ \<Rightarrow> Inl ''sandboxed runner did not return state'')))"

section \<open>Arguments survive the command line\<close>

lemma nat_to_string_not_minus: "nat_to_string n = c # cs \<Longrightarrow> c \<noteq> CHR ''-''"
proof
  assume "nat_to_string n = c # cs" and m: "c = CHR ''-''"
  with hd_nat_to_string [of n] obtain d where "d < 10" "c = digit_char d" by auto
  then have "(of_char c :: nat) = 48 + d" by (simp add: of_char_digit_char)
  with m show False by simp
qed

lemma parse_i32_nat:
  "parse_i32 (nat_to_string n) = (if n < 2 ^ 31 then Some (of_nat n) else None)"
proof (cases "nat_to_string n")
  case (Cons c cs)
  then show ?thesis
    using nat_to_string_not_minus [OF Cons] parse_uint_to_string [of 31 n]
    by (simp add: parse_i32_def)
qed simp

lemma parse_i32_to_string [simp]: "parse_i32 (i32_to_string w) = Some w"
proof (cases "sint w < 0")
  case True
  have "nat (- sint w) \<le> 2 ^ 31" using sint_ge [of w] by simp
  moreover have "- (of_nat (nat (- sint w)) :: i32) = w"
    using True by (simp add: of_nat_nat)
  ultimately show ?thesis
    using True by (simp add: i32_to_string_def parse_i32_def parse_digits_nat_to_string)
next
  case False
  have "nat (sint w) < 2 ^ 31" using sint_lt [of w] False by simp
  moreover have "(of_nat (nat (sint w)) :: i32) = w" using False by simp
  ultimately show ?thesis using False by (simp add: i32_to_string_def parse_i32_nat)
qed

lemma parse_i32_word:
  "unat w < 2 ^ 31 \<Longrightarrow> parse_i32 (word_to_string w) = Some (of_nat (unat w))"
  "\<not> unat w < 2 ^ 31 \<Longrightarrow> parse_i32 (word_to_string w) = None"
  by (simp_all add: word_to_string_def parse_i32_nat)

lemma parse_word_nat: "n < 2 ^ LENGTH('a) \<Longrightarrow> parse_word (nat_to_string n) = Some (of_nat n :: 'a::len word)"
  by (simp add: parse_word_def parse_uint_to_string)

lemma runner_arg_at: "i < length args \<Longrightarrow> runner_arg parse args i name = ok_or (parse (args ! i)) (''invalid runner '' @ name)"
  by (simp add: runner_arg_def)

lemma parse_i32_byte: "parse_i32 (word_to_string (b :: u8)) = Some (of_nat (unat b))"
proof (rule parse_i32_word(1))
  have "unat b < 2 ^ LENGTH(8)" by (rule unsigned_less)
  then show "unat b < 2 ^ 31" by simp
qed

section \<open>Confinement\<close>

lemma lab_clear_environment_eq: "lab_clear_environment p = p\<lparr>p_env := []\<rparr>"
  using clear_environment_eq [of p] by (simp add: clear_environment_def lab_clear_environment_def)

lemma lab_confine_state:
  assumes "kernel_contract K" and "lab_confine K pol p = Inr p'"
    and "\<forall>fd \<in> set (p_fds p). fd < 2 ^ 32"
  shows "p_env p' = [] \<and> set (p_fds p') \<subseteq> {0, 1, 2} \<and>
         confined lab_filter (lab_address_space_bytes pol) (lab_cpu_seconds pol) 3 p'"
proof -
  from assms(2) obtain p1 where
    c: "close_inherited_descriptors K (p\<lparr>p_env := []\<rparr>) = Inr p1" and a: "lab_apply K pol p1 = Inr p'"
    by (auto simp: lab_confine_def lab_clear_environment_eq result_simps)
  have "set (p_fds p1) \<subseteq> {0, 1, 2}"
    using close_inherited_descriptors_ok [OF assms(1) c] assms(3) by fastforce
  with close_inherited_descriptors_ok [OF assms(1) c] lab_apply_state [OF assms(1) a]
  show ?thesis by simp
qed

lemma lab_confine_granted:
  assumes "granting_kernel K" and "kernel_contract K" and "p_rlimits p RLIMIT_NOFILE = None"
  shows "\<exists>p'. lab_confine K pol p = Inr p'"
proof -
  obtain p1 where c: "close_inherited_descriptors K (p\<lparr>p_env := []\<rparr>) = Inr p1"
    using granting_kernelD(1) [OF assms(1)] by blast
  have "p_rlimits p1 RLIMIT_NOFILE = None"
    using close_inherited_descriptors_ok [OF assms(2) c] assms(3) by simp
  from lab_apply_granted [OF assms(1,2) this] c show ?thesis
    by (auto simp: lab_confine_def lab_clear_environment_eq)
qed

lemma read_exact_Inr_iff [result_simps]:
  "read_exact n stdin = Inr inp \<longleftrightarrow> (\<exists>rest. stdin = Inr (inp @ rest) \<and> length inp = n)"
proof -
  have "\<exists>rest. bs = take n bs @ rest \<and> length (take n bs) = n" if "n \<le> length bs" for bs :: bytes
    using that append_take_drop_id [of n bs] by (intro exI [of _ "drop n bs"]) simp
  then show ?thesis
    by (cases stdin) (auto simp: read_exact_def try_bind_def)
qed

lemma lab_runner_prepare_ok:
  assumes "lab_runner_prepare K args stdin p = Inr (p', c)"
  obtains address_space cpu rest where
    "stdin = Inr (tc_module c @ tc_state c @ rest)" "tc_module c \<noteq> []"
    "length (tc_module c) \<le> 1024 * 1024" "tc_state c \<noteq> []" "length (tc_state c) \<le> 65536"
    "runner_arg parse_word args 6 ''address space'' = Inr address_space"
    "runner_arg parse_word args 7 ''CPU seconds'' = Inr cpu"
    "lab_confine K \<lparr>lab_address_space_bytes = address_space, lab_cpu_seconds = cpu\<rparr> p = Inr p'"
proof -
  from assms obtain ml sl inp address_space cpu rest where
    b: "\<not> (ml = 0 \<or> ml > 1024 * 1024 \<or> sl = 0 \<or> sl > (65536 :: usize))"
    and i: "stdin = Inr (inp @ rest)" "length inp = unat (ml :: usize) + unat sl"
    and c: "tc_module c = take (unat ml) inp" "tc_state c = drop (unat ml) inp"
    and a: "runner_arg parse_word args 6 ''address space'' = Inr address_space"
      "runner_arg parse_word args 7 ''CPU seconds'' = Inr cpu"
      "lab_confine K \<lparr>lab_address_space_bytes = address_space, lab_cpu_seconds = cpu\<rparr> p = Inr p'"
    unfolding lab_runner_prepare_def by (auto simp: result_simps)
  have l: "0 < unat ml" "unat ml \<le> 1024 * 1024" "0 < unat sl" "unat sl \<le> 65536"
    using b by (auto simp: word_less_nat_alt unat_gt_0)
  with i(2) have "length (tc_module c) = unat ml" "length (tc_state c) = unat sl" by (simp_all add: c)
  moreover from this l have "tc_module c \<noteq> []" "tc_state c \<noteq> []" by auto
  moreover have "inp = tc_module c @ tc_state c" by (simp add: c)
  ultimately show thesis using that [OF _ _ _ _ _ a] l i(1) by auto
qed

lemma stream_runner_prepare_ok:
  assumes "stream_runner_prepare K args stdin p = Inr (p', c)"
  obtains address_space cpu rest where
    "stdin = Inr (sc_module c @ sc_previous c @ sc_chunk c @ rest)" "sc_module c \<noteq> []"
    "length (sc_module c) \<le> 1024 * 1024" "sc_chunk c \<noteq> []" "length (sc_chunk c) \<le> 1024"
    "length (sc_previous c) + length (sc_chunk c) \<le> 16 * 65536"
    "runner_arg parse_word args 7 ''stream address space'' = Inr address_space"
    "runner_arg parse_word args 8 ''stream CPU seconds'' = Inr cpu"
    "lab_confine K \<lparr>lab_address_space_bytes = address_space, lab_cpu_seconds = cpu\<rparr> p = Inr p'"
proof -
  from assms obtain ml pl cl inp address_space cpu rest where
    b: "\<not> (ml = 0 \<or> ml > 1024 * 1024 \<or> cl = 0 \<or> cl > MAX_CHUNK_BYTES
            \<or> saturating_add pl cl > (STREAM_STATE_BYTES :: usize))"
    and i: "stdin = Inr (inp @ rest)" "length inp = unat (ml :: usize) + unat pl + unat cl"
    and c: "sc_module c = take (unat ml) inp" "sc_previous c = take (unat pl) (drop (unat ml) inp)"
      "sc_chunk c = drop (unat ml + unat pl) inp"
    and a: "runner_arg parse_word args 7 ''stream address space'' = Inr address_space"
      "runner_arg parse_word args 8 ''stream CPU seconds'' = Inr cpu"
      "lab_confine K \<lparr>lab_address_space_bytes = address_space, lab_cpu_seconds = cpu\<rparr> p = Inr p'"
    unfolding stream_runner_prepare_def by (auto simp: result_simps Let_def)
  have l: "0 < unat ml" "unat ml \<le> 1024 * 1024" "0 < unat cl" "unat cl \<le> 1024"
    "unat pl + unat cl \<le> 16 * 65536"
    using b by (auto simp: word_less_nat_alt unat_gt_0 MAX_CHUNK_BYTES_def STREAM_STATE_BYTES_def
        unat_saturating_add split: if_splits)
  with i(2) have "length (sc_module c) = unat ml" "length (sc_previous c) = unat pl"
    "length (sc_chunk c) = unat cl" by (simp_all add: c)
  moreover from this l have "sc_module c \<noteq> []" "sc_chunk c \<noteq> []" by auto
  moreover have "inp = sc_module c @ sc_previous c @ sc_chunk c"
    unfolding c add.commute [of "unat ml"] drop_drop [symmetric] by (simp only: append_take_drop_id)
  ultimately show thesis using that [OF _ _ _ _ _ _ a] l i(1) by auto
qed

text \<open>C28: both runners of the lab call the host only in a process without environment, with no
  descriptor but the standard streams, and confined by the lab's table with the limits of their
  command line; the buffers they pass on are cut from the input at the announced lengths and obey
  the bounds on modules, states and chunks.\<close>

theorem lab_runners_confine:
  assumes "kernel_contract K" and "\<forall>fd \<in> set (p_fds p). fd < 2 ^ 32"
  shows "(\<forall>p' c. lab_runner_prepare K args stdin p = Inr (p', c) \<longrightarrow>
            (\<exists>rest. stdin = Inr (tc_module c @ tc_state c @ rest)) \<and>
            tc_module c \<noteq> [] \<and> length (tc_module c) \<le> 1024 * 1024 \<and>
            tc_state c \<noteq> [] \<and> length (tc_state c) \<le> 65536 \<and>
            p_env p' = [] \<and> set (p_fds p') \<subseteq> {0, 1, 2} \<and>
            (\<exists>address_space cpu. runner_arg parse_word args 6 ''address space'' = Inr address_space \<and>
               runner_arg parse_word args 7 ''CPU seconds'' = Inr cpu \<and>
               confined lab_filter address_space cpu 3 p')) \<and>
         (\<forall>p' c. stream_runner_prepare K args stdin p = Inr (p', c) \<longrightarrow>
            (\<exists>rest. stdin = Inr (sc_module c @ sc_previous c @ sc_chunk c @ rest)) \<and>
            sc_module c \<noteq> [] \<and> length (sc_module c) \<le> 1024 * 1024 \<and>
            sc_chunk c \<noteq> [] \<and> length (sc_chunk c) \<le> 1024 \<and>
            length (sc_previous c) + length (sc_chunk c) \<le> 16 * 65536 \<and>
            p_env p' = [] \<and> set (p_fds p') \<subseteq> {0, 1, 2} \<and>
            (\<exists>address_space cpu. runner_arg parse_word args 7 ''stream address space'' = Inr address_space \<and>
               runner_arg parse_word args 8 ''stream CPU seconds'' = Inr cpu \<and>
               confined lab_filter address_space cpu 3 p'))"
proof (rule conjI; intro allI impI)
  fix p' c
  assume "lab_runner_prepare K args stdin p = Inr (p', c)"
  then show "(\<exists>rest. stdin = Inr (tc_module c @ tc_state c @ rest)) \<and>
            tc_module c \<noteq> [] \<and> length (tc_module c) \<le> 1024 * 1024 \<and>
            tc_state c \<noteq> [] \<and> length (tc_state c) \<le> 65536 \<and>
            p_env p' = [] \<and> set (p_fds p') \<subseteq> {0, 1, 2} \<and>
            (\<exists>address_space cpu. runner_arg parse_word args 6 ''address space'' = Inr address_space \<and>
               runner_arg parse_word args 7 ''CPU seconds'' = Inr cpu \<and>
               confined lab_filter address_space cpu 3 p')"
    by (rule lab_runner_prepare_ok) (auto dest!: lab_confine_state [OF assms(1) _ assms(2)])
next
  fix p' c
  assume "stream_runner_prepare K args stdin p = Inr (p', c)"
  then show "(\<exists>rest. stdin = Inr (sc_module c @ sc_previous c @ sc_chunk c @ rest)) \<and>
            sc_module c \<noteq> [] \<and> length (sc_module c) \<le> 1024 * 1024 \<and>
            sc_chunk c \<noteq> [] \<and> length (sc_chunk c) \<le> 1024 \<and>
            length (sc_previous c) + length (sc_chunk c) \<le> 16 * 65536 \<and>
            p_env p' = [] \<and> set (p_fds p') \<subseteq> {0, 1, 2} \<and>
            (\<exists>address_space cpu. runner_arg parse_word args 7 ''stream address space'' = Inr address_space \<and>
               runner_arg parse_word args 8 ''stream CPU seconds'' = Inr cpu \<and>
               confined lab_filter address_space cpu 3 p')"
    by (rule stream_runner_prepare_ok) (auto dest!: lab_confine_state [OF assms(1) _ assms(2)])
qed

section \<open>Parent and child together\<close>

text \<open>An operating system that runs the lab's own executable for every spawn, in a fresh process
  \<open>p\<close>, and is always in time.\<close>

definition run_child ::
    "('m, 'i) wasm_api \<Rightarrow> kernel \<Rightarrow> proc \<Rightarrow> command \<Rightarrow> bytes \<Rightarrow> error + bytes" where
  "run_child W K p c inp =
     (let args = cmd_program c # cmd_args c in
      case lab_main_mode args of
        Turn_runner \<Rightarrow> lab_runner_main W K (\<lambda>_. Inr ()) args (Inr inp) p
      | Stream_runner \<Rightarrow> stream_runner_main W K (\<lambda>_. Inr ()) args (Inr inp) p
      | _ \<Rightarrow> Inl ''not a runner'')"

definition process_of ::
    "('m, 'i) wasm_api \<Rightarrow> kernel \<Rightarrow> proc \<Rightarrow> command lab_process_api" where
  "process_of W K p =
     \<lparr>lab_current_exe = Some ''/lab'', lab_spawn = Some, lab_take_stdin = (\<lambda>_. True),
      lab_write = (\<lambda>_ _ _. Some (Inr ())), lab_take_stdout = (\<lambda>_. True),
      lab_completion = (\<lambda>c bufs n _.
        case run_child W K p c (concat bufs) of
          Inr out \<Rightarrow> Some (Inr (take n out, Exited 0))
        | Inl _ \<Rightarrow> Some (Inr ([], Exited 1)))\<rparr>"

lemma turn_arguments_modes [simp]:
  "lab_main_mode (exe # turn_arguments m st r b n pol) = Turn_runner"
  "lab_main_mode (exe # stream_arguments m pr ch pol) = Stream_runner"
  by (simp_all add: lab_main_mode_def turn_arguments_def stream_arguments_def)

lemma length_bound_word:
  assumes "length xs \<le> 1048576"
  shows "parse_word (nat_to_string (length xs)) = Some (of_nat (length xs) :: usize)"
    and "unat (of_nat (length xs) :: usize) = length xs"
  using assms by (simp_all add: parse_word_nat unat_of_nat_less)

lemma lab_runner_receives:
  assumes "lab_confine K \<lparr>lab_address_space_bytes = lab_address_space pol, lab_cpu_seconds = lab_cpu pol\<rparr> p
      = Inr p'"
    and "m \<noteq> []" "length m \<le> 1024 * 1024" "st \<noteq> []" "length st \<le> 65536" "unat n < 2 ^ 31"
  shows "lab_runner_prepare K (exe # turn_arguments m st r b n pol) (Inr (m @ st)) p =
    Inr (p', \<lparr>tc_module = m, tc_state = st, tc_role = abi r, tc_bit = of_nat (unat b),
             tc_iterations = of_nat (unat n), tc_fuel = lab_fuel pol, tc_pages = lab_memory_pages pol\<rparr>)"
proof -
  note len = length_bound_word [of m] length_bound_word [of st]
  have bounds: "\<not> ((of_nat (length m) :: usize) = 0 \<or> (of_nat (length m) :: usize) > 1024 * 1024 \<or>
      (of_nat (length st) :: usize) = 0 \<or> (of_nat (length st) :: usize) > 65536)"
    using assms(2-5) len by (auto simp: word_less_nat_alt unat_eq_zero [symmetric])
  show ?thesis
    using assms bounds len
    by (simp add: lab_runner_prepare_def turn_arguments_def runner_arg_at parse_i32_byte parse_i32_word
        read_exact_def ensure_def)
qed

lemma stream_runner_receives:
  assumes "lab_confine K \<lparr>lab_address_space_bytes = lab_address_space pol, lab_cpu_seconds = lab_cpu pol\<rparr> p
      = Inr p'"
    and "m \<noteq> []" "length m \<le> 1024 * 1024" "ch \<noteq> []" "length ch \<le> 1024"
      "length pr + length ch \<le> 16 * 65536"
  shows "stream_runner_prepare K (exe # stream_arguments m pr ch pol) (Inr (m @ pr @ ch)) p =
    Inr (p', \<lparr>sc_module = m, sc_previous = pr, sc_chunk = ch, sc_capacity = STREAM_STATE_BYTES,
             sc_fuel = lab_fuel pol, sc_pages = lab_memory_pages pol\<rparr>)"
proof -
  note len = length_bound_word [of m] length_bound_word [of pr] length_bound_word [of ch]
  have bounds: "\<not> ((of_nat (length m) :: usize) = 0 \<or> (of_nat (length m) :: usize) > 1024 * 1024 \<or>
      (of_nat (length ch) :: usize) = 0 \<or> (of_nat (length ch) :: usize) > MAX_CHUNK_BYTES \<or>
      STREAM_STATE_BYTES \<noteq> STREAM_STATE_BYTES \<or>
      saturating_add (of_nat (length pr)) (of_nat (length ch)) > STREAM_STATE_BYTES)"
    using assms(2-6) len
    by (auto simp: word_less_nat_alt unat_eq_zero [symmetric] MAX_CHUNK_BYTES_def STREAM_STATE_BYTES_def
        unat_saturating_add)
  show ?thesis
    using assms bounds len
    by (simp add: stream_runner_prepare_def stream_arguments_def runner_arg_at read_exact_def ensure_def
        Let_def)
qed

lemma turn_process_runs:
  assumes "granting_kernel K" and "kernel_contract K" and "p_rlimits p RLIMIT_NOFILE = None"
    and "m \<noteq> []" "length m \<le> 1024 * 1024" "st \<noteq> []" "length st \<le> 65536" "unat n < 2 ^ 31"
  shows "execute_process_inner (process_of W K p) m st r b n pol deadline =
    Inr (case lab_execute W m st (abi r) (of_nat (unat b)) (of_nat (unat n)) (lab_fuel pol)
            (lab_memory_pages pol) of
       Inr out \<Rightarrow> if length out = unat (state_bytes pol) then Success out else Failed
     | Inl _ \<Rightarrow> Failed)"
proof -
  from lab_confine_granted [OF assms(1-3)] obtain p' where
    "lab_confine K \<lparr>lab_address_space_bytes = lab_address_space pol, lab_cpu_seconds = lab_cpu pol\<rparr> p
      = Inr p'" by blast
  from lab_runner_receives [OF this assms(4-8)] show ?thesis
    by (auto simp: execute_process_inner_def process_of_def run_child_def
        lab_command_def lab_runner_main_def ensure_def Let_def try_bind_def min_def split: sum.splits)
qed

text \<open>C26: a turn means the same to parent and child. For a module and a state within the bounds and
  an iteration count below two to the thirty-one, on a kernel that grants the sandbox, the parent's
  call yields exactly what the host computes from that module, state, role, bit and count: success
  with its output when the output has the length of a state, failure otherwise.\<close>

theorem turn_process_round_trip:
  assumes "granting_kernel K" and "kernel_contract K" and "p_rlimits p RLIMIT_NOFILE = None"
    and "m \<noteq> []" "length m \<le> 1024 * 1024" "st \<noteq> []" "length st \<le> 65536" "unat n < 2 ^ 31"
  shows "lab_execute_process (process_of W K p) m st r b n pol deadline =
    (case lab_execute W m st (abi r) (of_nat (unat b)) (of_nat (unat n)) (lab_fuel pol)
            (lab_memory_pages pol) of
       Inr out \<Rightarrow> if length out = unat (state_bytes pol) then Success out else Failed
     | Inl _ \<Rightarrow> Failed)"
  unfolding lab_execute_process_def turn_process_runs [OF assms] by simp

lemma stream_process_runs:
  assumes "granting_kernel K" and "kernel_contract K" and "p_rlimits p RLIMIT_NOFILE = None"
    and "m \<noteq> []" "length m \<le> 1024 * 1024" "ch \<noteq> []" "length ch \<le> 1024"
    and "length pr + length ch \<le> 16 * 65536"
  shows "execute_stream_process_inner (process_of W K p) m pr ch pol deadline =
    Inr (case execute_stream W m pr ch STREAM_STATE_BYTES (lab_fuel pol) (lab_memory_pages pol) of
       Inr out \<Rightarrow> if length out = length pr + length ch then Success out else Failed
     | Inl _ \<Rightarrow> Failed)"
proof -
  from lab_confine_granted [OF assms(1-3)] obtain p' where
    "lab_confine K \<lparr>lab_address_space_bytes = lab_address_space pol, lab_cpu_seconds = lab_cpu pol\<rparr> p
      = Inr p'" by blast
  from stream_runner_receives [OF this assms(4-8)] assms(8) show ?thesis
    by (auto simp: execute_stream_process_inner_def process_of_def run_child_def STREAM_STATE_BYTES_def
        lab_command_def stream_runner_main_def ensure_def Let_def try_bind_def min_def split: sum.splits)
qed

lemma stream_process_capitalizes:
  assumes "granting_kernel K" and "kernel_contract K" and "p_rlimits p RLIMIT_NOFILE = None"
    and "metered_fixtures W dec view cost" and "dec m = Some Stream_capitalize"
    and "m \<noteq> []" "length m \<le> 1024 * 1024" "ch \<noteq> []" "length ch \<le> 1024"
    and "length pr + length ch \<le> 16 * 65536" and "16 \<le> unat (lab_memory_pages pol)"
  shows "execute_stream_process_inner (process_of W K p) m pr ch pol deadline =
    Inr (if cost Stream_capitalize [of_nat (length pr), of_nat (length ch), 1048576]
              (pr @ ch @ replicate (1048576 - (length pr + length ch)) 0) \<le> unat (lab_fuel pol)
         then Success (pr @ map to_ascii_uppercase ch) else Failed)"
  using stream_process_runs [OF assms(1-3,6-10), of W pol deadline]
    metered_fixtures.capitalize_turn [OF assms(4,5,11), of pr ch "lab_fuel pol"] assms(10)
  by (simp add: STREAM_STATE_BYTES_def)

text \<open>C29 (a defect): an iteration count of two to the thirty-one or more passes the parent and is refused by
  the child. The parent puts the count on the command line as an unsigned number and returns whatever
  a child that exits with success and a state of the right size has written; the child, given that command
  line, fails with the error of the iterations argument whatever it reads and on every kernel and engine. So
  such a turn fails, always.\<close>

theorem large_iterations_always_fail:
  assumes "2 ^ 31 \<le> unat n" and "length m < 2 ^ 64" and "length st < 2 ^ 64"
  shows "(\<forall>(P :: 'h lab_process_api) exe child out.
            lab_current_exe P = Some exe \<longrightarrow>
            lab_spawn P (lab_command exe (turn_arguments m st r b n pol)) = Some child \<longrightarrow>
            lab_take_stdin P child \<longrightarrow> lab_write P child [m, st] deadline = Some (Inr ()) \<longrightarrow>
            lab_take_stdout P child \<longrightarrow> length out = unat (state_bytes pol) \<longrightarrow>
            lab_completion P child [m, st] (unat (state_bytes pol) + 1) deadline = Some (Inr (out, Exited 0)) \<longrightarrow>
            lab_execute_process P m st r b n pol deadline = Success out) \<and>
         turn_arguments m st r b n pol ! 9 = word_to_string n \<and>
         (\<forall>exe stdin put. lab_runner_main W K put (exe # turn_arguments m st r b n pol) stdin p =
            Inl ''invalid runner iterations'') \<and>
         lab_execute_process (process_of W K p) m st r b n pol deadline = Failed"
proof -
  have child: "lab_runner_main W K put (exe # turn_arguments m st r b n pol) stdin p =
      Inl ''invalid runner iterations''" for exe stdin put
    using assms
    by (simp add: lab_runner_main_def lab_runner_prepare_def turn_arguments_def runner_arg_at parse_word_nat
        parse_i32_byte parse_i32_word)
  have "lab_execute_process (process_of W K p) m st r b n pol deadline = Failed"
    by (simp add: lab_execute_process_def execute_process_inner_def process_of_def run_child_def
        lab_command_def child Let_def)
  moreover have "turn_arguments m st r b n pol ! 9 = word_to_string n" by (simp add: turn_arguments_def)
  moreover have "lab_execute_process P m st r b n pol deadline = Success out"
    if "lab_current_exe P = Some exe" "lab_spawn P (lab_command exe (turn_arguments m st r b n pol)) = Some child"
      "lab_take_stdin P child" "lab_write P child [m, st] deadline = Some (Inr ())" "lab_take_stdout P child"
      "length out = unat (state_bytes pol)"
      "lab_completion P child [m, st] (unat (state_bytes pol) + 1) deadline = Some (Inr (out, Exited 0))"
    for P :: "'h lab_process_api" and exe child out
    using that by (simp add: lab_execute_process_def execute_process_inner_def)
  ultimately show ?thesis using child by blast
qed

text \<open>The self test on a metered engine: what it reports follows from what the engine charges for the two
  calls and the fuel of its policy.\<close>

lemma validate_runner_metered:
  assumes "granting_kernel K" and "kernel_contract K" and "p_rlimits p RLIMIT_NOFILE = None"
    and "metered_fixtures W dec view cost"
    and "dec m1 = Some Sequential_probe" and "dec m2 = Some Stream_capitalize"
    and "m1 \<noteq> []" "length m1 \<le> 1024 * 1024" "m2 \<noteq> []" "length m2 \<le> 1024 * 1024"
  shows "validate_runner (process_of W K p) (Some m1) (Some m2) t1 t2 =
    (if 1000000 < cost Sequential_probe [1, 0, 100, 64] (replicate 64 0 @ replicate 8454080 0)
     then Inl ''sandboxed runner did not return state''
     else if 1000000 < cost Stream_capitalize [0, 11, 1048576] (as_bytes ''lorem ipsum'' @ replicate 1048565 0)
     then Inl ''sandboxed stream runner did not return state''
     else Inr ''validated fresh-process sequential and stream runners'')"
proof -
  let ?P = "process_of W K p" and ?st = "replicate 64 (0 :: u8)" and ?text = "as_bytes ''lorem ipsum''"
  have 1: "execute_process_inner ?P m1 ?st Probe 0 100 validation_policy deadline =
      Inr (if cost Sequential_probe [1, 0, 100, 64] (?st @ replicate 8454080 0) \<le> 1000000
           then Success (map (\<lambda>x. x XOR 90) ?st) else Failed)" for deadline
    using turn_process_runs [OF assms(1-3,7,8), of ?st 100 W Probe 0 validation_policy]
      metered_fixtures.probe_turn [OF assms(4,5), of 129 ?st 1 0 100 1000000]
    by (simp add: validation_policy_def)
  have sample: "length ?text = 11" "?text \<noteq> []" by (simp_all add: as_bytes_def)
  have 2: "execute_stream_process_inner ?P m2 [] ?text validation_policy deadline =
      Inr (if cost Stream_capitalize [0, 11, 1048576] (?text @ replicate 1048565 0) \<le> 1000000
           then Success (map to_ascii_uppercase ?text) else Failed)" for deadline
    using stream_process_capitalizes [OF assms(1-4,6,9,10) sample(2), of "[]" validation_policy deadline] sample(1)
    by (simp add: validation_policy_def)
  have 3: "map to_ascii_uppercase ?text = as_bytes ''LOREM IPSUM''"
    by (simp add: as_bytes_def to_ascii_uppercase_def)
  have pol: "unat (state_bytes validation_policy) = 64" "probe_iterations validation_policy = 100"
    by (simp_all add: validation_policy_def)
  show ?thesis
    unfolding validate_runner_def Let_def pol by (simp add: 1 2 3 ensure_def)
qed

text \<open>C27: the self test of the lab passes. With the two compiled fixtures, each of at most one
  mebibyte, on a kernel that grants the sandbox and an engine that charges at most 260 units of fuel for an
  executed instruction, the fuel of the test's policy covers both calls, and the parent, the spawned processes,
  the host and the guests together return a state of the right size and the capitalised text.\<close>

theorem validate_runner_passes:
  assumes "granting_kernel K" and "kernel_contract K" and "p_rlimits p RLIMIT_NOFILE = None"
    and "metered_fixtures W dec view cost" and "charges_at_most 260 cost"
    and "dec m1 = Some Sequential_probe" and "dec m2 = Some Stream_capitalize"
    and "m1 \<noteq> []" "length m1 \<le> 1024 * 1024" "m2 \<noteq> []" "length m2 \<le> 1024 * 1024"
  shows "validate_runner (process_of W K p) (Some m1) (Some m2) t1 t2 =
           Inr ''validated fresh-process sequential and stream runners''"
proof -
  have "cost Sequential_probe [1, 0, 100, 64] mem \<le> 260 * run_instructions 100 64" for mem
    using assms(5) by (simp add: charges_at_most_def)
  then have "cost Sequential_probe [1, 0, 100, 64] mem \<le> 1000000" for mem
    by (rule order_trans) (simp add: run_instructions_eq)
  moreover have "cost Stream_capitalize [0, 11, 1048576] mem \<le> 1000000" for mem
    using charges_stream [OF assms(5), of "[]" "as_bytes ''lorem ipsum''" 1048576 mem] by (simp add: as_bytes_def)
  ultimately show ?thesis
    using validate_runner_metered [OF assms(1-4,6-11), of t1 t2] by (simp add: not_less)
qed

section \<open>Results have the announced size\<close>

lemma lab_execute_process_size:
  "lab_execute_process P m st r b n pol deadline = Success out \<Longrightarrow> length out = unat (state_bytes pol)"
  by (auto simp: lab_execute_process_def execute_process_inner_def result_simps
      split: sum.splits option.splits if_splits)

lemma execute_stream_process_size:
  "execute_stream_process P m pr ch pol deadline = Success out \<Longrightarrow>
   length out = length pr + length ch \<and> length out \<le> 16 * 65536"
  by (auto simp: execute_stream_process_def execute_stream_process_inner_def result_simps
      STREAM_STATE_BYTES_def split: sum.splits option.splits if_splits)

section \<open>Witnesses\<close>

lemmas sample_kernel =
  reference_kernel_granting reference_kernel_contract

lemma spawned_unlimited: "p_rlimits spawned_proc RLIMIT_NOFILE = None"
  by (simp add: spawned_proc_def)

lemma sample_fds: "\<forall>fd \<in> set (p_fds spawned_proc). fd < 2 ^ 32"
  by (simp add: spawned_proc_def)

theorem lab_runners_confine_witness:
  "\<exists>p' c. lab_runner_prepare reference_kernel
       (''/lab'' # turn_arguments [1] [17, 17] Probe 0 100 validation_policy) (Inr ([1] @ [17, 17])) spawned_proc
         = Inr (p', c) \<and> p_env p' = [] \<and> set (p_fds p') \<subseteq> {0, 1, 2}"
proof -
  from lab_confine_granted [OF sample_kernel spawned_unlimited] obtain p' where
    "lab_confine reference_kernel \<lparr>lab_address_space_bytes = lab_address_space validation_policy,
       lab_cpu_seconds = lab_cpu validation_policy\<rparr> spawned_proc = Inr p'" by blast
  from lab_runner_receives [OF this, of "[1]" "[17, 17]" 100]
  obtain c where "lab_runner_prepare reference_kernel
       (''/lab'' # turn_arguments [1] [17, 17] Probe 0 100 validation_policy) (Inr ([1] @ [17, 17])) spawned_proc
         = Inr (p', c)" by simp
  with lab_runners_confine [OF sample_kernel(2) sample_fds] show ?thesis by blast
qed

theorem turn_process_round_trip_witness:
  "lab_execute_process (process_of (fixture_api sample_decoder) reference_kernel spawned_proc)
     [1] (replicate 64 0) Probe 0 100 validation_policy 5 = Success (replicate 64 90)"
  using turn_process_round_trip [OF sample_kernel spawned_unlimited,
      of "[1]" "replicate 64 0" 100 "fixture_api sample_decoder" Probe 0 validation_policy 5]
    reference_engine.probe_turn [of sample_decoder "[1]" 129 "replicate 64 0" 1 0 100 1000000]
  by (simp add: sample_decoder_def validation_policy_def fixture_cost_def run_instructions_eq)

theorem large_iterations_always_fail_witness:
  "turn_arguments [1] (replicate 64 0) Probe 0 2147483648 validation_policy ! 9 = word_to_string (2147483648 :: u32) \<and>
   lab_execute_process (process_of (fixture_api sample_decoder) reference_kernel spawned_proc)
     [1] (replicate 64 0) Probe 0 2147483648 validation_policy 5 = Failed"
  using large_iterations_always_fail [of 2147483648 "[1]" "replicate 64 0" Probe 0 validation_policy 5
      "fixture_api sample_decoder" reference_kernel spawned_proc]
  by (elim conjE meta_impE) simp_all

theorem validate_runner_passes_witness:
  "validate_runner (process_of (fixture_api sample_decoder) reference_kernel spawned_proc)
     (Some [1]) (Some [2]) 0 7 = Inr ''validated fresh-process sequential and stream runners''"
  by (rule validate_runner_passes [OF sample_kernel spawned_unlimited reference_engine fixture_cost_rate])
    (simp_all add: sample_decoder_def)

end
