(* ===== verification/Lab_Server.thy ===== *)
theory Lab_Server
  imports Scheduler Lab_Process
begin

text \<open>
  The service of the lab, \<open>crates/sequential-lab/src/main.rs\<close>: configuration, authorisation, the
  handlers for turns, stream chunks, resets and reports, and the tasks behind one global execution
  lane. As for the scheduler, a step is a stretch of code between two suspension points. A handler
  that indexes a vector out of range panics, which aborts the process: the step is then not defined.
  \<open>P i\<close> is the process interface that the \<open>i\<close>-th task meets and \<open>sha\<close> the hash function.
\<close>

section \<open>Requests and responses\<close>

record turn_request =
  tr_session_slot :: u16
  tr_trial_id :: u64
  tr_role :: role
  tr_bit :: u8

record stream_chunk_request =
  cr_session_slot :: u16
  cr_sequence :: u64
  cr_chunk :: bytes

record stream_reset_request =
  session_count :: usize

record stream_chunk_response =
  outcome :: string
  resp_session_slot :: u16
  resp_sequence :: u64
  accumulated_chunks :: u64
  accumulated_bytes :: usize
  queue_wait_us :: u64
  execution_us :: u64

record stream_state_response =
  state_session_slot :: u16
  state_chunks :: u64
  state_len :: usize
  state_sha256 :: string

record lab_health_response =
  lh_status :: string
  lh_mode :: string
  lh_wasm_sha256 :: string
  lh_state_bytes :: usize
  lh_session_slots :: usize
  lh_sender_hot_iterations :: u32
  lh_sender_cold_iterations :: u32
  lh_sender_control_iterations :: u32
  lh_probe_iterations :: u32
  lh_execution_cutoff_us :: u64
  lh_release_slot_us :: u64
  lh_stream_wasm_sha256 :: string
  lh_stream_state_bytes :: usize
  lh_max_chunk_bytes :: usize
  lh_max_pending :: usize
  lh_successful_turns :: u64
  lh_timed_out_turns :: u64
  lh_failed_turns :: u64
  lh_throttled_turns :: u64

record lab_error =
  le_status :: nat
  le_message :: string

definition bad_request :: lab_error where
  "bad_request = \<lparr>le_status = 400, le_message = ''bad request''\<rparr>"
definition unauthorized :: lab_error where
  "unauthorized = \<lparr>le_status = 401, le_message = ''unauthorized''\<rparr>"
definition too_many :: lab_error where
  "too_many = \<lparr>le_status = 429, le_message = ''queue full''\<rparr>"
definition conflict :: lab_error where
  "conflict = \<lparr>le_status = 409, le_message = ''stream sequence conflict''\<rparr>"
definition state_full :: lab_error where
  "state_full = \<lparr>le_status = 413, le_message = ''stream state full''\<rparr>"
definition internal :: lab_error where
  "internal = \<lparr>le_status = 500, le_message = ''internal error''\<rparr>"

datatype lab_body =
    Normalized response
  | Chunk_reply stream_chunk_response
  | State_reply stream_state_response
  | Lab_health_reply lab_health_response

type_synonym lab_reply = "lab_error + lab_body"

section \<open>State\<close>

record stream_session =
  accumulated :: bytes
  next_sequence :: u64
  chunks :: u64

record lab_app =
  lab_module :: bytes
  lab_module_sha256 :: string
  stream_module :: bytes
  stream_module_sha256 :: string
  states :: "bytes list"
  stream_sessions :: "stream_session list"
  lane :: nat
  lab_pending :: usize
  successful_turns :: u64
  timed_out_turns :: u64
  failed_turns :: u64
  throttled_turns :: u64
  token_hash :: bytes
  lab_policy_of :: lab_policy

datatype job = Turn_job turn_request | Chunk_job stream_chunk_request instant

text \<open>A spawned task: waiting for the lane; running since the given time with the previous state that
  it read; done with the process and sleeping until the release deadline, if any; past the drop of
  the permit; past the drop of the guard.\<close>

datatype lab_phase =
    Lane_wait
  | Running instant bytes
  | Padding "instant option" lab_reply
  | Leaving lab_reply
  | Ended lab_reply

record lab_task =
  job :: job
  lab_phase :: lab_phase
  lab_caller :: caller
  lab_acquired :: "instant option"
  lab_released :: "instant option"
  task_result :: "process_result option"

record lab_server =
  lab :: lab_app
  lab_now :: instant
  tasks :: "lab_task list"
  lab_answers :: "(instant \<times> nat option \<times> lab_reply) list"

section \<open>Configuration\<close>

record serve_args =
  sa_bind :: string
  sa_token :: string
  sa_session_slots :: usize
  sa_state_bytes :: usize
  sa_sender_hot_iterations :: u32
  sa_sender_cold_iterations :: u32
  sa_sender_control_iterations :: u32
  sa_probe_iterations :: u32
  sa_execution_cutoff_us :: u64
  sa_release_slot_us :: u64

definition from_micros :: "u64 \<Rightarrow> duration" where
  "from_micros us = unat us * nanos_per_micro"

definition as_micros :: "duration \<Rightarrow> u64" where
  "as_micros d = of_nat (d div nanos_per_micro)"

definition parse_release_slot :: "u64 \<Rightarrow> u64 \<Rightarrow> error + duration option" where
  "parse_release_slot release_slot_us execution_cutoff_us =
     (if release_slot_us = 0 then Inr None
      else if release_slot_us > execution_cutoff_us + 1000 then Inr (Some (from_micros release_slot_us))
      else Inl ''release slot must reserve at least 1ms after the execution cutoff'')"

definition serve_policy :: "serve_args \<Rightarrow> duration \<Rightarrow> duration option \<Rightarrow> lab_policy" where
  "serve_policy args cutoff release =
     \<lparr>state_bytes = sa_state_bytes args, session_slots = sa_session_slots args,
      sender_hot_iterations = sa_sender_hot_iterations args,
      sender_cold_iterations = sa_sender_cold_iterations args,
      sender_control_iterations = sa_sender_control_iterations args,
      probe_iterations = sa_probe_iterations args,
      execution_cutoff = cutoff, release_slot = release,
      lab_fuel = 100000000, lab_memory_pages = 129,
      lab_address_space = 256 * 1024 * 1024, lab_cpu = 2\<rparr>"

definition empty_session :: stream_session where
  "empty_session = \<lparr>accumulated = [], next_sequence = 0, chunks = 0\<rparr>"

text \<open>\<open>hex\<close> and \<open>sha\<close> are the encoders of the crates, \<open>probe\<close> and \<open>capitalize\<close> the compiled fixtures,
  \<open>listen\<close> whether the listener could be bound.\<close>

definition serve ::
    "(bytes \<Rightarrow> string) \<Rightarrow> (bytes \<Rightarrow> bytes) \<Rightarrow> bytes option \<Rightarrow> bytes option \<Rightarrow> (string \<Rightarrow> bool) \<Rightarrow> serve_args
     \<Rightarrow> error + lab_server" where
  "serve hex sha probe capitalize listen args =
     try_bind (ensure (\<not> length (sa_token args) < 16)
                 ''LAB_ADMIN_TOKEN must contain at least 16 bytes'') (\<lambda>_.
     try_bind (ensure (\<not> (sa_session_slots args < 2 \<or> sa_state_bytes args = 0
                          \<or> sa_state_bytes args > 65536))
                 ''at least two session slots and 1..=65536 state bytes are required'') (\<lambda>_.
     let cutoff = from_micros (sa_execution_cutoff_us args) in
     try_bind (ensure (cutoff \<noteq> 0) ''execution cutoff must be nonzero'') (\<lambda>_.
     try_bind (parse_release_slot (sa_release_slot_us args) (sa_execution_cutoff_us args)) (\<lambda>release.
     try_bind (ok_or probe ''compile sequential probe fixture'') (\<lambda>module_bytes.
     try_bind (ok_or capitalize ''compile stream capitalization fixture'') (\<lambda>stream_bytes.
     try_bind (ensure (listen (sa_bind args)) (''bind '' @ sa_bind args)) (\<lambda>_.
     Inr \<lparr>lab = \<lparr>lab_module = module_bytes, lab_module_sha256 = hex (sha module_bytes),
                  stream_module = stream_bytes, stream_module_sha256 = hex (sha stream_bytes),
                  states = replicate (unat (sa_session_slots args))
                             (replicate (unat (sa_state_bytes args)) 0),
                  stream_sessions = replicate (unat (sa_session_slots args)) empty_session,
                  lane = 1, lab_pending = 0, successful_turns = 0, timed_out_turns = 0,
                  failed_turns = 0, throttled_turns = 0,
                  token_hash = sha (as_bytes (sa_token args)),
                  lab_policy_of = serve_policy args cutoff release\<rparr>,
          lab_now = 0, tasks = [], lab_answers = []\<rparr>)))))))"

section \<open>Handlers\<close>

text \<open>\<open>token\<close> is the header \<open>x-sequential-lab-token\<close> when it is present and readable as text.\<close>

definition authorize :: "(bytes \<Rightarrow> bytes) \<Rightarrow> string option \<Rightarrow> bytes \<Rightarrow> lab_error + unit" where
  "authorize sha token expected =
     (let supplied = (case token of Some value \<Rightarrow> sha (as_bytes value) | None \<Rightarrow> sha [])
      in if supplied = expected then Inr () else Inl unauthorized)"

definition health_report :: "lab_app \<Rightarrow> lab_health_response" where
  "health_report a =
     (let pol = lab_policy_of a in
      \<lparr>lh_status = ''ok'', lh_mode = ''fresh_process_per_chunk_global_serialization'',
       lh_wasm_sha256 = lab_module_sha256 a, lh_state_bytes = state_bytes pol,
       lh_session_slots = session_slots pol,
       lh_sender_hot_iterations = sender_hot_iterations pol,
       lh_sender_cold_iterations = sender_cold_iterations pol,
       lh_sender_control_iterations = sender_control_iterations pol,
       lh_probe_iterations = probe_iterations pol,
       lh_execution_cutoff_us = as_micros (execution_cutoff pol),
       lh_release_slot_us = (case release_slot pol of None \<Rightarrow> 0 | Some d \<Rightarrow> as_micros d),
       lh_stream_wasm_sha256 = stream_module_sha256 a,
       lh_stream_state_bytes = STREAM_STATE_BYTES, lh_max_chunk_bytes = MAX_CHUNK_BYTES,
       lh_max_pending = MAX_PENDING,
       lh_successful_turns = successful_turns a, lh_timed_out_turns = timed_out_turns a,
       lh_failed_turns = failed_turns a, lh_throttled_turns = throttled_turns a\<rparr>)"

definition lab_answer :: "nat option \<Rightarrow> lab_reply \<Rightarrow> lab_server \<Rightarrow> lab_server" where
  "lab_answer who rep s = s\<lparr>lab_answers := lab_answers s @ [(lab_now s, who, rep)]\<rparr>"

text \<open>The admission that both posting handlers share: refuse and count, or spawn the task.\<close>

definition admit_task :: "job \<Rightarrow> lab_server \<Rightarrow> lab_server" where
  "admit_task j s =
     (case admit_pending MAX_PENDING (lab_pending (lab s)) of
        (Inl _, n) \<Rightarrow> lab_answer None (Inl too_many)
           (s\<lparr>lab := (lab s)\<lparr>lab_pending := n, throttled_turns := throttled_turns (lab s) + 1\<rparr>\<rparr>)
      | (Inr _, n) \<Rightarrow>
           s\<lparr>lab := (lab s)\<lparr>lab_pending := n\<rparr>,
             tasks := tasks s @ [\<lparr>job = j, lab_phase = Lane_wait, lab_caller = Connected,
                                 lab_acquired = None, lab_released = None, task_result = None\<rparr>]\<rparr>)"

text \<open>A handler that answers at once on an error of its checks.\<close>

definition after_checks :: "lab_error + unit \<Rightarrow> (lab_server \<Rightarrow> lab_server) \<Rightarrow> lab_server \<Rightarrow> lab_server" where
  "after_checks checks f s = (case checks of Inl e \<Rightarrow> lab_answer None (Inl e) s | Inr _ \<Rightarrow> f s)"

definition turn_checks :: "lab_policy \<Rightarrow> turn_request \<Rightarrow> lab_error + unit" where
  "turn_checks pol request =
     (if unat (tr_session_slot request) \<ge> unat (session_slots pol) \<or> tr_bit request > 1
         \<or> (tr_role request = Probe \<and> tr_bit request \<noteq> 0)
      then Inl bad_request else Inr ())"

definition turn :: "(bytes \<Rightarrow> bytes) \<Rightarrow> string option \<Rightarrow> turn_request \<Rightarrow> lab_server \<Rightarrow> lab_server" where
  "turn sha token request s =
     after_checks
       (case authorize sha token (token_hash (lab s)) of
          Inl e \<Rightarrow> Inl e | Inr _ \<Rightarrow> turn_checks (lab_policy_of (lab s)) request)
       (admit_task (Turn_job request)) s"

definition chunk_checks :: "lab_policy \<Rightarrow> stream_chunk_request \<Rightarrow> lab_error + unit" where
  "chunk_checks pol request =
     (if unat (cr_session_slot request) \<ge> unat (session_slots pol) \<or> cr_chunk request = []
         \<or> length (cr_chunk request) > unat MAX_CHUNK_BYTES
         \<or> \<not> list_all (\<lambda>b. b < 128) (cr_chunk request)
      then Inl bad_request else Inr ())"

definition stream_chunk ::
    "(bytes \<Rightarrow> bytes) \<Rightarrow> string option \<Rightarrow> stream_chunk_request \<Rightarrow> lab_server \<Rightarrow> lab_server" where
  "stream_chunk sha token request s =
     after_checks
       (case authorize sha token (token_hash (lab s)) of
          Inl e \<Rightarrow> Inl e | Inr _ \<Rightarrow> chunk_checks (lab_policy_of (lab s)) request)
       (admit_task (Chunk_job request (lab_now s))) s"

definition reset_session :: "stream_session \<Rightarrow> stream_session" where
  "reset_session s = s\<lparr>accumulated := [], next_sequence := 0, chunks := 0\<rparr>"

text \<open>The reset, from the moment it has the lane to its answer; the permit is given back at its end.\<close>

definition reset_checks ::
    "(bytes \<Rightarrow> bytes) \<Rightarrow> string option \<Rightarrow> stream_reset_request \<Rightarrow> lab_app \<Rightarrow> lab_error + unit" where
  "reset_checks sha token request a =
     (case authorize sha token (token_hash a) of
        Inl e \<Rightarrow> Inl e
      | Inr _ \<Rightarrow> if session_count request = 0 \<or> session_count request > session_slots (lab_policy_of a)
                 then Inl bad_request else Inr ())"

definition stream_reset :: "stream_reset_request \<Rightarrow> lab_server \<Rightarrow> lab_server" where
  "stream_reset request s =
     (let n = unat (session_count request); ss = stream_sessions (lab s)
      in lab_answer None (Inr (Normalized normalized_response))
           (s\<lparr>lab := (lab s)\<lparr>stream_sessions := map reset_session (take n ss) @ drop n ss\<rparr>\<rparr>))"

definition stream_state ::
    "(bytes \<Rightarrow> string) \<Rightarrow> (bytes \<Rightarrow> bytes) \<Rightarrow> string option \<Rightarrow> u16 \<Rightarrow> lab_app \<Rightarrow> lab_reply option" where
  "stream_state hex sha token slot a =
     (case authorize sha token (token_hash a) of
        Inl e \<Rightarrow> Some (Inl e)
      | Inr _ \<Rightarrow>
        if unat slot \<ge> unat (session_slots (lab_policy_of a)) then Some (Inl bad_request)
        else if unat slot < length (stream_sessions a) then
          (let s = stream_sessions a ! unat slot in
           Some (Inr (State_reply \<lparr>state_session_slot = slot, state_chunks = chunks s,
             state_len = of_nat (length (accumulated s)), state_sha256 = hex (sha (accumulated s))\<rparr>)))
        else None)"

definition lab_health ::
    "(bytes \<Rightarrow> bytes) \<Rightarrow> string option \<Rightarrow> lab_app \<Rightarrow> lab_reply" where
  "lab_health sha token a =
     (case authorize sha token (token_hash a) of
        Inl e \<Rightarrow> Inl e | Inr _ \<Rightarrow> Inr (Lab_health_reply (health_report a)))"

section \<open>Tasks\<close>

definition update_task :: "nat \<Rightarrow> (lab_task \<Rightarrow> lab_task) \<Rightarrow> lab_server \<Rightarrow> lab_server" where
  "update_task i f s = s\<lparr>tasks := (tasks s)[i := f (tasks s ! i)]\<rparr>"

definition release_deadline :: "lab_policy \<Rightarrow> instant \<Rightarrow> instant option" where
  "release_deadline pol admitted_at = map_option (\<lambda>slot. admitted_at + slot) (release_slot pol)"

text \<open>What a task does when it has the lane, up to the spawn of its process: the state it read, or
  the error it returns at once.\<close>

definition read_turn_state :: "lab_app \<Rightarrow> turn_request \<Rightarrow> bytes option" where
  "read_turn_state a request =
     (let k = unat (tr_session_slot request) in if k < length (states a) then Some (states a ! k) else None)"

definition read_stream_state :: "lab_app \<Rightarrow> stream_chunk_request \<Rightarrow> (lab_error + bytes) option" where
  "read_stream_state a request =
     (let k = unat (cr_session_slot request) in
      if k < length (stream_sessions a) then
        (let session = stream_sessions a ! k in
         Some (if cr_sequence request \<noteq> next_sequence session then Inl conflict
               else if saturating_add (of_nat (length (accumulated session)))
                         (of_nat (length (cr_chunk request))) > STREAM_STATE_BYTES then Inl state_full
               else Inr (accumulated session)))
      else None)"

definition begin_phase :: "lab_app \<Rightarrow> instant \<Rightarrow> job \<Rightarrow> lab_phase option" where
  "begin_phase a t j =
     (case j of
        Turn_job request \<Rightarrow> map_option (Running t) (read_turn_state a request)
      | Chunk_job request _ \<Rightarrow>
          map_option (\<lambda>r. case r of Inl e \<Rightarrow> Padding None (Inl e) | Inr previous \<Rightarrow> Running t previous)
            (read_stream_state a request))"

definition begin_task :: "nat \<Rightarrow> lab_phase \<Rightarrow> nat \<Rightarrow> lab_server \<Rightarrow> lab_server" where
  "begin_task i ph permits s =
     update_task i (\<lambda>t. t\<lparr>lab_phase := ph, lab_acquired := Some (lab_now s)\<rparr>)
       (s\<lparr>lab := (lab s)\<lparr>lane := permits\<rparr>\<rparr>)"

definition run_process ::
    "'h lab_process_api \<Rightarrow> lab_app \<Rightarrow> instant \<Rightarrow> bytes \<Rightarrow> job \<Rightarrow> process_result" where
  "run_process P a admitted_at previous j =
     (let pol = lab_policy_of a; deadline = admitted_at + execution_cutoff pol in
      case j of
        Turn_job request \<Rightarrow>
          lab_execute_process P (lab_module a) previous (tr_role request) (tr_bit request)
            (iterations_for (tr_role request) (tr_bit request) pol) pol deadline
      | Chunk_job request _ \<Rightarrow>
          execute_stream_process P (stream_module a) previous (cr_chunk request) pol deadline)"

definition count_result :: "process_result \<Rightarrow> lab_app \<Rightarrow> lab_app" where
  "count_result r a =
     (case r of
        Success _ \<Rightarrow> a\<lparr>successful_turns := successful_turns a + 1\<rparr>
      | TimedOut \<Rightarrow> a\<lparr>timed_out_turns := timed_out_turns a + 1\<rparr>
      | Failed \<Rightarrow> a\<lparr>failed_turns := failed_turns a + 1\<rparr>)"

definition commit_result :: "job \<Rightarrow> process_result \<Rightarrow> lab_app \<Rightarrow> lab_app" where
  "commit_result j r a =
     (case r of
        Success next \<Rightarrow>
          (case j of
             Turn_job request \<Rightarrow> a\<lparr>states := (states a)[unat (tr_session_slot request) := next]\<rparr>
           | Chunk_job request _ \<Rightarrow>
               (let k = unat (cr_session_slot request); session = stream_sessions a ! k in
                a\<lparr>stream_sessions := (stream_sessions a)[k :=
                    \<lparr>accumulated = next, next_sequence = next_sequence session + 1,
                     chunks = chunks session + 1\<rparr>]\<rparr>))
      | _ \<Rightarrow> a)"

definition result_name :: "process_result \<Rightarrow> string" where
  "result_name r = (case r of Success _ \<Rightarrow> ''complete'' | TimedOut \<Rightarrow> ''timed_out'' | Failed \<Rightarrow> ''failed'')"

text \<open>The answer of a task; \<open>a\<close> is the state after the result was stored and \<open>t\<close> the time.\<close>

definition task_reply :: "lab_app \<Rightarrow> instant \<Rightarrow> instant \<Rightarrow> job \<Rightarrow> process_result \<Rightarrow> lab_reply" where
  "task_reply a admitted_at t j r =
     (case j of
        Turn_job _ \<Rightarrow> Inr (Normalized normalized_response)
      | Chunk_job request received_at \<Rightarrow>
          (let session = stream_sessions a ! unat (cr_session_slot request) in
           Inr (Chunk_reply \<lparr>outcome = result_name r, resp_session_slot = cr_session_slot request,
             resp_sequence = cr_sequence request, accumulated_chunks = chunks session,
             accumulated_bytes = of_nat (length (accumulated session)),
             queue_wait_us = as_micros (admitted_at - received_at),
             execution_us = as_micros (t - admitted_at)\<rparr>)))"

definition finish_process :: "nat \<Rightarrow> process_result \<Rightarrow> instant \<Rightarrow> lab_server \<Rightarrow> lab_server" where
  "finish_process i r admitted_at s =
     (let j = job (tasks s ! i); a = count_result r (commit_result j r (lab s)) in
      update_task i
        (\<lambda>t. t\<lparr>lab_phase := Padding (release_deadline (lab_policy_of a) admitted_at)
                            (task_reply a admitted_at (lab_now s) j r),
              task_result := Some r\<rparr>)
        (s\<lparr>lab := a\<rparr>))"

definition leave_lane :: "nat \<Rightarrow> lab_reply \<Rightarrow> lab_server \<Rightarrow> lab_server" where
  "leave_lane i rep s =
     update_task i (\<lambda>t. t\<lparr>lab_phase := Leaving rep, lab_released := Some (lab_now s)\<rparr>)
       (s\<lparr>lab := (lab s)\<lparr>lane := drop_permit (lane (lab s))\<rparr>\<rparr>)"

definition end_task :: "nat \<Rightarrow> lab_reply \<Rightarrow> lab_server \<Rightarrow> lab_server" where
  "end_task i rep s =
     update_task i (\<lambda>t. t\<lparr>lab_phase := Ended rep\<rparr>)
       (s\<lparr>lab := (lab s)\<lparr>lab_pending := pending_guard_drop (lab_pending (lab s))\<rparr>\<rparr>)"

definition lab_respond :: "nat \<Rightarrow> lab_reply \<Rightarrow> lab_server \<Rightarrow> lab_server" where
  "lab_respond i rep s = lab_answer (Some i) rep (update_task i (\<lambda>t. t\<lparr>lab_caller := Answered\<rparr>) s)"

section \<open>The transition system\<close>

text \<open>The label of a finished process says what it stored in the streams: slot and chunk.\<close>

datatype lab_event =
    Post_turn "string option" turn_request
  | Post_chunk "string option" stream_chunk_request
  | Refuse_reset "string option" stream_reset_request
  | Reset "string option" stream_reset_request
  | Get_state "string option" u16
  | Get_lab_health "string option"
  | Begin nat
  | Finish nat "(nat \<times> bytes) option"
  | Leave nat
  | End_task nat
  | Lab_respond nat
  | Lab_disconnect nat
  | Lab_tick duration

definition stored_chunk :: "job \<Rightarrow> process_result \<Rightarrow> (nat \<times> bytes) option" where
  "stored_chunk j r =
     (case (j, r) of
        (Chunk_job request _, Success _) \<Rightarrow> Some (unat (cr_session_slot request), cr_chunk request)
      | _ \<Rightarrow> None)"

text \<open>The crates as parameters of the service.\<close>

record 'h lab_env =
  env_hex :: "bytes \<Rightarrow> string"
  env_sha :: "bytes \<Rightarrow> bytes"
  env_process :: "nat \<Rightarrow> 'h lab_process_api"

inductive lab_step :: "'h lab_env \<Rightarrow> lab_server \<Rightarrow> lab_event \<Rightarrow> lab_server \<Rightarrow> bool" for E where
  post_turn: "lab_step E s (Post_turn token request) (turn (env_sha E) token request s)"
| post_chunk: "lab_step E s (Post_chunk token request) (stream_chunk (env_sha E) token request s)"
| refuse_reset: "reset_checks (env_sha E) token request (lab s) = Inl e \<Longrightarrow>
    lab_step E s (Refuse_reset token request) (lab_answer None (Inl e) s)"
| reset: "reset_checks (env_sha E) token request (lab s) = Inr () \<Longrightarrow>
    try_acquire (lane (lab s)) = Some permits \<Longrightarrow>
    lab_step E s (Reset token request) (stream_reset request s)"
| get_state: "stream_state (env_hex E) (env_sha E) token slot (lab s) = Some rep \<Longrightarrow>
    lab_step E s (Get_state token slot) (lab_answer None rep s)"
| get_lab_health:
    "lab_step E s (Get_lab_health token) (lab_answer None (lab_health (env_sha E) token (lab s)) s)"
| begin_lane: "i < length (tasks s) \<Longrightarrow> lab_phase (tasks s ! i) = Lane_wait \<Longrightarrow>
    try_acquire (lane (lab s)) = Some permits \<Longrightarrow>
    begin_phase (lab s) (lab_now s) (job (tasks s ! i)) = Some ph \<Longrightarrow>
    lab_step E s (Begin i) (begin_task i ph permits s)"
| finish: "i < length (tasks s) \<Longrightarrow> lab_phase (tasks s ! i) = Running a previous \<Longrightarrow>
    r = run_process (env_process E i) (lab s) a previous (job (tasks s ! i)) \<Longrightarrow>
    (r \<noteq> TimedOut \<or> a + execution_cutoff (lab_policy_of (lab s)) \<le> lab_now s) \<Longrightarrow>
    c = stored_chunk (job (tasks s ! i)) r \<Longrightarrow>
    lab_step E s (Finish i c) (finish_process i r a s)"
| leave: "i < length (tasks s) \<Longrightarrow> lab_phase (tasks s ! i) = Padding deadline rep \<Longrightarrow>
    (case deadline of None \<Rightarrow> True | Some d \<Rightarrow> d \<le> lab_now s) \<Longrightarrow>
    lab_step E s (Leave i) (leave_lane i rep s)"
| end_of_task: "i < length (tasks s) \<Longrightarrow> lab_phase (tasks s ! i) = Leaving rep \<Longrightarrow>
    lab_step E s (End_task i) (end_task i rep s)"
| respond_task: "i < length (tasks s) \<Longrightarrow> lab_phase (tasks s ! i) = Ended rep \<Longrightarrow>
    lab_caller (tasks s ! i) = Connected \<Longrightarrow>
    lab_step E s (Lab_respond i) (lab_respond i rep s)"
| disconnect_task: "i < length (tasks s) \<Longrightarrow> lab_caller (tasks s ! i) = Connected \<Longrightarrow>
    lab_step E s (Lab_disconnect i) (update_task i (\<lambda>t. t\<lparr>lab_caller := Disconnected\<rparr>) s)"
| lab_tick: "lab_step E s (Lab_tick dt) (s\<lparr>lab_now := lab_now s + dt\<rparr>)"

inductive_cases lab_stepE: "lab_step E s e t"

lemmas task_defs =
  update_task_def begin_task_def finish_process_def leave_lane_def end_task_def lab_respond_def
  lab_answer_def

end
