(* ===== verification/Lab_Invariant.thy ===== *)
theory Lab_Invariant
  imports Lab_Server
begin

text \<open>
  The invariant of the lab's service: the sizes of the stored states and streams, the counter of
  admitted tasks, the single execution lane, the times of each task, and that a running task holds
  the current content of its slot, so that what it stores replaces exactly what it read.
\<close>

section \<open>Definition\<close>

fun job_ok :: "lab_policy \<Rightarrow> job \<Rightarrow> bool" where
  "job_ok pol (Turn_job q) = (turn_checks pol q = Inr ())"
| "job_ok pol (Chunk_job q _) = (chunk_checks pol q = Inr ())"

fun holds_lane :: "lab_phase \<Rightarrow> bool" where
  "holds_lane (Running _ _) = True"
| "holds_lane (Padding _ _) = True"
| "holds_lane _ = False"

fun ended :: "lab_phase \<Rightarrow> bool" where
  "ended (Ended _) = True"
| "ended _ = False"

definition session_ok :: "stream_session \<Rightarrow> bool" where
  "session_ok s =
     (next_sequence s = chunks s \<and> unat (chunks s) \<le> length (accumulated s) \<and>
      length (accumulated s) \<le> 16 * 65536)"

definition app_ok :: "lab_app \<Rightarrow> bool" where
  "app_ok a =
     (length (states a) = unat (session_slots (lab_policy_of a)) \<and>
      list_all (\<lambda>st. length st = unat (state_bytes (lab_policy_of a))) (states a) \<and>
      length (stream_sessions a) = unat (session_slots (lab_policy_of a)) \<and>
      list_all session_ok (stream_sessions a))"

text \<open>The content that a running task has read is the current one.\<close>

fun holds_state :: "lab_app \<Rightarrow> job \<Rightarrow> bytes \<Rightarrow> bool" where
  "holds_state a (Turn_job q) previous = (previous = states a ! unat (tr_session_slot q))"
| "holds_state a (Chunk_job q _) previous =
     (let session = stream_sessions a ! unat (cr_session_slot q) in
      previous = accumulated session \<and> cr_sequence q = next_sequence session \<and>
      length previous + length (cr_chunk q) \<le> 16 * 65536)"

text \<open>A task without a result returned a conflict or a full stream.\<close>

definition early :: "job \<Rightarrow> lab_reply \<Rightarrow> bool" where
  "early j rep = ((\<exists>q t. j = Chunk_job q t) \<and> (rep = Inl conflict \<or> rep = Inl state_full))"

definition phase_ok :: "lab_policy \<Rightarrow> instant \<Rightarrow> lab_task \<Rightarrow> bool" where
  "phase_ok pol t k =
     (case lab_phase k of
        Lane_wait \<Rightarrow> lab_acquired k = None \<and> lab_released k = None \<and> task_result k = None
      | Running a _ \<Rightarrow> lab_acquired k = Some a \<and> a \<le> t \<and> lab_released k = None \<and> task_result k = None
      | Padding d rep \<Rightarrow> lab_released k = None \<and> (\<exists>a. lab_acquired k = Some a \<and> a \<le> t \<and>
          (if task_result k = None then d = None \<and> early (job k) rep else d = release_deadline pol a))
      | Leaving rep \<Rightarrow> (\<exists>a b. lab_acquired k = Some a \<and> lab_released k = Some b \<and> a \<le> b \<and> b \<le> t \<and>
          (if task_result k = None then early (job k) rep
           else \<forall>d. release_slot pol = Some d \<longrightarrow> a + d \<le> b))
      | Ended rep \<Rightarrow> (\<exists>a b. lab_acquired k = Some a \<and> lab_released k = Some b \<and> a \<le> b \<and> b \<le> t \<and>
          (if task_result k = None then early (job k) rep
           else \<forall>d. release_slot pol = Some d \<longrightarrow> a + d \<le> b)))"

definition task_ok :: "lab_policy \<Rightarrow> instant \<Rightarrow> lab_task \<Rightarrow> bool" where
  "task_ok pol t k = (job_ok pol (job k) \<and> phase_ok pol t k)"

interpretation lab_gate:
  bounded_admission MAX_PENDING "admit_pending MAX_PENDING" pending_guard_drop
    "\<lambda>k. \<not> ended (lab_phase k)"
  by unfold_locales (use admit_pending_laws pending_guard_drop_law in auto)

text \<open>One lane.\<close>

definition LANES :: nat where "LANES = 1"

interpretation lane_pool: permit_pool LANES try_acquire drop_permit "\<lambda>k. holds_lane (lab_phase k)"
  by unfold_locales (auto simp: drop_permit_def dest: try_acquire_law)

definition lab_inv :: "lab_server \<Rightarrow> bool" where
  "lab_inv s =
     (app_ok (lab s) \<and>
      unat (lab_pending (lab s)) = length (filter (\<lambda>k. \<not> ended (lab_phase k)) (tasks s)) \<and>
      lab_pending (lab s) \<le> MAX_PENDING \<and>
      lane (lab s) + length (filter (\<lambda>k. holds_lane (lab_phase k)) (tasks s)) = LANES \<and>
      list_all (task_ok (lab_policy_of (lab s)) (lab_now s)) (tasks s) \<and>
      list_all (\<lambda>k. case lab_phase k of Running _ previous \<Rightarrow> holds_state (lab s) (job k) previous | _ \<Rightarrow> True)
        (tasks s))"

section \<open>Introduction and elimination\<close>

definition current :: "lab_app \<Rightarrow> lab_task \<Rightarrow> bool" where
  "current a k = (case lab_phase k of Running _ previous \<Rightarrow> holds_state a (job k) previous | _ \<Rightarrow> True)"

lemma lab_inv_iff:
  "lab_inv s \<longleftrightarrow> app_ok (lab s) \<and> lab_gate.counts (lab_pending (lab s)) (tasks s) \<and>
     lane_pool.balanced (lane (lab s)) (tasks s) \<and>
     (\<forall>k \<in> set (tasks s). task_ok (lab_policy_of (lab s)) (lab_now s) k \<and> current (lab s) k)"
  by (auto simp: lab_inv_def lab_gate.counts_def lane_pool.balanced_def list_all_iff current_def)

lemma lab_invD:
  assumes "lab_inv s"
  shows "app_ok (lab s)" "lab_gate.counts (lab_pending (lab s)) (tasks s)"
    "lane_pool.balanced (lane (lab s)) (tasks s)"
    "i < length (tasks s) \<Longrightarrow> task_ok (lab_policy_of (lab s)) (lab_now s) (tasks s ! i)"
    "i < length (tasks s) \<Longrightarrow> current (lab s) (tasks s ! i)"
  using assms by (auto simp: lab_inv_iff)

lemma task_ok_later: "task_ok pol t k \<Longrightarrow> t \<le> t' \<Longrightarrow> task_ok pol t' k"
  by (force simp: task_ok_def phase_ok_def split: lab_phase.splits)

text \<open>The state in which serving begins satisfies it.\<close>

lemma serve_inv:
  assumes "serve hex sha probe capitalize listen args = Inr s"
  shows "lab_inv s"
proof -
  have "app_ok (lab s)" "lab_pending (lab s) = 0" "lane (lab s) = LANES" "tasks s = []"
    using assms
    by (auto simp: serve_def Let_def result_simps app_ok_def serve_policy_def list_all_iff
        session_ok_def empty_session_def LANES_def)
  then show ?thesis by (simp add: lab_inv_iff lab_gate.counts_def lane_pool.balanced_def)
qed

section \<open>Updating one task\<close>

lemma lab_inv_update:
  assumes inv: "lab_inv s" and i: "i < length (tasks s)"
    and t: "lab_policy_of (lab t) = lab_policy_of (lab s)" "lab_now t = lab_now s"
      "tasks t = (tasks s)[i := k]"
    and app: "app_ok (lab t)"
    and cnt: "lab_gate.counts (lab_pending (lab t)) ((tasks s)[i := k])"
    and bal: "lane_pool.balanced (lane (lab t)) ((tasks s)[i := k])"
    and ok: "task_ok (lab_policy_of (lab s)) (lab_now s) k" "current (lab t) k"
    and others: "\<And>j. j < length (tasks s) \<Longrightarrow> j \<noteq> i \<Longrightarrow> current (lab t) (tasks s ! j)"
  shows "lab_inv t"
  unfolding lab_inv_iff
proof (intro conjI ballI)
  fix k' assume "k' \<in> set (tasks t)"
  then obtain j where j: "j < length (tasks s)" "k' = (if j = i then k else tasks s ! j)"
    using t(3) by (auto simp: in_set_conv_nth nth_list_update)
  then show "task_ok (lab_policy_of (lab t)) (lab_now t) k'"
    using ok(1) lab_invD(4) [OF inv j(1)] t by simp
  show "current (lab t) k'" using j others ok(2) by simp
qed (use assms in simp_all)

text \<open>Steps that leave the stored content alone.\<close>

lemma current_cong:
  "states a = states b \<Longrightarrow> stream_sessions a = stream_sessions b \<Longrightarrow> current a k = current b k"
  by (cases "job k") (simp_all add: current_def Let_def split: lab_phase.splits)

lemma app_ok_cong:
  "states a = states b \<Longrightarrow> stream_sessions a = stream_sessions b \<Longrightarrow> lab_policy_of a = lab_policy_of b
   \<Longrightarrow> app_ok a = app_ok b"
  by (simp add: app_ok_def)

lemma lab_inv_keep_content:
  assumes inv: "lab_inv s" and i: "i < length (tasks s)"
    and t: "lab_policy_of (lab t) = lab_policy_of (lab s)" "lab_now t = lab_now s"
      "tasks t = (tasks s)[i := k]" "states (lab t) = states (lab s)"
      "stream_sessions (lab t) = stream_sessions (lab s)"
    and cnt: "lab_gate.counts (lab_pending (lab t)) ((tasks s)[i := k])"
    and bal: "lane_pool.balanced (lane (lab t)) ((tasks s)[i := k])"
    and ok: "task_ok (lab_policy_of (lab s)) (lab_now s) k" "current (lab s) k"
  shows "lab_inv t"
proof (rule lab_inv_update [OF inv i t(1-3) _ cnt bal ok(1)])
  show "app_ok (lab t)" using lab_invD(1) [OF inv] app_ok_cong [OF t(4,5,1)] by simp
  show "current (lab t) k" using ok(2) current_cong [OF t(4,5)] by simp
  show "current (lab t) (tasks s ! j)" if "j < length (tasks s)" for j
    using lab_invD(5) [OF inv that] current_cong [OF t(4,5)] by simp
qed

lemma lab_inv_answer: "lab_inv s \<Longrightarrow> lab_inv (lab_answer who rep s)"
  by (simp add: lab_inv_iff lab_answer_def)

section \<open>Preservation by the handlers\<close>

lemma lab_inv_admit:
  assumes inv: "lab_inv s" and j: "job_ok (lab_policy_of (lab s)) j"
  shows "lab_inv (admit_task j s)"
proof -
  let ?k = "\<lparr>job = j, lab_phase = Lane_wait, lab_caller = Connected, lab_acquired = None,
    lab_released = None, task_result = None\<rparr>"
  obtain res n where a: "admit_pending MAX_PENDING (lab_pending (lab s)) = (res, n)" by fastforce
  show ?thesis
  proof (cases res)
    case (Inl m)
    then have "n = lab_pending (lab s)"
      using a by (auto simp: admit_pending_def fetch_update_def split: if_splits)
    moreover have "app_ok (lab s\<lparr>throttled_turns := x\<rparr>) = app_ok (lab s)"
        "current (lab s\<lparr>throttled_turns := x\<rparr>) k = current (lab s) k" for x k
      by (rule app_ok_cong; simp) (rule current_cong; simp)
    ultimately show ?thesis
      using inv by (simp add: admit_task_def a Inl lab_inv_iff lab_answer_def)
  next
    case (Inr m)
    have "lab_gate.counts n (tasks s @ [?k])"
      by (rule lab_gate.counts_admit [OF lab_invD(2) [OF inv] a [unfolded Inr]]) simp
    moreover have "lane_pool.balanced (lane (lab s)) (tasks s @ [?k])"
      by (rule lane_pool.balanced_append [OF lab_invD(3) [OF inv]]) simp
    moreover have "app_ok (lab s\<lparr>lab_pending := n\<rparr>) = app_ok (lab s)"
        "current (lab s\<lparr>lab_pending := n\<rparr>) k = current (lab s) k" for k
      by (rule app_ok_cong; simp) (rule current_cong; simp)
    moreover have "task_ok (lab_policy_of (lab s)) (lab_now s) ?k" "current (lab s) ?k"
      using j by (simp_all add: task_ok_def phase_ok_def current_def)
    ultimately show ?thesis
      using inv unfolding lab_inv_iff by (auto simp: admit_task_def a Inr)
  qed
qed

lemma lab_inv_turn: "lab_inv s \<Longrightarrow> lab_inv (turn sha token q s)"
  by (auto simp: turn_def after_checks_def authorize_def Let_def turn_checks_def
      intro!: lab_inv_answer lab_inv_admit split: sum.splits if_splits)

lemma lab_inv_stream_chunk: "lab_inv s \<Longrightarrow> lab_inv (stream_chunk sha token q s)"
  by (auto simp: stream_chunk_def after_checks_def authorize_def Let_def chunk_checks_def
      intro!: lab_inv_answer lab_inv_admit split: sum.splits if_splits)

text \<open>With a free lane nobody is running.\<close>

lemma free_lane_idle:
  assumes "lab_inv s" and "try_acquire (lane (lab s)) = Some n" and "i < length (tasks s)"
  shows "\<not> holds_lane (lab_phase (tasks s ! i))"
  using lane_pool.balanced_none_free [OF lab_invD(3) [OF assms(1)] assms(3)] try_acquire_law [OF assms(2)]
  by (auto simp: LANES_def)

lemma idle_current: "\<not> holds_lane (lab_phase k) \<Longrightarrow> current a k"
  by (cases "lab_phase k") (simp_all add: current_def)

lemma lab_inv_reset:
  assumes inv: "lab_inv s" and "try_acquire (lane (lab s)) = Some n"
  shows "lab_inv (stream_reset q s)"
proof -
  let ?k = "unat (session_count q)" and ?ss = "stream_sessions (lab s)"
  let ?a = "lab s\<lparr>stream_sessions := map reset_session (take ?k ?ss) @ drop ?k ?ss\<rparr>"
  have "app_ok ?a"
    using lab_invD(1) [OF inv]
    by (auto simp: app_ok_def list_all_iff session_ok_def reset_session_def
        dest: in_set_takeD in_set_dropD)
  moreover have "current ?a k" if "k \<in> set (tasks s)" for k
    using that free_lane_idle [OF assms] by (auto simp: in_set_conv_nth intro: idle_current)
  ultimately have "lab_inv (s\<lparr>lab := ?a\<rparr>)"
    using inv by (simp add: lab_inv_iff)
  then show ?thesis by (simp add: stream_reset_def Let_def lab_inv_answer)
qed

section \<open>Preservation by the tasks\<close>

lemma job_slot:
  "job_ok pol (Turn_job q) \<Longrightarrow> unat (tr_session_slot q) < unat (session_slots pol)"
  "job_ok pol (Chunk_job c r) \<Longrightarrow> unat (cr_session_slot c) < unat (session_slots pol) \<and>
     cr_chunk c \<noteq> [] \<and> length (cr_chunk c) \<le> 1024"
  by (auto simp: turn_checks_def chunk_checks_def MAX_CHUNK_BYTES_def split: if_splits)

lemma chunk_fits_iff:
  assumes "length xs \<le> 1048576" and "length ys \<le> 1024"
  shows "saturating_add (of_nat (length xs)) (of_nat (length ys)) > STREAM_STATE_BYTES \<longleftrightarrow>
    \<not> length xs + length ys \<le> 16 * 65536"
proof -
  have "unat (of_nat (length xs) :: usize) = length xs" "unat (of_nat (length ys) :: usize) = length ys"
    using assms by (simp_all add: unat_of_nat_less)
  then show ?thesis
    using assms by (auto simp: STREAM_STATE_BYTES_def word_less_nat_alt unat_saturating_add)
qed

lemma session_at:
  "app_ok a \<Longrightarrow> k < unat (session_slots (lab_policy_of a)) \<Longrightarrow>
   k < length (stream_sessions a) \<and> session_ok (stream_sessions a ! k)"
  by (simp add: app_ok_def list_all_length)

text \<open>Reading never fails, and what is read is the current content.\<close>

lemma begin_phase_cases:
  assumes "app_ok a" and "job_ok (lab_policy_of a) j"
  shows "(\<exists>previous. begin_phase a t j = Some (Running t previous) \<and> holds_state a j previous) \<or>
         (\<exists>rep. begin_phase a t j = Some (Padding None rep) \<and> early j rep)"
proof (cases j)
  case (Turn_job q)
  with assms job_slot(1) have "unat (tr_session_slot q) < length (states a)" by (simp add: app_ok_def)
  then show ?thesis by (simp add: Turn_job begin_phase_def read_turn_state_def)
next
  case (Chunk_job q r)
  note q = job_slot(2) [OF assms(2) [unfolded Chunk_job]]
  let ?s = "stream_sessions a ! unat (cr_session_slot q)"
  have s: "unat (cr_session_slot q) < length (stream_sessions a)" "session_ok ?s"
    using session_at [OF assms(1)] q by auto
  have "length (accumulated ?s) \<le> 1048576" using s(2) by (simp add: session_ok_def)
  with q s(1) show ?thesis
    by (auto simp: Chunk_job begin_phase_def read_stream_state_def Let_def early_def chunk_fits_iff)
qed

lemma lab_inv_begin:
  assumes inv: "lab_inv s" and i: "i < length (tasks s)" and w: "lab_phase (tasks s ! i) = Lane_wait"
    and acq: "try_acquire (lane (lab s)) = Some permits"
    and ph: "begin_phase (lab s) (lab_now s) (job (tasks s ! i)) = Some ph"
  shows "lab_inv (begin_task i ph permits s)"
proof -
  let ?k = "(tasks s ! i)\<lparr>lab_phase := ph, lab_acquired := Some (lab_now s)\<rparr>"
  have ok: "task_ok (lab_policy_of (lab s)) (lab_now s) (tasks s ! i)" by (rule lab_invD(4) [OF inv i])
  then have j: "job_ok (lab_policy_of (lab s)) (job (tasks s ! i))" by (simp add: task_ok_def)
  from begin_phase_cases [OF lab_invD(1) [OF inv] j, of "lab_now s"] ph
  have h: "holds_lane ph \<and> \<not> ended ph \<and> task_ok (lab_policy_of (lab s)) (lab_now s) ?k \<and>
      current (lab s) ?k"
    using ok w by (auto simp: task_ok_def phase_ok_def current_def)
  show ?thesis
  proof (rule lab_inv_keep_content [OF inv i, where k = ?k])
    show "lab_gate.counts (lab_pending (lab (begin_task i ph permits s))) ((tasks s)[i := ?k])"
      using lab_gate.counts_same [OF lab_invD(2) [OF inv] i] h w by (simp add: task_defs)
    show "lane_pool.balanced (lane (lab (begin_task i ph permits s))) ((tasks s)[i := ?k])"
      using lane_pool.balanced_acquire [OF lab_invD(3) [OF inv] i _ _ acq] h w by (simp add: task_defs)
  qed (use h in \<open>simp_all add: task_defs\<close>)
qed

lemma count_result_simps [simp]:
  "states (count_result r a) = states a" "stream_sessions (count_result r a) = stream_sessions a"
  "lab_policy_of (count_result r a) = lab_policy_of a" "lane (count_result r a) = lane a"
  "lab_pending (count_result r a) = lab_pending a"
  by (cases r; simp add: count_result_def)+

lemma commit_result_simps [simp]:
  "lab_policy_of (commit_result j r a) = lab_policy_of a" "lane (commit_result j r a) = lane a"
  "lab_pending (commit_result j r a) = lab_pending a"
  by (cases r; cases j; simp add: commit_result_def Let_def)+

lemma commit_app_ok:
  assumes ok: "app_ok a" and j: "job_ok (lab_policy_of a) j" and h: "holds_state a j previous"
    and r: "r = run_process P a t previous j"
  shows "app_ok (commit_result j r a)"
proof (cases r)
  case (Success out)
  show ?thesis
  proof (cases j)
    case (Turn_job q)
    have "length out = unat (state_bytes (lab_policy_of a))"
      using r Success by (auto simp: Turn_job run_process_def Let_def dest!: lab_execute_process_size [OF sym])
    with ok show ?thesis
      by (auto simp: app_ok_def commit_result_def Success Turn_job intro: list_all_update)
  next
    case (Chunk_job q t')
    let ?s = "stream_sessions a ! unat (cr_session_slot q)"
    note q = job_slot(2) [OF j [unfolded Chunk_job]]
    have s: "session_ok ?s" using session_at [OF ok] q by auto
    have n: "length out = length (accumulated ?s) + length (cr_chunk q)" "length out \<le> 16 * 65536"
      using r Success h
      by (auto simp: Chunk_job run_process_def Let_def dest!: execute_stream_process_size [OF sym])
    have "0 < length (cr_chunk q)" using q by simp
    then have "unat (chunks ?s) < length out" using n(1) s unfolding session_ok_def by linarith
    then have "unat (chunks ?s + 1) \<le> length out"
      using n(2) by (simp add: unat_word_ariths)
    with n(2) s have "session_ok \<lparr>accumulated = out, next_sequence = next_sequence ?s + 1,
        chunks = chunks ?s + 1\<rparr>" by (simp add: session_ok_def)
    with ok show ?thesis
      by (auto simp: app_ok_def commit_result_def Success Chunk_job Let_def intro: list_all_update)
  qed
qed (use ok in \<open>simp_all add: commit_result_def\<close>)

lemma lab_inv_finish:
  assumes inv: "lab_inv s" and i: "i < length (tasks s)" and p: "lab_phase (tasks s ! i) = Running a previous"
    and r: "r = run_process P (lab s) a previous (job (tasks s ! i))"
  shows "lab_inv (finish_process i r a s)"
proof -
  let ?j = "job (tasks s ! i)" and ?t = "finish_process i r a s"
  have ok: "task_ok (lab_policy_of (lab s)) (lab_now s) (tasks s ! i)" by (rule lab_invD(4) [OF inv i])
  then have j: "job_ok (lab_policy_of (lab s)) ?j" by (simp add: task_ok_def)
  have h: "holds_state (lab s) ?j previous" using lab_invD(5) [OF inv i] p by (simp add: current_def)
  have "app_ok (lab ?t)"
    using commit_app_ok [OF lab_invD(1) [OF inv] j h r]
    by (simp add: finish_process_def Let_def update_task_def app_ok_def)
  moreover have "current a' (tasks s ! k)" if "k < length (tasks s)" "k \<noteq> i" for k a'
  proof -
    have "\<not> holds_lane (lab_phase (tasks s ! k))"
      using lane_pool.balanced_exclusive [OF lab_invD(3) [OF inv] _ i _ that(1)] p that(2)
      by (auto simp: LANES_def)
    then show ?thesis by (rule idle_current)
  qed
  moreover have "task_ok (lab_policy_of (lab s)) (lab_now s)
      ((tasks s ! i)\<lparr>lab_phase := Padding (release_deadline (lab_policy_of (lab s)) a) rep, task_result := Some r\<rparr>)" for rep
    using ok p by (simp add: task_ok_def phase_ok_def)
  moreover have "lab_gate.counts (lab_pending (lab s)) ((tasks s)[i := (tasks s ! i)\<lparr>lab_phase := Padding d rep, task_result := x\<rparr>])"
    and "lane_pool.balanced (lane (lab s)) ((tasks s)[i := (tasks s ! i)\<lparr>lab_phase := Padding d rep, task_result := x\<rparr>])" for d rep x
    using lab_gate.counts_same [OF lab_invD(2) [OF inv] i] lane_pool.balanced_same [OF lab_invD(3) [OF inv] i] p
    by simp_all
  ultimately show ?thesis
    by (intro lab_inv_update [OF inv i, where k = "tasks ?t ! i"])
      (simp_all add: finish_process_def Let_def update_task_def current_def i)
qed

lemma task_ok_caller: "task_ok pol t (k\<lparr>lab_caller := c\<rparr>) = task_ok pol t k"
  by (cases "lab_phase k") (simp_all add: task_ok_def phase_ok_def)

lemma current_caller: "current a (k\<lparr>lab_caller := c\<rparr>) = current a k"
  by (cases "lab_phase k") (simp_all add: current_def)

lemma task_ok_ended:
  "task_ok pol t k \<Longrightarrow> lab_phase k = Leaving rep \<Longrightarrow> task_ok pol t (k\<lparr>lab_phase := Ended rep\<rparr>)"
  by (cases "task_result k") (simp_all add: task_ok_def phase_ok_def)

lemma lab_inv_caller:
  assumes inv: "lab_inv s" and i: "i < length (tasks s)"
  shows "lab_inv (update_task i (\<lambda>t. t\<lparr>lab_caller := c\<rparr>) s)"
proof (rule lab_inv_keep_content [OF inv i, where k = "(tasks s ! i)\<lparr>lab_caller := c\<rparr>"])
  show "task_ok (lab_policy_of (lab s)) (lab_now s) ((tasks s ! i)\<lparr>lab_caller := c\<rparr>)"
    using lab_invD(4) [OF inv i] by (simp add: task_ok_caller)
  show "current (lab s) ((tasks s ! i)\<lparr>lab_caller := c\<rparr>)"
    using lab_invD(5) [OF inv i] by (simp add: current_caller)
qed (use i lab_invD(2,3) [OF inv] in
      \<open>simp_all add: update_task_def lab_gate.counts_same lane_pool.balanced_same\<close>)

lemma lab_inv_step:
  assumes "lab_step E s e t" and inv: "lab_inv s"
  shows "lab_inv t"
  using assms(1)
proof cases
  case (post_turn token q)
  then show ?thesis by (simp add: lab_inv_turn inv)
next
  case (post_chunk token q)
  then show ?thesis by (simp add: lab_inv_stream_chunk inv)
next
  case (refuse_reset token q)
  then show ?thesis by (simp add: lab_inv_answer inv)
next
  case (reset token q permits)
  then show ?thesis by (simp add: lab_inv_reset [OF inv])
next
  case (get_state token slot rep)
  then show ?thesis by (simp add: lab_inv_answer inv)
next
  case (get_lab_health token)
  then show ?thesis by (simp add: lab_inv_answer inv)
next
  case (begin_lane i permits ph)
  then show ?thesis by (simp add: lab_inv_begin [OF inv])
next
  case (finish i a previous r c)
  then show ?thesis using lab_inv_finish [OF inv] by blast
next
  case (leave i deadline rep)
  have ok: "task_ok (lab_policy_of (lab s)) (lab_now s) (tasks s ! i)" by (rule lab_invD(4) [OF inv leave(3)])
  show ?thesis
    by (rule lab_inv_keep_content [OF inv leave(3),
          where k = "(tasks s ! i)\<lparr>lab_phase := Leaving rep, lab_released := Some (lab_now s)\<rparr>"])
      (use leave ok lab_invD(2,3) [OF inv] in
        \<open>auto simp: task_defs current_def task_ok_def phase_ok_def release_deadline_def
          intro!: lab_gate.counts_same lane_pool.balanced_release split: if_splits\<close>)
next
  case (end_of_task i rep)
  have ok: "task_ok (lab_policy_of (lab s)) (lab_now s) (tasks s ! i)"
    by (rule lab_invD(4) [OF inv end_of_task(3)])
  show ?thesis
    by (rule lab_inv_keep_content [OF inv end_of_task(3), where k = "(tasks s ! i)\<lparr>lab_phase := Ended rep\<rparr>"])
      (use end_of_task ok lab_invD(2,3) [OF inv] in
        \<open>auto simp: task_defs current_def
          intro!: task_ok_ended lab_gate.counts_leave lane_pool.balanced_same\<close>)
next
  case (respond_task i rep)
  have "lab_inv (update_task i (\<lambda>t. t\<lparr>lab_caller := Answered\<rparr>) s)"
    by (rule lab_inv_caller [OF inv respond_task(3)])
  with respond_task show ?thesis by (simp add: lab_respond_def lab_inv_answer)
next
  case (disconnect_task i)
  then show ?thesis by (simp add: lab_inv_caller [OF inv])
next
  case (lab_tick dt)
  with inv show ?thesis by (auto simp: lab_inv_iff intro: task_ok_later)
qed

interpretation lab_served: inductive_invariant
  "\<lambda>s. \<exists>hex sha probe capitalize listen args. serve hex sha probe capitalize listen args = Inr s"
  "lab_step E" lab_inv
  for E :: "'h lab_env"
  by unfold_locales (auto intro: serve_inv lab_inv_step)

lemma reachable_lab_inv:
  "serve hex sha probe capitalize listen args = Inr s0 \<Longrightarrow> run_of (lab_step E) s0 es s \<Longrightarrow> lab_inv s"
  by (rule lab_served.reachable_inv) blast+

lemma lab_step_policy: "lab_step E s e t \<Longrightarrow> lab_policy_of (lab t) = lab_policy_of (lab s)"
  by (erule lab_stepE)
    (auto simp: task_defs turn_def stream_chunk_def after_checks_def admit_task_def stream_reset_def Let_def
      split: prod.splits sum.splits)

lemma lab_run_policy: "run_of (lab_step E) s es t \<Longrightarrow> lab_policy_of (lab t) = lab_policy_of (lab s)"
  by (induction rule: run_of.induct) (auto dest: lab_step_policy)

lemma lab_step_token: "lab_step E s e t \<Longrightarrow> token_hash (lab t) = token_hash (lab s)"
  by (erule lab_stepE)
    (auto simp: task_defs turn_def stream_chunk_def after_checks_def admit_task_def stream_reset_def Let_def
      count_result_def commit_result_def
      split: prod.splits sum.splits process_result.splits job.splits)

lemma lab_run_token: "run_of (lab_step E) s es t \<Longrightarrow> token_hash (lab t) = token_hash (lab s)"
  by (induction rule: run_of.induct) (auto dest: lab_step_token)

lemma unat_of_char: "unat (of_char c :: u8) = of_char c"
proof -
  have "(of_char c :: nat) < 2 ^ LENGTH(8)" by simp
  then have "unat (of_nat (of_char c) :: u8) = of_char c" by (rule unat_of_nat_less)
  then show ?thesis by (simp only: of_nat_of_char)
qed

lemma as_bytes_inj: "as_bytes s = as_bytes t \<Longrightarrow> s = t"
proof (unfold as_bytes_def, rule map_injective)
  show "inj (of_char :: char \<Rightarrow> u8)"
    by (rule injI) (metis unat_of_char of_char_eq_iff)
qed

section \<open>What every execution of the lab guarantees\<close>

text \<open>C23: whatever processes, requests, disconnections and delays do, in every state the lab can
  reach every stored state has the configured size, every stream is within its capacity and has
  counted its chunks without wrapping, the counter of admitted tasks is exact and at most 256, at
  most one task has the lane, a task that runs holds the current content of its slot, and a waiting
  task can always read its slot without an index out of range.\<close>

theorem lab_state_invariant:
  assumes "serve hex sha probe capitalize listen args = Inr s0" and "run_of (lab_step E) s0 es s"
  shows "length (states (lab s)) = unat (sa_session_slots args) \<and>
         (\<forall>st \<in> set (states (lab s)). length st = unat (sa_state_bytes args)) \<and>
         length (stream_sessions (lab s)) = unat (sa_session_slots args) \<and>
         (\<forall>ss \<in> set (stream_sessions (lab s)). next_sequence ss = chunks ss \<and>
            unat (chunks ss) \<le> length (accumulated ss) \<and> length (accumulated ss) \<le> 16 * 65536) \<and>
         unat (lab_pending (lab s)) = length (filter (\<lambda>k. \<not> ended (lab_phase k)) (tasks s)) \<and>
         unat (lab_pending (lab s)) \<le> 256 \<and>
         lane (lab s) + length (filter (\<lambda>k. holds_lane (lab_phase k)) (tasks s)) = 1 \<and>
         (\<forall>k \<in> set (tasks s).
            (\<forall>a previous. lab_phase k = Running a previous \<longrightarrow> holds_state (lab s) (job k) previous) \<and>
            begin_phase (lab s) (lab_now s) (job k) \<noteq> None)"
proof -
  have inv: "lab_inv s" by (rule reachable_lab_inv [OF assms])
  have pol: "session_slots (lab_policy_of (lab s)) = sa_session_slots args"
    "state_bytes (lab_policy_of (lab s)) = sa_state_bytes args"
    using lab_run_policy [OF assms(2)] assms(1)
    by (auto simp: serve_def Let_def result_simps serve_policy_def)
  have "begin_phase (lab s) (lab_now s) (job k) \<noteq> None" if "k \<in> set (tasks s)" for k
    using begin_phase_cases [OF lab_invD(1) [OF inv], of "job k" "lab_now s"] inv that
    by (auto simp: lab_inv_iff task_ok_def)
  then show ?thesis
    using inv
    by (auto simp: lab_inv_def app_ok_def list_all_iff session_ok_def pol LANES_def MAX_PENDING_def
        word_le_nat_alt split: lab_phase.splits)
qed

text \<open>C24: with a release slot configured, every task whose process was started keeps the lane for at
  least that slot, whatever the process did; the only tasks that leave it earlier are stream chunks
  that were refused with a conflict or a full stream before any process was started.\<close>

theorem lab_release_padding:
  assumes "serve hex sha probe capitalize listen args = Inr s0" and "run_of (lab_step E) s0 es s"
    and "release_slot (lab_policy_of (lab s0)) = Some d" and "k \<in> set (tasks s)"
    and "lab_released k = Some b"
  shows "(case task_result k of
            Some _ \<Rightarrow> the (lab_acquired k) + d \<le> b
          | None \<Rightarrow> (\<exists>q t. job k = Chunk_job q t) \<and>
              (\<exists>rep. (lab_phase k = Leaving rep \<or> lab_phase k = Ended rep) \<and>
                 (rep = Inl conflict \<or> rep = Inl state_full)))"
proof -
  have "task_ok (lab_policy_of (lab s)) (lab_now s) k"
    using reachable_lab_inv [OF assms(1,2)] assms(4) by (simp add: lab_inv_iff)
  moreover have "release_slot (lab_policy_of (lab s)) = Some d"
    using lab_run_policy [OF assms(2)] assms(3) by simp
  ultimately show ?thesis
    using assms(5)
    by (auto simp: task_ok_def phase_ok_def early_def split: lab_phase.splits option.splits if_splits)
qed

text \<open>C25: a request whose token is not the configured one changes nothing: with a hash that has no
  second preimage of the token, every handler answers 401 to every other header value and to a
  missing header, and no state, stream, counter or task changes.\<close>

theorem lab_requires_token:
  assumes "serve hex sha probe capitalize listen args = Inr s0" and "run_of (lab_step E) s0 es s"
    and "env_sha E = sha" and "\<forall>v. sha v = sha (as_bytes (sa_token args)) \<longrightarrow> v = as_bytes (sa_token args)"
    and "token \<noteq> Some (sa_token args)"
  shows "turn sha token q s = lab_answer None (Inl unauthorized) s \<and>
         stream_chunk sha token c s = lab_answer None (Inl unauthorized) s \<and>
         reset_checks sha token r (lab s) = Inl unauthorized \<and>
         stream_state hex' sha token slot (lab s) = Some (Inl unauthorized) \<and>
         lab_health sha token (lab s) = Inl unauthorized"
proof -
  have h: "token_hash (lab s) = sha (as_bytes (sa_token args))"
    using lab_run_token [OF assms(2)] assms(1) by (auto simp: serve_def Let_def result_simps)
  have "16 \<le> length (sa_token args)" using assms(1) by (auto simp: serve_def result_simps)
  then have "as_bytes (sa_token args) \<noteq> []" by (auto simp: as_bytes_def)
  then have "sha [] \<noteq> token_hash (lab s)" using assms(4) h by metis
  moreover have "sha (as_bytes v) \<noteq> token_hash (lab s)" if "token = Some v" for v
    using assms(4,5) h that as_bytes_inj by metis
  ultimately have "authorize sha token (token_hash (lab s)) = Inl unauthorized"
    by (cases token) (auto simp: authorize_def)
  then show ?thesis
    by (simp add: turn_def stream_chunk_def after_checks_def reset_checks_def stream_state_def lab_health_def)
qed

text \<open>A release slot that leaves exactly one millisecond after the cutoff is refused,
  with a message that asks for at least one millisecond.\<close>

theorem exact_millisecond_is_refused:
  assumes "unat cutoff + 1001 < 2 ^ 64"
  shows "parse_release_slot (cutoff + 1000) cutoff =
           Inl ''release slot must reserve at least 1ms after the execution cutoff'' \<and>
         parse_release_slot (cutoff + 1001) cutoff = Inr (Some (from_micros (cutoff + 1001)))"
proof -
  have u: "unat (cutoff + 1000) = unat cutoff + 1000" "unat (cutoff + 1001) = unat cutoff + 1001"
    using assms by (simp_all add: unat_word_ariths)
  then have "cutoff + 1000 < cutoff + 1001" by (simp add: word_less_nat_alt)
  moreover have "cutoff + 1000 \<noteq> 0" "cutoff + 1001 \<noteq> 0" using u by (metis add_is_0 unat_0 zero_neq_numeral)+
  ultimately show ?thesis by (simp add: parse_release_slot_def)
qed

section \<open>Witnesses\<close>

text \<open>A configuration with two slots, and one turn whose process fails, with a padded release.\<close>

definition sample_serve_args :: serve_args where
  "sample_serve_args =
     \<lparr>sa_bind = ''127.0.0.1:8081'', sa_token = ''0123456789abcdef'', sa_session_slots = 2,
      sa_state_bytes = 1, sa_sender_hot_iterations = 131072, sa_sender_cold_iterations = 1024,
      sa_sender_control_iterations = 65536, sa_probe_iterations = 131072,
      sa_execution_cutoff_us = 8000, sa_release_slot_us = 10000\<rparr>"

definition dead_process :: "unit lab_process_api" where
  "dead_process = \<lparr>lab_current_exe = None, lab_spawn = (\<lambda>_. None), lab_take_stdin = (\<lambda>_. False),
     lab_write = (\<lambda>_ _ _. None), lab_take_stdout = (\<lambda>_. False), lab_completion = (\<lambda>_ _ _ _. None)\<rparr>"

definition sample_lab_env :: "unit lab_env" where
  "sample_lab_env = \<lparr>env_hex = (\<lambda>_. []), env_sha = (\<lambda>bs. bs), env_process = (\<lambda>_. dead_process)\<rparr>"

definition sample_turn :: turn_request where
  "sample_turn = \<lparr>tr_session_slot = 1, tr_trial_id = 0, tr_role = Sender, tr_bit = 1\<rparr>"

definition sample_lab :: "lab_task list \<Rightarrow> nat \<Rightarrow> usize \<Rightarrow> u64 \<Rightarrow> instant \<Rightarrow> lab_server" where
  "sample_lab ts l n f t =
     \<lparr>lab = \<lparr>lab_module = [1], lab_module_sha256 = [], stream_module = [2], stream_module_sha256 = [],
             states = [[0], [0]], stream_sessions = [empty_session, empty_session],
             lane = l, lab_pending = n, successful_turns = 0, timed_out_turns = 0, failed_turns = f,
             throttled_turns = 0, token_hash = as_bytes ''0123456789abcdef'',
             lab_policy_of = serve_policy sample_serve_args 8000000 (Some 10000000)\<rparr>,
      lab_now = t, tasks = ts, lab_answers = []\<rparr>"

lemma replicate_two: "replicate 2 x = [x, x]"
  by (simp add: numeral_2_eq_2)

lemma sample_serve:
  "serve (\<lambda>_. []) (\<lambda>bs. bs) (Some [1]) (Some [2]) (\<lambda>_. True) sample_serve_args = Inr (sample_lab [] 1 0 0 0)"
  by (simp add: serve_def sample_serve_args_def sample_lab_def ensure_def Let_def parse_release_slot_def
      from_micros_def replicate_two)

definition sample_task :: "lab_phase \<Rightarrow> instant option \<Rightarrow> instant option \<Rightarrow> process_result option \<Rightarrow> lab_task" where
  "sample_task ph a b r = \<lparr>job = Turn_job sample_turn, lab_phase = ph, lab_caller = Connected,
     lab_acquired = a, lab_released = b, task_result = r\<rparr>"

abbreviation sample_reply :: lab_reply where
  "sample_reply \<equiv> Inr (Normalized normalized_response)"

definition sample_lab_end :: lab_server where
  "sample_lab_end = sample_lab [sample_task (Leaving sample_reply) (Some 0) (Some 10000000) (Some Failed)]
     1 1 1 10000000"

lemmas sample_lab_simps =
  sample_lab_def sample_task_def sample_turn_def sample_lab_env_def

lemma sample_lab_run:
  "run_of (lab_step sample_lab_env) (sample_lab [] 1 0 0 0)
     [Post_turn (Some ''0123456789abcdef'') sample_turn, Begin 0, Finish 0 None, Lab_tick 10000000, Leave 0]
     sample_lab_end"
proof -
  let ?s1 = "sample_lab [sample_task Lane_wait None None None] 1 1 0 0"
  let ?s2 = "sample_lab [sample_task (Running 0 [0]) (Some 0) None None] 0 1 0 0"
  let ?s3 = "\<lambda>t. sample_lab [sample_task (Padding (Some 10000000) sample_reply) (Some 0) None (Some Failed)] 0 1 1 t"
  have "lab_step sample_lab_env (sample_lab [] 1 0 0 0)
      (Post_turn (Some ''0123456789abcdef'') sample_turn) ?s1"
    using post_turn [of sample_lab_env "sample_lab [] 1 0 0 0" "Some ''0123456789abcdef''" sample_turn]
    by (simp add: sample_lab_simps turn_def after_checks_def authorize_def turn_checks_def serve_policy_def
        sample_serve_args_def admit_task_def admit_pending_def fetch_update_def MAX_PENDING_def)
  moreover have "lab_step sample_lab_env ?s1 (Begin 0) ?s2"
    using begin_lane [of 0 ?s1 0 "Running 0 [0]" sample_lab_env]
    by (simp add: sample_lab_simps try_acquire_def begin_phase_def read_turn_state_def task_defs)
  moreover have "lab_step sample_lab_env ?s2 (Finish 0 None) (?s3 0)"
    using finish [of 0 ?s2 0 "[0]" Failed sample_lab_env None]
    by (simp add: sample_lab_simps run_process_def dead_process_def lab_execute_process_def
        execute_process_inner_def stored_chunk_def task_defs count_result_def commit_result_def
        release_deadline_def serve_policy_def task_reply_def Let_def)
  moreover have "lab_step sample_lab_env (?s3 0) (Lab_tick 10000000) (?s3 10000000)"
    using lab_tick [of sample_lab_env "?s3 0" 10000000] by (simp add: sample_lab_simps)
  moreover have "lab_step sample_lab_env (?s3 10000000) (Leave 0) sample_lab_end"
    using leave [of 0 "?s3 10000000" "Some 10000000" sample_reply sample_lab_env]
    by (simp add: sample_lab_simps task_defs drop_permit_def sample_lab_end_def)
  ultimately show ?thesis
    by (auto intro!: run_of.run_snoc [of _ _ "[a, b, c, d]" for a b c d, simplified]
        run_of.run_snoc [of _ _ "[a, b, c]" for a b c, simplified]
        run_of.run_snoc [of _ _ "[a, b]" for a b, simplified]
        run_of.run_snoc [of _ _ "[a]" for a, simplified] intro: run_of_single)
qed

theorem lab_state_invariant_witness:
  "length (states (lab sample_lab_end)) = 2 \<and> unat (lab_pending (lab sample_lab_end)) = 1 \<and>
   lane (lab sample_lab_end) + length (filter (\<lambda>k. holds_lane (lab_phase k)) (tasks sample_lab_end)) = 1"
  using lab_state_invariant [OF sample_serve sample_lab_run]
  by (simp add: sample_serve_args_def sample_lab_end_def sample_lab_simps)

theorem lab_release_padding_witness:
  "the (lab_acquired (tasks sample_lab_end ! 0)) + 10000000 \<le> the (lab_released (tasks sample_lab_end ! 0))"
proof -
  have "release_slot (lab_policy_of (lab (sample_lab [] 1 0 0 0))) = Some 10000000"
    by (simp add: sample_lab_def serve_policy_def)
  moreover have "tasks sample_lab_end ! 0 \<in> set (tasks sample_lab_end)"
    "lab_released (tasks sample_lab_end ! 0) = Some 10000000"
    "task_result (tasks sample_lab_end ! 0) = Some Failed"
    by (simp_all add: sample_lab_end_def sample_lab_simps)
  ultimately show ?thesis
    using lab_release_padding [OF sample_serve sample_lab_run] by fastforce
qed

theorem lab_requires_token_witness:
  "turn (\<lambda>bs. bs) None sample_turn sample_lab_end = lab_answer None (Inl unauthorized) sample_lab_end \<and>
   lab_health (\<lambda>bs. bs) (Some ''guess'') (lab sample_lab_end) = Inl unauthorized"
  using lab_requires_token [OF sample_serve sample_lab_run, of None]
    lab_requires_token [OF sample_serve sample_lab_run, of "Some ''guess''"]
  by (simp add: sample_lab_env_def sample_serve_args_def)

theorem exact_millisecond_is_refused_witness:
  "parse_release_slot (8000 + 1000) 8000 =
     Inl ''release slot must reserve at least 1ms after the execution cutoff''"
  using exact_millisecond_is_refused [of 8000] by simp

end
