(* ===== verification/Lab_Stream.thy ===== *)
theory Lab_Stream
  imports Lab_Invariant
begin

text \<open>
  What the streams of the lab promise: each session is an append-only text, upper-cased, that only a
  reset clears. The service with all its queues, processes and time-outs refines this store, and the
  content of a session is the concatenation of the chunks stored since its last reset.
\<close>

section \<open>The store\<close>

datatype stream_op = Append nat bytes | Clear nat

type_synonym store = "(bytes \<times> u64) list"

fun store_apply :: "store \<Rightarrow> stream_op \<Rightarrow> store" where
  "store_apply st (Append k c) = st[k := (fst (st ! k) @ map to_ascii_uppercase c, snd (st ! k) + 1)]"
| "store_apply st (Clear n) = map (\<lambda>_. ([], 0)) (take n st) @ drop n st"

inductive store_step :: "store \<Rightarrow> stream_op \<Rightarrow> store \<Rightarrow> bool" where
  store_append: "k < length st \<Longrightarrow> length (fst (st ! k)) + length c \<le> 16 * 65536 \<Longrightarrow>
    store_step st (Append k c) (store_apply st (Append k c))"
| store_clear: "store_step st (Clear n) (store_apply st (Clear n))"

text \<open>The chunks of session \<open>k\<close> since its last reset, newest last.\<close>

fun session_log :: "nat \<Rightarrow> stream_op list \<Rightarrow> bytes list" where
  "session_log k [] = []"
| "session_log k (op # ops) =
     (let later = session_log k ops in
      if \<exists>n > k. Clear n \<in> set ops then later
      else case op of
             Append j c \<Rightarrow> if j = k then c # later else later
           | Clear _ \<Rightarrow> later)"

section \<open>The service as a store\<close>

definition stored :: "lab_server \<Rightarrow> store" where
  "stored s = map (\<lambda>ss. (accumulated ss, next_sequence ss)) (stream_sessions (lab s))"

fun stream_ops :: "lab_event \<Rightarrow> stream_op list" where
  "stream_ops (Finish _ (Some (k, c))) = [Append k c]"
| "stream_ops (Reset _ q) = [Clear (unat (session_count q))]"
| "stream_ops _ = []"

text \<open>The processes may fail or be late, but a process that succeeds returns the previous text with
  the upper-cased chunk behind it.\<close>

definition capitalizes :: "'h lab_env \<Rightarrow> bytes \<Rightarrow> lab_policy \<Rightarrow> bool" where
  "capitalizes E m pol =
     (\<forall>i previous chunk deadline out.
        chunk \<noteq> [] \<longrightarrow> length chunk \<le> 1024 \<longrightarrow> length previous + length chunk \<le> 16 * 65536 \<longrightarrow>
        execute_stream_process (env_process E i) m previous chunk pol deadline = Success out \<longrightarrow>
        out = previous @ map to_ascii_uppercase chunk)"

definition stream_good :: "'h lab_env \<Rightarrow> lab_server \<Rightarrow> bool" where
  "stream_good E s = (lab_inv s \<and> capitalizes E (stream_module (lab s)) (lab_policy_of (lab s)))"

lemma lab_step_module: "lab_step E s e t \<Longrightarrow> stream_module (lab t) = stream_module (lab s)"
  by (erule lab_stepE)
    (auto simp: task_defs turn_def stream_chunk_def after_checks_def admit_task_def stream_reset_def Let_def
      count_result_def commit_result_def
      split: prod.splits sum.splits process_result.splits job.splits)

lemma stream_good_step: "lab_step E s e t \<Longrightarrow> stream_good E s \<Longrightarrow> stream_good E t"
  by (auto simp: stream_good_def lab_step_module lab_step_policy intro: lab_inv_step)

lemma stored_cong: "stream_sessions (lab s) = stream_sessions (lab t) \<Longrightarrow> stored s = stored t"
  by (simp add: stored_def)

lemma stored_reset:
  "stored (stream_reset q s) = store_apply (stored s) (Clear (unat (session_count q)))"
  by (simp add: stored_def stream_reset_def Let_def lab_answer_def take_map drop_map reset_session_def)

lemma stored_finish:
  assumes good: "stream_good E s" and i: "i < length (tasks s)"
    and p: "lab_phase (tasks s ! i) = Running a previous"
    and r: "r = run_process (env_process E i) (lab s) a previous (job (tasks s ! i))"
  shows "run_of store_step (stored s) (stream_ops (Finish i (stored_chunk (job (tasks s ! i)) r)))
           (stored (finish_process i r a s))"
proof -
  let ?j = "job (tasks s ! i)"
  have inv: "lab_inv s" using good by (simp add: stream_good_def)
  have ss: "stream_sessions (lab (finish_process i r a s)) = stream_sessions (commit_result ?j r (lab s))"
    by (simp add: finish_process_def Let_def update_task_def)
  show ?thesis
  proof (cases "\<exists>q t out. ?j = Chunk_job q t \<and> r = Success out")
    case False
    then have "stored_chunk ?j r = None" "stream_sessions (commit_result ?j r (lab s)) = stream_sessions (lab s)"
      by (auto simp: stored_chunk_def commit_result_def split: job.splits process_result.splits)
    then show ?thesis using stored_cong [of "finish_process i r a s" s] ss by (simp add: run_of_Nil_iff)
  next
    case True
    then obtain q t out where j: "?j = Chunk_job q t" and out: "r = Success out" by blast
    let ?k = "unat (cr_session_slot q)" and ?s = "stream_sessions (lab s) ! unat (cr_session_slot q)"
    have "job_ok (lab_policy_of (lab s)) (Chunk_job q t)"
      using lab_invD(4) [OF inv i] j by (simp add: task_ok_def)
    note q = job_slot(2) [OF this]
    have k: "?k < length (stream_sessions (lab s))"
      using session_at [OF lab_invD(1) [OF inv]] q by blast
    have h: "previous = accumulated ?s" "length previous + length (cr_chunk q) \<le> 16 * 65536"
      using lab_invD(5) [OF inv i] p j by (auto simp: current_def Let_def)
    have "execute_stream_process (env_process E i) (stream_module (lab s)) previous (cr_chunk q)
        (lab_policy_of (lab s)) (a + execution_cutoff (lab_policy_of (lab s))) = Success out"
      using r out j by (simp add: run_process_def Let_def)
    then have o: "out = accumulated ?s @ map to_ascii_uppercase (cr_chunk q)"
      using good q h by (auto simp: stream_good_def capitalizes_def)
    have "stored (finish_process i r a s) = store_apply (stored s) (Append ?k (cr_chunk q))"
      unfolding stored_def ss using k o by (simp add: j out commit_result_def Let_def map_update)
    moreover have "store_step (stored s) (Append ?k (cr_chunk q)) (store_apply (stored s) (Append ?k (cr_chunk q)))"
      using k h by (intro store_append) (simp_all add: stored_def)
    ultimately show ?thesis by (simp add: j out stored_chunk_def run_of_single)
  qed
qed

lemma lab_step_stored:
  assumes good: "stream_good E s" and "lab_step E s e t"
  shows "run_of store_step (stored s) (stream_ops e) (stored t)"
  using assms(2)
proof cases
  case (reset token q permits)
  then show ?thesis
    using store_clear [of "stored s" "unat (session_count q)"] by (simp add: stored_reset run_of_single)
next
  case (finish i a previous r c)
  then show ?thesis using stored_finish [OF good] by blast
qed (auto simp: run_of_Nil_iff stored_def task_defs turn_def stream_chunk_def after_checks_def admit_task_def
      split: sum.splits prod.splits)

interpretation stream_store: forward_simulation "lab_step E" store_step "stream_good E" stored stream_ops
  for E :: "'h lab_env"
  by unfold_locales (auto intro: stream_good_step lab_step_stored)

section \<open>The content of a session\<close>

lemma store_run_fold: "run_of store_step st ops st' \<Longrightarrow> st' = foldl store_apply st ops"
  by (induction rule: run_of.induct) (auto elim: store_step.cases)

lemma length_store_apply [simp]: "length (store_apply st op) = length st"
  by (cases op) simp_all

lemma session_log_snoc:
  "session_log k (ops @ [Append j c]) = (if j = k then session_log k ops @ [c] else session_log k ops)"
  "session_log k (ops @ [Clear n]) = (if k < n then [] else session_log k ops)"
  by (induction ops) (auto simp: Let_def split: stream_op.splits)

lemma fold_session:
  assumes "k < n"
  shows "foldl store_apply (replicate n ([], 0)) ops ! k =
    (map to_ascii_uppercase (concat (session_log k ops)), of_nat (length (session_log k ops)))"
proof (induction ops rule: rev_induct)
  case Nil
  then show ?case using assms by simp
next
  case (snoc op ops)
  have len: "length (foldl store_apply (replicate n ([], 0)) ops) = n"
    by (induction ops rule: rev_induct) simp_all
  show ?case
  proof (cases op)
    case (Append j c)
    then show ?thesis
      using snoc assms len by (cases "j = k") (simp_all add: session_log_snoc add.commute)
  next
    case (Clear m)
    then show ?thesis
      using snoc assms len by (simp add: session_log_snoc nth_append min_def)
  qed
qed

lemma length_le_concat: "(\<And>x. x \<in> set xs \<Longrightarrow> x \<noteq> []) \<Longrightarrow> length xs \<le> length (concat xs)"
proof (induction xs)
  case (Cons x xs)
  then have "0 < length x" "length xs \<le> length (concat xs)" by auto
  then have "length xs + 1 \<le> length (concat xs) + length x" by linarith
  then show ?case by simp
qed simp

text \<open>Stored chunks are never empty.\<close>

definition chunks_nonempty :: "lab_event list \<Rightarrow> bool" where
  "chunks_nonempty es = (\<forall>i k c. Finish i (Some (k, c)) \<in> set es \<longrightarrow> c \<noteq> [])"

lemma finish_nonempty: "lab_inv s \<Longrightarrow> lab_step E s (Finish i (Some (k, c))) t \<Longrightarrow> c \<noteq> []"
  by (erule lab_stepE)
    (auto simp: stored_chunk_def task_ok_def split: job.splits process_result.splits
      simp: chunk_checks_def if_splits dest!: lab_invD(4))

lemma reachable_chunks_nonempty:
  assumes "serve hex sha probe capitalize listen args = Inr s0" and "run_of (lab_step E) s0 es s"
  shows "chunks_nonempty es"
  using assms(2,1)
proof (induction rule: run_of.induct)
  case (run_snoc s0 es s e t)
  then have "lab_inv s" using reachable_lab_inv by blast
  with run_snoc show ?case by (auto simp: chunks_nonempty_def dest: finish_nonempty)
qed (simp add: chunks_nonempty_def)

lemma session_log_subset: "c \<in> set (session_log k ops) \<Longrightarrow> Append k c \<in> set ops"
  by (induction ops) (auto simp: Let_def split: if_splits stream_op.splits)

lemma stored_chunks_nonempty:
  assumes "chunks_nonempty es" and "c \<in> set (session_log k (concat (map stream_ops es)))"
  shows "c \<noteq> []"
proof -
  from session_log_subset [OF assms(2)] obtain e where e: "e \<in> set es" "Append k c \<in> set (stream_ops e)"
    by auto
  from e(2) obtain i where "e = Finish i (Some (k, c))" by (cases e rule: stream_ops.cases) auto
  with e(1) assms(1) show ?thesis by (auto simp: chunks_nonempty_def)
qed

lemma capitalizes_process_of:
  assumes "granting_kernel K" and "kernel_contract K" and "p_rlimits p RLIMIT_NOFILE = None"
    and "metered_fixtures W dec view cost" and "dec m = Some Stream_capitalize" and "m \<noteq> []" "length m \<le> 1024 * 1024"
    and "16 \<le> unat (lab_memory_pages pol)"
  shows "capitalizes \<lparr>env_hex = hex, env_sha = sha, env_process = (\<lambda>_. process_of W K p)\<rparr> m pol"
  using stream_process_capitalizes [OF assms(1-7) _ _ _ assms(8)]
  by (auto simp: capitalizes_def execute_stream_process_def split: if_splits)

lemma stream_content:
  assumes "serve hex sha probe capitalize listen args = Inr s0" and "run_of (lab_step E) s0 es s"
    and "capitalizes E (stream_module (lab s0)) (lab_policy_of (lab s0))"
    and "k < unat (sa_session_slots args)"
  shows "accumulated (stream_sessions (lab s) ! k) =
           map to_ascii_uppercase (concat (session_log k (concat (map stream_ops es)))) \<and>
         unat (next_sequence (stream_sessions (lab s) ! k)) =
           length (session_log k (concat (map stream_ops es)))"
proof -
  let ?log = "session_log k (concat (map stream_ops es))" and ?s = "stream_sessions (lab s) ! k"
  have "stream_good E s0" using assms(1,3) by (simp add: stream_good_def serve_inv)
  from store_run_fold [OF stream_store.run_simulated [OF assms(2) this]]
  have f: "stored s = foldl store_apply (stored s0) (concat (map stream_ops es))" .
  have s0: "stored s0 = replicate (unat (sa_session_slots args)) ([], 0)"
    using assms(1) by (auto simp: serve_def Let_def result_simps stored_def empty_session_def map_replicate)
  have inv: "lab_inv s" by (rule reachable_lab_inv [OF assms(1,2)])
  have k: "k < length (stream_sessions (lab s))"
    using lab_invD(1) [OF inv] lab_run_policy [OF assms(2)] assms(1,4)
    by (auto simp: app_ok_def serve_def Let_def result_simps serve_policy_def)
  then have e: "accumulated ?s = map to_ascii_uppercase (concat ?log)"
      "next_sequence ?s = of_nat (length ?log)"
    using fold_session [OF assms(4), of "concat (map stream_ops es)"] f [unfolded s0]
    by (auto simp: stored_def dest: arg_cong [where f = "\<lambda>st. st ! k"])
  have "length ?log \<le> length (concat ?log)"
    by (rule length_le_concat) (use stored_chunks_nonempty [OF reachable_chunks_nonempty [OF assms(1,2)]] in auto)
  also have "\<dots> = length (accumulated ?s)" using e(1) by simp
  also have "\<dots> \<le> 16 * 65536"
    using lab_invD(1) [OF inv] k by (simp add: app_ok_def list_all_length session_ok_def)
  finally have "unat (of_nat (length ?log) :: u64) = length ?log" by (simp add: unat_of_nat_less)
  with e show ?thesis by simp
qed

text \<open>C22: the streams of the lab are append-only texts. For every execution in which successful
  processes capitalise, however requests race, fail, time out or are repeated, the text of a session
  is the upper-cased concatenation of the chunks stored since its last reset, in the order in which
  they were stored, and the next sequence number is their count: no chunk is lost, duplicated or
  moved.\<close>

theorem lab_streams_append_only:
  assumes "serve hex sha probe capitalize listen args = Inr s0" and "run_of (lab_step E) s0 es s"
    and "capitalizes E (stream_module (lab s0)) (lab_policy_of (lab s0))"
    and "k < unat (sa_session_slots args)"
  shows "accumulated (stream_sessions (lab s) ! k) =
           map to_ascii_uppercase (concat (session_log k (concat (map stream_ops es)))) \<and>
         unat (next_sequence (stream_sessions (lab s) ! k)) =
           length (session_log k (concat (map stream_ops es)))"
  by (rule stream_content [OF assms])

section \<open>Witness\<close>

text \<open>One chunk sent to session 1, through the real runner on the reference kernel.\<close>

definition stream_env :: "command lab_env" where
  "stream_env = \<lparr>env_hex = (\<lambda>_. []), env_sha = (\<lambda>bs. bs),
     env_process = (\<lambda>_. process_of (fixture_api sample_decoder) reference_kernel spawned_proc)\<rparr>"

definition sample_chunk :: stream_chunk_request where
  "sample_chunk = \<lparr>cr_session_slot = 1, cr_sequence = 0, cr_chunk = [76, 111]\<rparr>"

definition chunk_task :: "lab_phase \<Rightarrow> instant option \<Rightarrow> lab_task" where
  "chunk_task ph a = \<lparr>job = Chunk_job sample_chunk 0, lab_phase = ph, lab_caller = Connected,
     lab_acquired = a, lab_released = None, task_result = None\<rparr>"

lemma stream_env_capitalizes:
  "capitalizes stream_env (stream_module (lab (sample_lab [] 1 0 0 0))) (lab_policy_of (lab (sample_lab [] 1 0 0 0)))"
  unfolding stream_env_def
  by (rule capitalizes_process_of [OF sample_kernel spawned_unlimited reference_engine])
    (simp_all add: sample_lab_def sample_decoder_def serve_policy_def)

lemma sample_chunk_cost: "fixture_cost Stream_capitalize [0, 2, 1048576] mem \<le> 100000000"
  using process_instructions_le [of "[]" "[76, 111]" 1048576 mem] by (simp add: fixture_cost_def)

lemma sample_chunk_run:
  "run_of (lab_step stream_env) (sample_lab [] 1 0 0 0)
     [Post_chunk (Some ''0123456789abcdef'') sample_chunk, Begin 0, Finish 0 (Some (1, [76, 111]))]
     (finish_process 0 (Success [76, 79]) 0 (sample_lab [chunk_task (Running 0 []) (Some 0)] 0 1 0 0))"
proof -
  let ?s1 = "sample_lab [chunk_task Lane_wait None] 1 1 0 0"
  let ?s2 = "sample_lab [chunk_task (Running 0 []) (Some 0)] 0 1 0 0"
  have 1: "lab_step stream_env (sample_lab [] 1 0 0 0)
      (Post_chunk (Some ''0123456789abcdef'') sample_chunk) ?s1"
    using post_chunk [of stream_env "sample_lab [] 1 0 0 0" "Some ''0123456789abcdef''" sample_chunk]
    by (simp add: sample_lab_def chunk_task_def sample_chunk_def stream_env_def stream_chunk_def
        after_checks_def authorize_def chunk_checks_def serve_policy_def sample_serve_args_def
        admit_task_def admit_pending_def fetch_update_def MAX_PENDING_def MAX_CHUNK_BYTES_def)
  have 2: "lab_step stream_env ?s1 (Begin 0) ?s2"
    using begin_lane [of 0 ?s1 0 "Running 0 []" stream_env]
    by (simp add: sample_lab_def chunk_task_def sample_chunk_def try_acquire_def begin_phase_def
        read_stream_state_def Let_def empty_session_def saturating_add_def STREAM_STATE_BYTES_def task_defs)
  have "execute_stream_process_inner (process_of (fixture_api sample_decoder) reference_kernel spawned_proc)
      [2] [] [76, 111] (serve_policy sample_serve_args 8000000 (Some 10000000)) deadline =
      Inr (Success ([] @ map to_ascii_uppercase [76, 111]))" for deadline
    using stream_process_capitalizes [OF sample_kernel spawned_unlimited reference_engine, of sample_decoder "[2]"
        "[76, 111]" "[]" "serve_policy sample_serve_args 8000000 (Some 10000000)" deadline] sample_chunk_cost
    by (simp add: sample_decoder_def serve_policy_def sample_serve_args_def)
  then have "run_process (env_process stream_env 0) (lab ?s2) 0 [] (job (tasks ?s2 ! 0)) = Success [76, 79]"
    by (simp add: run_process_def stream_env_def sample_lab_def chunk_task_def sample_chunk_def Let_def
        execute_stream_process_def to_ascii_uppercase_def)
  then have 3: "lab_step stream_env ?s2 (Finish 0 (Some (1, [76, 111]))) (finish_process 0 (Success [76, 79]) 0 ?s2)"
    by (intro finish [where previous = "[]"]) (simp_all add: sample_lab_def chunk_task_def stored_chunk_def sample_chunk_def)
  have "run_of (lab_step stream_env) (sample_lab [] 1 0 0 0)
      (([Post_chunk (Some ''0123456789abcdef'') sample_chunk] @ [Begin 0]) @ [Finish 0 (Some (1, [76, 111]))])
      (finish_process 0 (Success [76, 79]) 0 ?s2)"
    by (rule run_of.run_snoc [OF run_of.run_snoc]) (rule run_of_single, rule 1, rule 2, rule 3)
  then show ?thesis by simp
qed

theorem lab_streams_append_only_witness:
  "accumulated (stream_sessions (lab (finish_process 0 (Success [76, 79]) 0
     (sample_lab [chunk_task (Running 0 []) (Some 0)] 0 1 0 0))) ! 1) = map to_ascii_uppercase [76, 111]"
  using lab_streams_append_only [OF sample_serve sample_chunk_run stream_env_capitalizes, of 1]
  by (simp add: sample_serve_args_def)

end
