(* ===== verification/Lab_Bench.thy ===== *)
theory Lab_Bench
  imports Lab_Server Bench_Client
begin

text \<open>
  The sequential benchmark of the lab, module \<open>benchmark\<close> of \<open>crates/sequential-lab/src/main.rs\<close>: a sender
  turn, a gap and a probe turn per trial, and the analysis of the probe latencies. As in the other
  client, the server, the clock and the file system are an environment that answers a call from the
  history of calls, and a panic of the analysis is the value \<open>None\<close>.
\<close>

section \<open>Records and reports\<close>

record trial_record =
  re_trial_id :: u64
  re_gap_us :: u64
  re_expected_bit :: u8
  re_sender_latency_ns :: u64
  re_probe_latency_ns :: u64

record gap_summary =
  gs_gap_us :: u64
  gs_scored_trials :: u64
  gs_zero_mean_us :: f64
  gs_one_mean_us :: f64
  gs_mean_delta_us :: f64
  gs_threshold_us :: f64
  gs_high_latency_is_one :: bool
  gs_bit_error_rate :: f64
  gs_mutual_information_bits_per_trial :: f64
  gs_corrected_mutual_information_bits_per_trial :: f64
  gs_permutation_p_value :: f64
  gs_probe_p50_us :: f64
  gs_probe_p95_us :: f64
  gs_probe_p99_us :: f64

record benchmark_report =
  br_schema_version :: u32
  br_seed :: u64
  br_control :: bool
  br_requested_trials :: u64
  br_calibration_per_bit_and_gap :: usize
  br_wall_time_ms :: f64
  br_trials_per_hour :: f64
  br_bit_error_rate :: f64
  br_mutual_information_bits_per_trial :: f64
  br_corrected_mutual_information_bits_per_trial :: f64
  br_permutation_p_value :: f64
  br_raw_information_bits_observed :: f64
  br_corrected_information_bits_observed :: f64
  br_corrected_bits_per_hour :: f64
  br_successful_turns :: u64
  br_timed_out_turns :: u64
  br_failed_turns :: u64
  br_server :: lab_health_response
  br_gap_summaries :: "gap_summary list"
  br_records :: "trial_record list"

record bench_args =
  ba_base_url :: string
  ba_token :: string
  ba_trials :: u64
  ba_seed :: u64
  ba_control :: bool
  ba_gaps_us :: "u64 list"
  ba_calibration_per_bit_and_gap :: usize
  ba_sender_slot :: u16
  ba_probe_slot :: u16
  ba_output :: string

section \<open>Analysis\<close>

definition server_gaps :: "trial_plan list \<Rightarrow> u64 list" where
  "server_gaps plan = sorted_dedup (map plan_offset plan)"

definition probe_us :: "arith \<Rightarrow> trial_record \<Rightarrow> f64" where
  "probe_us A r = fdiv A (of_int64 A (unat (re_probe_latency_ns r))) (of_int64 A 1000)"

definition calibration_latencies :: "arith \<Rightarrow> trial_record list \<Rightarrow> u64 \<Rightarrow> u8 \<Rightarrow> f64 list" where
  "calibration_latencies A records gap b =
     map (probe_us A) (filter (\<lambda>r. re_gap_us r = gap \<and> re_expected_bit r = b) records)"

text \<open>The decoding of the trials of one gap against the calibrated threshold.\<close>

definition score_gap :: "arith \<Rightarrow> f64 \<Rightarrow> bool \<Rightarrow> u64 \<Rightarrow> trial_record list \<Rightarrow> scored_pair list" where
  "score_gap A threshold high_is_one gap records =
     map (\<lambda>r. let high = fle threshold (probe_us A r)
              in \<lparr>sp_expected = re_expected_bit r,
                  sp_decoded = (if (if high_is_one then high else \<not> high) then 1 else 0), sp_offset = gap\<rparr>)
       (filter (\<lambda>r. re_gap_us r = gap) records)"

definition analyze_gap ::
    "arith \<Rightarrow> u64 \<Rightarrow> trial_record list \<Rightarrow> nat \<Rightarrow> u64 \<Rightarrow> (gap_summary \<times> scored_pair list) option" where
  "analyze_gap A seed records calibration_len gap =
     do {
       let zero_mean = lab_mean A (calibration_latencies A (take calibration_len records) gap 0);
       let one_mean = lab_mean A (calibration_latencies A (take calibration_len records) gap 1);
       let threshold = fdiv A (fadd A zero_mean one_mean) (of_int64 A 2);
       let high_is_one = fle zero_mean one_mean;
       let gap_scored = score_gap A threshold high_is_one gap (drop calibration_len records);
       permutation \<leftarrow> lab_permutation_test A gap_scored (seed XOR gap) 2000;
       raw_mi \<leftarrow> lab_mutual_information A (binary gap_scored);
       let latencies = sort (map (probe_us A) (filter (\<lambda>r. re_gap_us r = gap) records));
       p50 \<leftarrow> percentile A latencies 0.50;
       p95 \<leftarrow> percentile A latencies 0.95;
       p99 \<leftarrow> percentile A latencies 0.99;
       Some (\<lparr>gs_gap_us = gap, gs_scored_trials = of_nat (length gap_scored), gs_zero_mean_us = zero_mean,
              gs_one_mean_us = one_mean, gs_mean_delta_us = fsub A one_mean zero_mean,
              gs_threshold_us = threshold, gs_high_latency_is_one = high_is_one,
              gs_bit_error_rate = error_rate A gap_scored, gs_mutual_information_bits_per_trial = raw_mi,
              gs_corrected_mutual_information_bits_per_trial = fmax (fsub A raw_mi (lp_null_mean permutation)) (Fin 0),
              gs_permutation_p_value = lp_p_value permutation, gs_probe_p50_us = p50, gs_probe_p95_us = p95,
              gs_probe_p99_us = p99\<rparr>, gap_scored)
     }"

text \<open>A duration in seconds: \<open>as_secs_f64\<close> adds the nanoseconds, divided by a billion, to the whole seconds.\<close>

definition as_secs_f64 :: "arith \<Rightarrow> duration \<Rightarrow> f64" where
  "as_secs_f64 A d =
     fadd A (of_int64 A (as_secs d)) (fdiv A (of_int64 A (d mod nanos_per_sec)) (of_int64 A nanos_per_sec))"

definition analyze ::
    "arith \<Rightarrow> u64 \<Rightarrow> bool \<Rightarrow> u64 \<Rightarrow> usize \<Rightarrow> duration \<Rightarrow> lab_health_response \<Rightarrow> u64 \<Rightarrow> u64 \<Rightarrow> u64
     \<Rightarrow> trial_plan list \<Rightarrow> trial_record list \<Rightarrow> benchmark_report option" where
  "analyze A seed control requested_trials per_bit_and_gap wall_time server successful timed_out failed plan records =
     do {
       let calibration_len = length (server_gaps plan) * unat per_bit_and_gap * 2;
       parts \<leftarrow> (if calibration_len \<le> length records
                 then traverse (analyze_gap A seed records calibration_len) (server_gaps plan)
                 else if server_gaps plan = [] then Some [] else None);
       let scored = concat (map snd parts);
       raw_mi \<leftarrow> lab_mutual_information A (binary scored);
       permutation \<leftarrow> lab_permutation_test A scored seed 4000;
       let corrected_mi = fmax (fsub A raw_mi (lp_null_mean permutation)) (Fin 0);
       let wall_hours = fdiv A (as_secs_f64 A wall_time) (of_int64 A 3600);
       let per_hour = (if wall_hours = Fin 0 then Fin 0 else fdiv A (of_int64 A (length scored)) wall_hours);
       Some \<lparr>br_schema_version = 1, br_seed = seed, br_control = control, br_requested_trials = requested_trials,
             br_calibration_per_bit_and_gap = per_bit_and_gap,
             br_wall_time_ms = fmul A (as_secs_f64 A wall_time) (of_int64 A 1000), br_trials_per_hour = per_hour,
             br_bit_error_rate = error_rate A scored, br_mutual_information_bits_per_trial = raw_mi,
             br_corrected_mutual_information_bits_per_trial = corrected_mi,
             br_permutation_p_value = lp_p_value permutation,
             br_raw_information_bits_observed = fmul A raw_mi (of_int64 A (length scored)),
             br_corrected_information_bits_observed = fmul A corrected_mi (of_int64 A (length scored)),
             br_corrected_bits_per_hour =
               (if fle (lp_p_value permutation) (rnd A 0.05) then fmul A corrected_mi per_hour else Fin 0),
             br_successful_turns = successful, br_timed_out_turns = timed_out, br_failed_turns = failed,
             br_server = server, br_gap_summaries = map fst parts, br_records = records\<rparr>
     }"

section \<open>Every trial after the calibration is scored once\<close>

text \<open>How a trial is decoded from the calibration records alone: its probe latency against the midpoint of the
  two mean latencies of its gap, with the sign that these means have. \<open>verdicts\<close> are the planned and the decoded
  bit of some trials.\<close>

definition decoded_as :: "arith \<Rightarrow> trial_record list \<Rightarrow> trial_record \<Rightarrow> u8" where
  "decoded_as A calibration r =
     (let zero = lab_mean A (calibration_latencies A calibration (re_gap_us r) 0);
          one = lab_mean A (calibration_latencies A calibration (re_gap_us r) 1);
          high = fle (fdiv A (fadd A zero one) (of_int64 A 2)) (probe_us A r)
      in if fle zero one = high then 1 else 0)"

definition verdicts :: "arith \<Rightarrow> trial_record list \<Rightarrow> trial_record list \<Rightarrow> (u8 \<times> u8) list" where
  "verdicts A calibration rs = map (\<lambda>r. (re_expected_bit r, decoded_as A calibration r)) rs"

definition wrong :: "(u8 \<times> u8) list \<Rightarrow> nat" where
  "wrong vs = length (filter (\<lambda>(planned, decoded). planned \<noteq> decoded) vs)"

text \<open>What a summary of a gap says when the trials \<open>later\<close> are scored with these calibration records.\<close>

definition summarises :: "arith \<Rightarrow> trial_record list \<Rightarrow> trial_record list \<Rightarrow> u64 \<Rightarrow> gap_summary \<Rightarrow> bool" where
  "summarises A calibration later gap summary \<longleftrightarrow>
     (let vs = verdicts A calibration (filter (\<lambda>r. re_gap_us r = gap) later)
      in gs_gap_us summary = gap \<and> unat (gs_scored_trials summary) = length vs \<and>
         gs_mutual_information_bits_per_trial summary = mutual_information A vs \<and>
         gs_bit_error_rate summary =
           (if vs = [] then Fin 0 else fdiv A (of_int64 A (wrong vs)) (of_int64 A (length vs))))"

lemma binary_score_gap:
  assumes "zero = lab_mean A (calibration_latencies A calibration gap 0)"
    and "one = lab_mean A (calibration_latencies A calibration gap 1)"
  shows "binary (score_gap A (fdiv A (fadd A zero one) (of_int64 A 2)) (fle zero one) gap records) =
    verdicts A calibration (filter (\<lambda>r. re_gap_us r = gap) records)"
  unfolding assms by (auto simp: binary_def score_gap_def verdicts_def decoded_as_def Let_def)

lemma error_rate_binary:
  "error_rate A pairs =
     (if binary pairs = [] then Fin 0 else fdiv A (of_int64 A (wrong (binary pairs))) (of_int64 A (length (binary pairs))))"
  by (simp add: error_rate_def binary_def wrong_def filter_map comp_def)

lemma sum_filters:
  "distinct gs \<Longrightarrow> (\<And>r. r \<in> set xs \<Longrightarrow> f r \<in> set gs) \<Longrightarrow>
   sum_list (map (\<lambda>g. length (filter (\<lambda>r. f r = g) xs)) gs) = length xs"
proof (induction xs)
  case (Cons r xs)
  have "sum_list (map (\<lambda>g. length (filter (\<lambda>r. f r = g) (r # xs))) gs) =
      sum_list (map (\<lambda>g. (if f r = g then 1 else 0) + length (filter (\<lambda>r. f r = g) xs)) gs)"
    by (rule arg_cong [of _ _ sum_list], rule map_cong) auto
  also have "\<dots> = sum_list (map (\<lambda>g. if f r = g then 1 else 0) gs) + length xs"
    using Cons by (simp add: sum_list_addf)
  also have "sum_list (map (\<lambda>g. if f r = g then 1 else 0) gs) = (1 :: nat)"
    using Cons.prems(1) Cons.prems(2) [of r] by (simp add: sum_list_distinct_conv_sum_set)
  finally show ?case by simp
qed (simp add: sum_list_triv)

lemma distinct_sorted_dedup: "distinct (sorted_dedup xs)"
proof -
  have "distinct (remdups_adj ys)" if "sorted ys" for ys :: "u64 list"
    using that by (induction ys rule: remdups_adj.induct) (auto simp: remdups_adj_Cons' order_le_less split: list.splits)
  then show ?thesis by (simp add: sorted_dedup_def)
qed

lemma length_score_gap: "length (score_gap A threshold high gap records) = length (filter (\<lambda>r. re_gap_us r = gap) records)"
  by (simp add: score_gap_def)

definition bits_ok :: "scored_pair list \<Rightarrow> bool" where
  "bits_ok pairs \<longleftrightarrow> (\<forall>p \<in> set pairs. sp_expected p \<le> 1 \<and> sp_decoded p \<le> 1)"

lemma bits_ok_score_gap:
  "(\<And>r. r \<in> set records \<Longrightarrow> re_expected_bit r \<le> 1) \<Longrightarrow> bits_ok (score_gap A threshold high gap records)"
  by (auto simp: bits_ok_def score_gap_def Let_def)

lemma lab_mutual_information_ok: "bits_ok pairs \<Longrightarrow> lab_mutual_information A (binary pairs) = Some (mutual_information A (binary pairs))"
  by (auto simp: lab_mutual_information_def bits_ok_def binary_def list_all_iff)

lemma traverse_map:
  "(\<And>x. x \<in> set xs \<Longrightarrow> \<exists>y. f x = Some y \<and> P x y) \<Longrightarrow> \<exists>ys. traverse f xs = Some ys \<and> list_all2 P xs ys"
  by (induction xs) (fastforce simp: bind_eq_Some_conv)+

context rounding
begin

lemma lab_permutation_total:
  "bits_ok pairs \<Longrightarrow> n < 2 ^ 53 \<Longrightarrow>
   \<exists>r. lab_permutation_test A pairs seed n = Some r \<and> in_unit (lp_p_value r)"
  using p_value_unit [of "permuted_estimates n (mutual_information A) pairs (map sp_expected pairs)
      (max seed 1 XOR 0x7065726d75746521)" n]
  by (auto simp: lab_permutation_test_def lab_mutual_information_ok in_unit_def Let_def)

lemma error_rate_in_unit: "length pairs \<le> 2 ^ 53 \<Longrightarrow> in_unit (error_rate A pairs)"
  using fdiv_nat_unit [of "length (filter (\<lambda>p. sp_expected p \<noteq> sp_decoded p) pairs)" "length pairs"]
  by (auto simp: error_rate_def in_unit_def)

lemma analyze_gap_total:
  assumes "length records \<le> 2 ^ 53" "\<And>r. r \<in> set records \<Longrightarrow> re_expected_bit r \<le> 1"
  shows "\<exists>summary scored. analyze_gap A seed records n gap = Some (summary, scored) \<and>
    gs_gap_us summary = gap \<and> bits_ok scored \<and>
    binary scored = verdicts A (take n records) (filter (\<lambda>r. re_gap_us r = gap) (drop n records)) \<and>
    summarises A (take n records) (drop n records) gap summary \<and>
    list_all in_unit [gs_bit_error_rate summary, gs_permutation_p_value summary]"
proof -
  let ?zero = "lab_mean A (calibration_latencies A (take n records) gap 0)"
  let ?one = "lab_mean A (calibration_latencies A (take n records) gap 1)"
  let ?scored = "score_gap A (fdiv A (fadd A ?zero ?one) (of_int64 A 2)) (fle ?zero ?one) gap (drop n records)"
  let ?lat = "sort (map (probe_us A) (filter (\<lambda>r. re_gap_us r = gap) records))"
  have bits: "bits_ok ?scored" using assms(2) by (intro bits_ok_score_gap) (meson in_set_dropD)
  obtain perm where perm: "lab_permutation_test A ?scored (seed XOR gap) 2000 = Some perm" "in_unit (lp_p_value perm)"
    using lab_permutation_total [OF bits, of 2000] by auto
  have "length ?lat \<le> 2 ^ 53"
    using assms(1) length_filter_le [of "\<lambda>r. re_gap_us r = gap" records] by (simp del: length_filter_le)
  from percentiles_total [OF this] obtain p50 p95 p99 where
    p: "percentile A ?lat 0.5 = Some p50" "percentile A ?lat 0.95 = Some p95" "percentile A ?lat 0.99 = Some p99"
    by blast
  have "length ?scored \<le> 2 ^ 53"
    using assms(1) length_filter_le [of "\<lambda>r. re_gap_us r = gap" "drop n records"]
    by (simp add: length_score_gap del: length_filter_le)
  then have rate: "in_unit (error_rate A ?scored)" "unat (of_nat (length ?scored) :: u64) = length ?scored"
    using error_rate_in_unit by (simp_all add: unat_of_nat_less)
  have bin: "binary ?scored = verdicts A (take n records) (filter (\<lambda>r. re_gap_us r = gap) (drop n records))"
    by (rule binary_score_gap) simp_all
  have len: "length ?scored = length (binary ?scored)" by (simp add: binary_def)
  obtain summary where s: "analyze_gap A seed records n gap = Some (summary, ?scored)" "gs_gap_us summary = gap"
    "gs_scored_trials summary = of_nat (length ?scored)" "gs_bit_error_rate summary = error_rate A ?scored"
    "gs_mutual_information_bits_per_trial summary = mutual_information A (binary ?scored)"
    "gs_permutation_p_value summary = lp_p_value perm"
    using perm p bits by (simp add: analyze_gap_def lab_mutual_information_ok Let_def)
  have "summarises A (take n records) (drop n records) gap summary"
    unfolding summarises_def Let_def bin [symmetric] using s rate(2) len error_rate_binary [of A ?scored] by simp
  with s perm(2) bits bin rate(1) show ?thesis by (intro exI [of _ summary] exI [of _ ?scored]) simp
qed

end

section \<open>The campaign\<close>

datatype lab_call =
  GetHealth string string
  | PostTurn string string turn_request
  | Pause u64
  | WriteLabReport string benchmark_report

text \<open>The environment: the answer to a health request, the end of a turn (a transport error, or status and
  body), the clock, and whether a write succeeds.\<close>

record lab_bench_env =
  le_health :: "lab_call list \<Rightarrow> error + lab_health_response"
  le_turn :: "lab_call list \<Rightarrow> error + u16 \<times> (error + string)"
  le_now :: "lab_call list \<Rightarrow> instant"
  le_write :: "lab_call list \<Rightarrow> error + unit"

definition lab_send_turn :: "lab_bench_env \<Rightarrow> lab_call list \<Rightarrow> error + unit" where
  "lab_send_turn E h =
     try_bind (le_turn E h) (\<lambda>(status, text).
     try_bind (ensure (\<not> (400 \<le> status \<and> status < 600)) ''turn rejected'') (\<lambda>_.
     try_bind text (\<lambda>body.
       ensure (body = NORMALIZED_BODY) ''turn response was not normalized'')))"

definition bench_request :: "bench_args \<Rightarrow> nat \<Rightarrow> u16 \<Rightarrow> role \<Rightarrow> u8 \<Rightarrow> lab_call" where
  "bench_request args trial_id slot r b =
     PostTurn (endpoint (ba_base_url args) ''/v1/turn'') (ba_token args)
       \<lparr>tr_session_slot = slot, tr_trial_id = of_nat trial_id, tr_role = r, tr_bit = b\<rparr>"

definition run_trial ::
    "lab_bench_env \<Rightarrow> bench_args \<Rightarrow> nat \<Rightarrow> trial_plan \<Rightarrow> lab_call list \<Rightarrow> (error + trial_record) \<times> lab_call list" where
  "run_trial E args trial_id planned h =
     (let sender_started = le_now E h;
          h = h @ [bench_request args trial_id (ba_sender_slot args)
                     (if ba_control args then Control else Sender) (plan_bit planned)]
      in case lab_send_turn E h of
           Inl e \<Rightarrow> (Inl e, h)
         | Inr _ \<Rightarrow>
             (let sender_latency = le_now E h - sender_started;
                  h = (if plan_offset planned \<noteq> 0 then h @ [Pause (plan_offset planned)] else h);
                  probe_started = le_now E h;
                  h = h @ [bench_request args trial_id (ba_probe_slot args) Probe 0]
              in case lab_send_turn E h of
                   Inl e \<Rightarrow> (Inl e, h)
                 | Inr _ \<Rightarrow>
                     (Inr \<lparr>re_trial_id = of_nat trial_id, re_gap_us = plan_offset planned,
                           re_expected_bit = plan_bit planned,
                           re_sender_latency_ns = of_nat sender_latency,
                           re_probe_latency_ns = of_nat (le_now E h - probe_started)\<rparr>, h)))"

fun run_trials ::
    "lab_bench_env \<Rightarrow> bench_args \<Rightarrow> nat \<Rightarrow> trial_plan list \<Rightarrow> lab_call list
     \<Rightarrow> (error + trial_record list) \<times> lab_call list" where
  "run_trials E args trial_id [] h = (Inr [], h)"
| "run_trials E args trial_id (planned # plan) h =
     (case run_trial E args trial_id planned h of
        (Inl e, h) \<Rightarrow> (Inl e, h)
      | (Inr record, h) \<Rightarrow>
          (case run_trials E args (Suc trial_id) plan h of
             (Inl e, h) \<Rightarrow> (Inl e, h)
           | (Inr records, h) \<Rightarrow> (Inr (record # records), h)))"

definition lab_calibration_len :: "bench_args \<Rightarrow> nat" where
  "lab_calibration_len args = length (ba_gaps_us args) * unat (ba_calibration_per_bit_and_gap args) * 2"

definition lab_bench_checks :: "bench_args \<Rightarrow> error + unit" where
  "lab_bench_checks args =
     try_bind (ensure (\<not> (length (ba_token args) < 16 \<or> ba_gaps_us args = [] \<or> ba_sender_slot args = ba_probe_slot args))
       ''valid token, at least one gap, and distinct sender/probe slots are required'') (\<lambda>_.
     ensure (\<not> unat (ba_trials args) \<le> lab_calibration_len args) ''trials must exceed the calibration trials'')"

definition finish_bench ::
    "lab_bench_env \<Rightarrow> arith \<Rightarrow> bench_args \<Rightarrow> lab_health_response \<Rightarrow> trial_plan list \<Rightarrow> instant \<Rightarrow> trial_record list
     \<Rightarrow> lab_call list \<Rightarrow> (error + unit) \<times> lab_call list" where
  "finish_bench E A args server plan started records h =
     (let h = h @ [GetHealth (endpoint (ba_base_url args) ''/health'') (ba_token args)]
      in case le_health E h of
           Inl e \<Rightarrow> (Inl e, h)
         | Inr final_server \<Rightarrow>
             (let successful = saturating_sub (lh_successful_turns final_server) (lh_successful_turns server);
                  timed_out = saturating_sub (lh_timed_out_turns final_server) (lh_timed_out_turns server);
                  failed = saturating_sub (lh_failed_turns final_server) (lh_failed_turns server)
              in if successful \<noteq> saturating_mul (ba_trials args) 2 \<or> timed_out \<noteq> 0 \<or> failed \<noteq> 0
                 then (Inl ''incomplete campaign'', h)
                 else case analyze A (ba_seed args) (ba_control args) (ba_trials args)
                             (ba_calibration_per_bit_and_gap args) (le_now E h - started) final_server
                             successful timed_out failed plan records of
                        None \<Rightarrow> (Inl ''panic'', h)
                      | Some report \<Rightarrow>
                          (let h = h @ [WriteLabReport (ba_output args) report] in (le_write E h, h))))"

definition lab_bench :: "lab_bench_env \<Rightarrow> arith \<Rightarrow> bench_args \<Rightarrow> (error + unit) \<times> lab_call list" where
  "lab_bench E A args =
     (case lab_bench_checks args of
        Inl e \<Rightarrow> (Inl e, [])
      | Inr _ \<Rightarrow>
          (let h = [GetHealth (endpoint (ba_base_url args) ''/health'') (ba_token args)]
           in case le_health E h of
                Inl e \<Rightarrow> (Inl e, h)
              | Inr server \<Rightarrow>
                  if unat (lh_session_slots server) \<le> unat (ba_sender_slot args) \<or>
                     unat (lh_session_slots server) \<le> unat (ba_probe_slot args)
                  then (Inl ''requested session slot is not present on the server'', h)
                  else case lab_build_trial_plan (ba_seed args) (ba_trials args) (ba_gaps_us args)
                              (ba_calibration_per_bit_and_gap args) of
                         None \<Rightarrow> (Inl ''no plan'', h)
                       | Some plan \<Rightarrow>
                           (case run_trials E args 0 plan h of
                              (Inl e, h') \<Rightarrow> (Inl e, h')
                            | (Inr records, h') \<Rightarrow> finish_bench E A args server plan (le_now E h) records h')))"

section \<open>From the campaign to the report\<close>

definition planned_of :: "trial_record \<Rightarrow> trial_plan" where
  "planned_of r = \<lparr>plan_bit = re_expected_bit r, plan_offset = re_gap_us r\<rparr>"

lemma run_trial_planned: "run_trial E args t planned h = (Inr r, h') \<Longrightarrow> planned_of r = planned"
  by (auto simp: run_trial_def planned_of_def Let_def split: sum.splits)

lemma run_trials_planned: "run_trials E args t plan h = (Inr records, h') \<Longrightarrow> map planned_of records = plan"
  by (induction plan arbitrary: t h records h')
    (auto split: prod.splits sum.splits dest: run_trial_planned)

lemma plan_parts_bits:
  assumes "plan_parts n offsets cal out" "planned \<in> set (cal @ out)"
  shows "plan_bit planned \<le> 1"
proof -
  obtain q part where out: "mset out = repeat_mset q (mset (combinations offsets)) + part"
    "part \<subseteq># mset (combinations offsets)" and cal: "mset cal = mset (calibration_trials n offsets)"
    using assms(1) by (auto simp: plan_parts_def)
  have "planned \<in> set cal \<or> planned \<in># repeat_mset q (mset (combinations offsets)) + part"
    using assms(2) unfolding out(1) [symmetric] by auto
  then have "planned \<in> set (calibration_trials n offsets) \<or> planned \<in># mset (combinations offsets)"
    using mset_eq_setD [OF cal] mset_subset_eqD [OF out(2)]
    by (metis UnE count_eq_zero_iff count_repeat_mset mult_0_right set_mset_union)
  moreover have "set (calibration_trials n offsets) \<subseteq> set (combinations offsets)"
    by (auto simp: calibration_trials_def combinations_def)
  ultimately show ?thesis by (auto simp: combinations_def both_bits_def)
qed

lemma server_gaps_distinct_gaps:
  assumes "plan_parts n gaps cal out" "distinct gaps" "0 < n"
  shows "set (server_gaps (cal @ out)) = set gaps \<and> distinct (server_gaps (cal @ out)) \<and>
    length (server_gaps (cal @ out)) = length gaps"
proof -
  have "g \<in> plan_offset ` set cal" if "g \<in> set gaps" for g
  proof -
    have "0 < count (mset cal) (trial 0 g)" using plan_parts_count [OF assms(1,2) that, of 0] assms(3) by simp
    then show ?thesis by (force simp: count_greater_zero_iff)
  qed
  then have set: "set (server_gaps (cal @ out)) = set gaps"
    using plan_parts_offsets [OF assms(1)] by (auto simp: server_gaps_def)
  moreover have "distinct (server_gaps (cal @ out))" by (simp add: server_gaps_def distinct_sorted_dedup)
  ultimately show ?thesis using assms(2) by (metis distinct_card)
qed

lemma length_filter_planned:
  "length (filter (\<lambda>r. re_gap_us r = g \<and> re_expected_bit r = b) records) = count (mset (map planned_of records)) (trial b g)"
  by (induction records) (auto simp: planned_of_def)

lemma parts_shape:
  "list_all2 (\<lambda>gap part. gs_gap_us (fst part) = gap \<and> bits_ok (snd part) \<and> binary (snd part) = v gap \<and>
     P gap (fst part)) gs parts \<Longrightarrow>
   map (gs_gap_us \<circ> fst) parts = gs \<and> list_all2 P gs (map fst parts) \<and>
   binary (concat (map snd parts)) = concat (map v gs) \<and> bits_ok (concat (map snd parts))"
  by (induction rule: list_all2_induct) (auto simp: bits_ok_def binary_def)

text \<open>The trials of all gaps, gap by gap, are the trials.\<close>

lemma mset_by_gap:
  assumes "distinct gs" "\<And>r. r \<in> set xs \<Longrightarrow> f r \<in> set gs"
  shows "mset (concat (map (\<lambda>g. filter (\<lambda>r. f r = g) xs) gs)) = mset xs"
  using assms(2)
proof (induction xs)
  case (Cons x xs)
  have one: "(\<Sum>g\<leftarrow>gs. if f x = g then {#x#} else {#}) = {#x#}"
    using assms(1) Cons.prems [of x] by (simp add: sum_list_distinct_conv_sum_set)
  have "mset (concat (map (\<lambda>g. filter (\<lambda>r. f r = g) (x # xs)) gs)) =
      (\<Sum>g\<leftarrow>gs. (if f x = g then {#x#} else {#}) + mset (filter (\<lambda>r. f r = g) xs))"
    by (simp add: mset_concat comp_def) (rule arg_cong [of _ _ sum_list], rule map_cong, auto)
  also have "\<dots> = {#x#} + mset (concat (map (\<lambda>g. filter (\<lambda>r. f r = g) xs) gs))"
    by (simp add: sum_list_addf one mset_concat comp_def)
  finally show ?case using Cons by simp
qed (simp add: mset_concat comp_def sum_list_triv)

lemma error_rate_permuted:
  assumes "binary pairs = verdicts A calibration scored" "mset scored = mset later"
  shows "error_rate A pairs =
    (if later = [] then Fin 0
     else fdiv A (of_int64 A (wrong (verdicts A calibration later))) (of_int64 A (length later)))"
proof -
  have eq: "mset (binary pairs) = mset (verdicts A calibration later)"
    using assms(2) by (simp only: assms(1) verdicts_def mset_map)
  then have "wrong (binary pairs) = wrong (verdicts A calibration later)"
    unfolding wrong_def by (metis mset_filter size_mset)
  moreover have "length (binary pairs) = length later" using mset_eq_length [OF eq] by (simp add: verdicts_def)
  ultimately show ?thesis unfolding error_rate_binary by (cases later) auto
qed

context rounding
begin

lemma analyze_total:
  assumes "length records \<le> 2 ^ 53" "\<And>r. r \<in> set records \<Longrightarrow> re_expected_bit r \<le> 1 \<and> re_gap_us r \<in> set (server_gaps plan)"
    and "length (server_gaps plan) * unat per * 2 = n" "n \<le> length records"
  shows "\<exists>report. analyze A seed control requested per wall server ok late bad plan records = Some report \<and>
    list_all2 (summarises A (take n records) (drop n records)) (server_gaps plan) (br_gap_summaries report) \<and>
    (\<exists>scored. mset scored = mset (drop n records) \<and>
       br_mutual_information_bits_per_trial report = mutual_information A (verdicts A (take n records) scored) \<and>
       br_bit_error_rate report =
         (if drop n records = [] then Fin 0
          else fdiv A (of_int64 A (wrong (verdicts A (take n records) (drop n records))))
                 (of_int64 A (length (drop n records))))) \<and>
    list_all in_unit [br_bit_error_rate report, br_permutation_p_value report]"
proof -
  let ?gs = "server_gaps plan" and ?v = "\<lambda>gap. filter (\<lambda>r. re_gap_us r = gap) (drop n records)"
  let ?P = "\<lambda>gap part. gs_gap_us (fst part) = gap \<and> bits_ok (snd part) \<and>
      binary (snd part) = verdicts A (take n records) (?v gap) \<and>
      summarises A (take n records) (drop n records) gap (fst part)"
  have "\<exists>part. analyze_gap A seed records n gap = Some part \<and> ?P gap part" for gap
    using analyze_gap_total [of records seed n gap] assms(1,2) by fastforce
  then obtain parts where parts: "traverse (analyze_gap A seed records n) ?gs = Some parts" "list_all2 ?P ?gs parts"
    using traverse_map [of ?gs "analyze_gap A seed records n" ?P] by blast
  let ?scored = "concat (map ?v ?gs)" and ?pairs = "concat (map snd parts)"
  have mset: "mset ?scored = mset (drop n records)"
    using assms(2) by (intro mset_by_gap) (auto simp: server_gaps_def distinct_sorted_dedup dest: in_set_dropD)
  have bits: "bits_ok ?pairs" and bin: "binary ?pairs = verdicts A (take n records) ?scored"
    and sums: "list_all2 (summarises A (take n records) (drop n records)) ?gs (map fst parts)"
    using parts_shape [OF parts(2)] by (simp_all add: verdicts_def map_concat comp_def)
  note rate = error_rate_permuted [OF bin mset]
  have len: "length ?pairs = length records - n"
    using mset_eq_length [OF mset] arg_cong [OF bin, of length] by (simp add: binary_def verdicts_def)
  obtain perm where perm: "lab_permutation_test A ?pairs seed 4000 = Some perm" "in_unit (lp_p_value perm)"
    using lab_permutation_total [OF bits, of 4000] by auto
  have unit: "in_unit (error_rate A ?pairs)" using len assms(1) by (intro error_rate_in_unit) simp
  obtain report where report: "analyze A seed control requested per wall server ok late bad plan records = Some report"
    "br_gap_summaries report = map fst parts" "br_bit_error_rate report = error_rate A ?pairs"
    "br_mutual_information_bits_per_trial report = mutual_information A (binary ?pairs)"
    "br_permutation_p_value report = lp_p_value perm"
    using parts(1) perm(1) assms(3,4) by (simp add: analyze_def Let_def lab_mutual_information_ok [OF bits])
  show ?thesis
    using report sums mset bin rate unit perm(2)
    by (intro exI [of _ report] conjI exI [of _ ?scored]) simp_all
qed

end

text \<open>C38: a campaign of the lab benchmark whose turns all succeed, with distinct gaps and at least one
  calibration trial per gap and bit, is always analysed, without a panic. The calibration has exactly the
  configured number of latencies for each gap and bit. There is one summary per gap, in ascending order, and
  its counts, its error rate and its mutual information are those of exactly the trials of that gap after the
  calibration, each decoded with the threshold of the calibration trials; the error rate and the mutual information of
  the report are those of all trials after the calibration, each counted once. The error rate and the p-value
  are numbers between zero and one.\<close>

theorem lab_campaign_scores_every_trial:
  assumes "lab_build_trial_plan seed trials gaps per = Some plan" "gaps \<noteq> []" "distinct gaps" "0 < per"
    and "length plan \<le> 2 ^ 53" and "run_trials E args 0 plan h = (Inr records, h')"
    and "n = length gaps * unat per * 2"
  shows "\<exists>report. analyze (ieee log2) seed control requested per wall server ok late bad plan records = Some report \<and>
    list_all2 (summarises (ieee log2) (take n records) (drop n records)) (sort gaps) (br_gap_summaries report) \<and>
    (\<exists>scored. mset scored = mset (drop n records) \<and>
       br_mutual_information_bits_per_trial report =
         mutual_information (ieee log2) (verdicts (ieee log2) (take n records) scored) \<and>
       br_bit_error_rate report =
         (if drop n records = [] then Fin 0
          else fdiv (ieee log2) (of_int64 (ieee log2) (wrong (verdicts (ieee log2) (take n records) (drop n records))))
                 (of_int64 (ieee log2) (length (drop n records))))) \<and>
    list_all in_unit [br_bit_error_rate report, br_permutation_p_value report] \<and>
    (\<forall>gap \<in> set gaps. \<forall>b \<in> {0, 1}. length (calibration_latencies (ieee log2) (take n records) gap b) = unat per)"
proof -
  obtain cal out where plan: "plan = cal @ out" "plan_parts (unat per) gaps cal out"
    using lab_build_trial_plan_parts [OF assms(2), of seed trials per] assms(1) by auto
  have per: "0 < unat per" using assms(4) by (simp add: word_less_nat_alt)
  note gs = server_gaps_distinct_gaps [OF plan(2) assms(3) per, folded plan(1)]
  note cal = plan_parts_length [OF plan(2)]
  have match: "map planned_of records = plan" by (rule run_trials_planned [OF assms(6)])
  then have len: "length records = length plan" by auto
  have "re_expected_bit r \<le> 1 \<and> re_gap_us r \<in> set (server_gaps plan)" if "r \<in> set records" for r
  proof -
    have "planned_of r \<in> set plan" using that match by auto
    then have "plan_bit (planned_of r) \<le> 1" "plan_offset (planned_of r) \<in> set gaps"
      using plan_parts_bits [OF plan(2), of "planned_of r"] plan_parts_offsets [OF plan(2)] plan(1) by auto
    then show ?thesis using gs by (simp add: planned_of_def)
  qed
  note later = this
  have sorted: "server_gaps plan = sort gaps"
    using gs assms(3) by (intro sorted_distinct_set_unique) (simp_all add: server_gaps_def sorted_dedup_def)
  have n: "length (server_gaps plan) * unat per * 2 = n" "n \<le> length records"
    using gs assms(7) len cal plan(1) by simp_all
  have "length (calibration_latencies (ieee log2) (take n records) gap b) = unat per"
    if "gap \<in> set gaps" "b \<in> {0, 1}" for gap b
  proof -
    have "map planned_of (take n records) = cal" using match cal plan(1) assms(7) by (simp flip: take_map)
    then show ?thesis
      using plan_parts_count [OF plan(2) assms(3) that] by (simp add: calibration_latencies_def length_filter_planned)
  qed
  moreover have "length records \<le> 2 ^ 53" using len assms(5) by simp
  ultimately show ?thesis
    using ieee.analyze_total [OF _ later n, of log2 seed control requested wall server ok late bad] sorted by auto
qed

lemma run_trials_total:
  assumes "\<And>h. lab_send_turn E h = Inr ()"
  shows "\<exists>records h'. run_trials E args t plan h = (Inr records, h')"
proof (induction plan arbitrary: t h)
  case (Cons planned plan)
  obtain r h2 where "run_trial E args t planned h = (Inr r, h2)"
    using assms by (simp add: run_trial_def Let_def)
  moreover obtain records h' where "run_trials E args (Suc t) plan h2 = (Inr records, h')" using Cons.IH by blast
  ultimately show ?case by simp
qed simp

definition quiet_env :: lab_bench_env where
  "quiet_env = \<lparr>le_health = \<lambda>_. Inl '''', le_turn = \<lambda>_. Inr (200, Inr NORMALIZED_BODY), le_now = length, le_write = \<lambda>_. Inr ()\<rparr>"

theorem lab_campaign_scores_every_trial_witness:
  "\<forall>args server. \<exists>plan records h report. lab_build_trial_plan 1 40 [50, 0] 5 = Some plan \<and>
     run_trials quiet_env args 0 plan [] = (Inr records, h) \<and>
     analyze (ieee (\<lambda>x. Fin (log 2 x))) 1 False 40 5 0 server 80 0 0 plan records = Some report \<and>
     list_all2 (summarises (ieee (\<lambda>x. Fin (log 2 x))) (take 20 records) (drop 20 records)) [0, 50] (br_gap_summaries report)"
proof (intro allI)
  fix args server
  obtain plan where p: "lab_build_trial_plan 1 40 [50, 0] 5 = Some plan" "length plan = 40"
    using lab_build_trial_plan_parts [of "[50, 0]" 1 40 5] by auto
  have "lab_send_turn quiet_env h = Inr ()" for h by (simp add: lab_send_turn_def quiet_env_def)
  then obtain records h where r: "run_trials quiet_env args 0 plan [] = (Inr records, h)"
    using run_trials_total by blast
  have "length plan \<le> 2 ^ 53" "0 < (5 :: usize)" using p(2) by simp_all
  from lab_campaign_scores_every_trial [OF p(1) _ _ this(2) this(1) r refl,
      of "\<lambda>x. Fin (log 2 x)" False 40 0 server 80 0 0] p(1) r
  show "\<exists>plan records h report. lab_build_trial_plan 1 40 [50, 0] 5 = Some plan \<and>
     run_trials quiet_env args 0 plan [] = (Inr records, h) \<and>
     analyze (ieee (\<lambda>x. Fin (log 2 x))) 1 False 40 5 0 server 80 0 0 plan records = Some report \<and>
     list_all2 (summarises (ieee (\<lambda>x. Fin (log 2 x))) (take 20 records) (drop 20 records)) [0, 50] (br_gap_summaries report)"
    by auto
qed

end
