(* ===== verification/Lab_Stream_Bench.thy ===== *)
theory Lab_Stream_Bench
  imports Lab_Stream Lab_Bench "HOL-Library.Product_Lexorder"
begin

text \<open>
  The stream benchmark of the lab, module \<open>stream_benchmark\<close> of \<open>crates/sequential-lab/src/main.rs\<close>:
  sessions that send chunks of a fixed text at a given rate, the accounting of what happened to every
  offered chunk, and the comparison of the server's streams with what was acknowledged. Every session
  runs concurrently with the others in an environment of its own, which answers from the requests the
  session has sent.
\<close>

section \<open>Records and reports\<close>

record stream_chunk_record =
  sk_session_slot :: u16
  sk_sequence :: u64
  sk_scheduled_offset_us :: u64
  sk_request_offset_us :: u64
  sk_latency_us :: u64
  sk_outcome :: string
  sk_queue_wait_us :: "u64 option"
  sk_execution_us :: "u64 option"

text \<open>The three percentiles of a metric are a triple: 50, 95 and 99 percent.\<close>

record stream_scenario_report =
  ss_session_count :: nat
  ss_target_chunks_per_second :: f64
  ss_duration_ms :: u64
  ss_offered_chunks :: nat
  ss_attempted_chunks :: nat
  ss_completed_chunks :: nat
  ss_throttled_chunks :: nat
  ss_server_throttled_chunks :: nat
  ss_client_backpressured_chunks :: nat
  ss_failed_chunks :: nat
  ss_min_completed_per_session :: nat
  ss_max_completed_per_session :: nat
  ss_achieved_chunks_per_second :: f64
  ss_completion_ratio :: f64
  ss_latency :: "u64 \<times> u64 \<times> u64"
  ss_queue_wait :: "u64 \<times> u64 \<times> u64"
  ss_execution :: "u64 \<times> u64 \<times> u64"
  ss_verified_sessions :: nat
  ss_state_mismatches :: nat
  ss_records :: "stream_chunk_record list"

record stream_benchmark_report =
  sb_schema_version :: u32
  sb_chunk_bytes :: usize
  sb_duration_secs :: u64
  sb_lorem_sha256 :: string
  sb_server :: lab_health_response
  sb_scenarios :: "stream_scenario_report list"

record stream_bench_args =
  sg_base_url :: string
  sg_token :: string
  sg_session_counts :: "usize list"
  sg_chunk_rates :: "f64 list"
  sg_duration_secs :: u64
  sg_chunk_bytes :: usize
  sg_output :: string

record session_run =
  sr_records :: "stream_chunk_record list"
  sr_expected :: bytes
  sr_completed :: nat
  sr_server_throttled :: nat
  sr_client_backpressured :: nat
  sr_failed :: nat

section \<open>Text and schedule\<close>

definition LOREM :: bytes where
  "LOREM = as_bytes ''Lorem ipsum dolor sit amet, consectetur adipiscing elit, sed do eiusmod tempor incididunt ut labore et dolore magna aliqua. ''"

definition lorem_chunk :: "nat \<Rightarrow> nat \<Rightarrow> bytes" where
  "lorem_chunk sequence bytes =
     (let start = sequence * bytes mod length LOREM
      in map (\<lambda>offset. LOREM ! ((start + offset) mod length LOREM)) [0..<bytes])"

text \<open>\<open>(low..high).step_by(step)\<close>, for a positive step.\<close>

function step_range :: "nat \<Rightarrow> nat \<Rightarrow> nat \<Rightarrow> nat list" where
  "step_range low high step =
     (if low < high \<and> 0 < step then low # step_range (low + step) high step else [])"
  by auto
termination by (relation "measure (\<lambda>(low, high, step). high - low)") auto

declare step_range.simps [simp del]

text \<open>A number of seconds as a duration, rounded to the nearest nanosecond with ties to even; values that
  are negative, too large or not finite are a panic.\<close>

fun from_secs_f64 :: "f64 \<Rightarrow> duration option" where
  "from_secs_f64 (Fin a) =
     (if 0 \<le> a \<and> a < 2 ^ 64 then Some (nat (rne (a * of_nat nanos_per_sec))) else None)"
| "from_secs_f64 _ = None"

section \<open>One session\<close>

text \<open>A chunk request ends with a transport error, or a status and a decoded body. The clock is read from the
  requests sent so far; \<open>sleep_until\<close> has no other effect than on the clock.\<close>

record stream_env_t =
  sv_chunk :: "stream_chunk_request list \<Rightarrow> error + u16 \<times> (error + stream_chunk_response)"
  sv_request_started :: "stream_chunk_request list \<Rightarrow> instant"
  sv_answered :: "stream_chunk_request list \<Rightarrow> instant"
  sv_available :: "stream_chunk_request list \<Rightarrow> instant"

record session_state =
  se_run :: session_run
  se_next_sequence :: nat
  se_available_at :: instant
  se_requests :: "stream_chunk_request list"

definition push_record :: "stream_chunk_record \<Rightarrow> session_state \<Rightarrow> session_state" where
  "push_record r s = s\<lparr>se_run := (se_run s)\<lparr>sr_records := sr_records (se_run s) @ [r]\<rparr>\<rparr>"

definition client_backpressure :: "u16 \<Rightarrow> duration \<Rightarrow> session_state \<Rightarrow> session_state" where
  "client_backpressure slot scheduled_offset s =
     push_record \<lparr>sk_session_slot = slot, sk_sequence = of_nat (se_next_sequence s),
        sk_scheduled_offset_us = as_micros scheduled_offset, sk_request_offset_us = 0, sk_latency_us = 0,
        sk_outcome = ''client_backpressure'', sk_queue_wait_us = None, sk_execution_us = None\<rparr>
       (s\<lparr>se_run := (se_run s)\<lparr>sr_client_backpressured := sr_client_backpressured (se_run s) + 1\<rparr>\<rparr>)"

definition chunk_answered ::
    "u16 \<Rightarrow> duration \<Rightarrow> instant \<Rightarrow> instant \<Rightarrow> instant \<Rightarrow> bytes \<Rightarrow> u16 \<times> (error + stream_chunk_response) \<Rightarrow> session_state
     \<Rightarrow> error + session_state" where
  "chunk_answered slot scheduled_offset started request_started answered chunk response s =
     (let run = se_run s; offset = as_micros (request_started - started); latency = as_micros (answered - request_started)
      in if fst response = 429
         then Inr (push_record \<lparr>sk_session_slot = slot, sk_sequence = of_nat (se_next_sequence s),
                sk_scheduled_offset_us = as_micros scheduled_offset, sk_request_offset_us = offset,
                sk_latency_us = latency, sk_outcome = ''server_throttled'', sk_queue_wait_us = None,
                sk_execution_us = None\<rparr>
               (s\<lparr>se_run := run\<lparr>sr_server_throttled := sr_server_throttled run + 1\<rparr>\<rparr>))
         else if 400 \<le> fst response \<and> fst response < 600 then Inl ''stream chunk rejected''
         else try_bind (snd response) (\<lambda>body.
           Inr (push_record \<lparr>sk_session_slot = slot, sk_sequence = resp_sequence body,
                sk_scheduled_offset_us = as_micros scheduled_offset, sk_request_offset_us = offset,
                sk_latency_us = latency, sk_outcome = outcome body, sk_queue_wait_us = Some (queue_wait_us body),
                sk_execution_us = Some (execution_us body)\<rparr>
               (if outcome body = ''complete''
                then s\<lparr>se_run := run\<lparr>sr_expected := sr_expected run @ map to_ascii_uppercase chunk,
                                      sr_completed := sr_completed run + 1\<rparr>,
                       se_next_sequence := se_next_sequence s + 1\<rparr>
                else s\<lparr>se_run := run\<lparr>sr_failed := sr_failed run + 1\<rparr>\<rparr>))))"

definition session_step ::
    "stream_env_t \<Rightarrow> arith \<Rightarrow> u16 \<Rightarrow> nat \<Rightarrow> f64 \<Rightarrow> instant \<Rightarrow> nat \<Rightarrow> session_state \<Rightarrow> error + session_state" where
  "session_step E A slot chunk_bytes target_rate started global_index s =
     try_bind (ok_or (from_secs_f64 (fdiv A (of_int64 A global_index) target_rate)) ''panic'') (\<lambda>scheduled_offset.
       if started + scheduled_offset < se_available_at s then Inr (client_backpressure slot scheduled_offset s)
       else let chunk = lorem_chunk (se_next_sequence s) chunk_bytes;
                request = \<lparr>cr_session_slot = slot, cr_sequence = of_nat (se_next_sequence s), cr_chunk = chunk\<rparr>;
                requests = se_requests s @ [request]
            in try_bind (sv_chunk E requests) (\<lambda>response.
                 chunk_answered slot scheduled_offset started (sv_request_started E requests) (sv_answered E requests)
                   chunk response
                   (s\<lparr>se_requests := requests, se_available_at := sv_available E requests\<rparr>)))"

fun session_loop ::
    "stream_env_t \<Rightarrow> arith \<Rightarrow> u16 \<Rightarrow> nat \<Rightarrow> f64 \<Rightarrow> instant \<Rightarrow> nat list \<Rightarrow> session_state \<Rightarrow> error + session_state" where
  "session_loop E A slot chunk_bytes target_rate started [] s = Inr s"
| "session_loop E A slot chunk_bytes target_rate started (i # indices) s =
     try_bind (session_step E A slot chunk_bytes target_rate started i s)
       (session_loop E A slot chunk_bytes target_rate started indices)"

definition initial_session :: "nat \<Rightarrow> instant \<Rightarrow> session_state" where
  "initial_session omitted_for_capacity started =
     \<lparr>se_run = \<lparr>sr_records = [], sr_expected = [], sr_completed = 0, sr_server_throttled = 0,
                sr_client_backpressured = omitted_for_capacity, sr_failed = 0\<rparr>,
      se_next_sequence = 0, se_available_at = started, se_requests = []\<rparr>"

definition run_session ::
    "stream_env_t \<Rightarrow> arith \<Rightarrow> u16 \<Rightarrow> nat list \<Rightarrow> nat \<Rightarrow> nat \<Rightarrow> f64 \<Rightarrow> instant \<Rightarrow> error + u16 \<times> session_run" where
  "run_session E A slot indices omitted_for_capacity chunk_bytes target_rate started =
     try_bind (session_loop E A slot chunk_bytes target_rate started indices
                 (initial_session omitted_for_capacity started))
       (\<lambda>s. Inr (slot, se_run s))"

section \<open>One scenario\<close>

fun ffloor :: "f64 \<Rightarrow> f64" where
  "ffloor (Fin a) = Fin (of_int \<lfloor>a\<rfloor>)"
| "ffloor x = x"

definition offered_chunks :: "arith \<Rightarrow> u64 \<Rightarrow> f64 \<Rightarrow> nat" where
  "offered_chunks A duration_secs target_rate =
     max (as_usize (ffloor (fmul A (of_int64 A (unat duration_secs)) target_rate))) 1"

definition session_indices :: "nat \<Rightarrow> nat \<Rightarrow> nat \<Rightarrow> nat \<Rightarrow> nat list" where
  "session_indices sessions offered max_chunks slot = take max_chunks (step_range slot offered sessions)"

definition omitted_for_capacity :: "nat \<Rightarrow> nat \<Rightarrow> nat \<Rightarrow> nat \<Rightarrow> nat" where
  "omitted_for_capacity sessions offered max_chunks slot =
     length (step_range slot offered sessions) - length (session_indices sessions offered max_chunks slot)"

text \<open>The environment of a scenario: one per session, the order in which the sessions complete, the
  states that the server reports afterwards, the hash, and the clock.\<close>

record scenario_env =
  sn_session :: "nat \<Rightarrow> stream_env_t"
  sn_rank :: "nat \<Rightarrow> nat"
  sn_state :: "nat \<Rightarrow> error + stream_state_response"
  sn_digest :: "bytes \<Rightarrow> string"
  sn_started :: instant
  sn_elapsed :: duration

definition scenario_session ::
    "scenario_env \<Rightarrow> arith \<Rightarrow> stream_bench_args \<Rightarrow> nat \<Rightarrow> f64 \<Rightarrow> nat \<Rightarrow> nat \<Rightarrow> error + u16 \<times> session_run" where
  "scenario_session E A args sessions target_rate max_chunks slot =
     (let offered = offered_chunks A (sg_duration_secs args) target_rate
      in run_session (sn_session E slot) A (of_nat slot) (session_indices sessions offered max_chunks slot)
           (omitted_for_capacity sessions offered max_chunks slot) (unat (sg_chunk_bytes args)) target_rate
           (sn_started E))"

fun join_sessions :: "(nat \<Rightarrow> error + 'a) \<Rightarrow> nat list \<Rightarrow> error + 'a list" where
  "join_sessions result [] = Inr []"
| "join_sessions result (i # is) =
     try_bind (result i) (\<lambda>r. try_bind (join_sessions result is) (\<lambda>rs. Inr (r # rs)))"

definition is_complete :: "nat \<Rightarrow> stream_chunk_record \<Rightarrow> bool" where
  "is_complete slot r \<longleftrightarrow> unat (sk_session_slot r) = slot \<and> sk_outcome r = ''complete''"

definition session_verified ::
    "(bytes \<Rightarrow> string) \<Rightarrow> stream_chunk_record list \<Rightarrow> nat \<Rightarrow> bytes \<Rightarrow> stream_state_response \<Rightarrow> bool" where
  "session_verified digest records slot expected actual \<longleftrightarrow>
     state_sha256 actual = digest expected \<and> unat (state_len actual) = length expected \<and>
     unat (state_chunks actual) = length (filter (is_complete slot) records)"

definition sorted_metric ::
    "stream_chunk_record list \<Rightarrow> (stream_chunk_record \<Rightarrow> u64 option) \<Rightarrow> u64 list" where
  "sorted_metric records get = sort (map the (filter (\<lambda>v. v \<noteq> None) (map get records)))"

definition metric_percentiles :: "arith \<Rightarrow> u64 list \<Rightarrow> error + u64 \<times> u64 \<times> u64" where
  "metric_percentiles A values =
     try_bind (ok_or (percentile_u64 A values 0.50) ''panic'') (\<lambda>p50.
     try_bind (ok_or (percentile_u64 A values 0.95) ''panic'') (\<lambda>p95.
     try_bind (ok_or (percentile_u64 A values 0.99) ''panic'') (\<lambda>p99.
       Inr (p50, p95, p99))))"

definition expected_of :: "(u16 \<times> session_run) list \<Rightarrow> nat \<Rightarrow> bytes" where
  "expected_of results slot =
     (case find (\<lambda>(k, _). unat k = slot) results of None \<Rightarrow> [] | Some (_, run) \<Rightarrow> sr_expected run)"

definition list_min :: "nat list \<Rightarrow> nat" where
  "list_min xs = (case xs of [] \<Rightarrow> 0 | y # ys \<Rightarrow> fold min ys y)"

definition list_max :: "nat list \<Rightarrow> nat" where
  "list_max xs = fold max xs 0"

definition run_scenario ::
    "scenario_env \<Rightarrow> arith \<Rightarrow> stream_bench_args \<Rightarrow> nat \<Rightarrow> f64 \<Rightarrow> nat \<Rightarrow> error + stream_scenario_report" where
  "run_scenario E A args sessions target_rate max_chunks =
     (let offered = offered_chunks A (sg_duration_secs args) target_rate in
      try_bind (join_sessions (scenario_session E A args sessions target_rate max_chunks)
                  (sort_key (sn_rank E) [0..<sessions])) (\<lambda>results.
      let joined = concat (map (sr_records \<circ> snd) results);
          attempted = length (filter (\<lambda>r. sk_outcome r \<noteq> ''client_backpressure'') joined);
          total = (\<lambda>f. sum_list (map (f \<circ> snd) results));
          completed = total sr_completed;
          server_throttled = total sr_server_throttled;
          backpressured = total sr_client_backpressured;
          wall_time = max (sn_elapsed E) (unat (sg_duration_secs args) * nanos_per_sec);
          records = sort_key (\<lambda>r. (sk_scheduled_offset_us r, sk_session_slot r)) joined
      in
      try_bind (join_sessions (\<lambda>slot. map_sum id (session_verified (sn_digest E) records slot (expected_of results slot))
                                        (sn_state E slot)) [0..<sessions]) (\<lambda>verified.
      try_bind (metric_percentiles A (sorted_metric records
                  (\<lambda>r. if sk_outcome r = ''complete'' then Some (sk_latency_us r) else None))) (\<lambda>latency.
      try_bind (metric_percentiles A (sorted_metric records sk_queue_wait_us)) (\<lambda>queue_wait.
      try_bind (metric_percentiles A (sorted_metric records sk_execution_us)) (\<lambda>execution.
      let per_session = map (\<lambda>slot. length (filter (is_complete slot) records)) [0..<sessions];
          elapsed = as_secs_f64 A wall_time
      in Inr \<lparr>ss_session_count = sessions, ss_target_chunks_per_second = target_rate,
              ss_duration_ms = of_nat (wall_time div 1000000), ss_offered_chunks = offered,
              ss_attempted_chunks = attempted, ss_completed_chunks = completed,
              ss_throttled_chunks = server_throttled + backpressured,
              ss_server_throttled_chunks = server_throttled, ss_client_backpressured_chunks = backpressured,
              ss_failed_chunks = total sr_failed, ss_min_completed_per_session = list_min per_session,
              ss_max_completed_per_session = list_max per_session,
              ss_achieved_chunks_per_second =
                (if flt (Fin 0) elapsed then fdiv A (of_int64 A completed) elapsed else Fin 0),
              ss_completion_ratio = fdiv A (of_int64 A completed) (of_int64 A offered),
              ss_latency = latency, ss_queue_wait = queue_wait, ss_execution = execution,
              ss_verified_sessions = length (filter id verified),
              ss_state_mismatches = length (filter Not verified), ss_records = records\<rparr>))))))"

section \<open>The benchmark\<close>

definition stream_bench_checks :: "stream_bench_args \<Rightarrow> error + unit" where
  "stream_bench_checks args =
     ensure (\<not> (length (sg_token args) < 16 \<or> sg_session_counts args = [] \<or> sg_chunk_rates args = [] \<or>
               sg_duration_secs args = 0 \<or> sg_chunk_bytes args = 0 \<or> MAX_CHUNK_BYTES < sg_chunk_bytes args \<or>
               list_ex (\<lambda>rate. \<not> is_finite rate \<or> fle rate (Fin 0)) (sg_chunk_rates args)))
       ''invalid stream benchmark arguments''"

text \<open>The scenarios in the order of the two nested loops; each one is preceded by a reset, whose answer must be
  the normalised body.\<close>

fun run_scenarios ::
    "(nat \<Rightarrow> scenario_env) \<Rightarrow> (nat \<Rightarrow> error + string) \<Rightarrow> arith \<Rightarrow> stream_bench_args \<Rightarrow> nat \<Rightarrow> nat \<Rightarrow> (usize \<times> f64) list
     \<Rightarrow> error + stream_scenario_report list" where
  "run_scenarios E reset A args max_chunks i [] = Inr []"
| "run_scenarios E reset A args max_chunks i ((n, rate) # scenarios) =
     try_bind (reset i) (\<lambda>body.
     try_bind (ensure (body = NORMALIZED_BODY) ''stream reset response was not normalized'') (\<lambda>_.
     try_bind (run_scenario (E i) A args (unat n) rate max_chunks) (\<lambda>scenario.
     try_bind (run_scenarios E reset A args max_chunks (Suc i) scenarios) (\<lambda>rest.
       Inr (scenario # rest)))))"

text \<open>\<open>write\<close> creates the directory of the output file and writes the report into it.\<close>

definition stream_bench ::
    "(nat \<Rightarrow> scenario_env) \<Rightarrow> (nat \<Rightarrow> error + string) \<Rightarrow> (error + lab_health_response) \<Rightarrow> (bytes \<Rightarrow> string)
     \<Rightarrow> (stream_benchmark_report \<Rightarrow> error + unit) \<Rightarrow> arith \<Rightarrow> stream_bench_args \<Rightarrow> error + stream_benchmark_report" where
  "stream_bench E reset health_answer digest write A args =
     try_bind (stream_bench_checks args) (\<lambda>_.
     try_bind health_answer (\<lambda>server.
     try_bind (ensure (\<not> list_ex (\<lambda>n. n = 0 \<or> lh_session_slots server < n) (sg_session_counts args))
                 (''session counts must be within 1..='' @ word_to_string (lh_session_slots server))) (\<lambda>_.
     let max_chunks = unat (lh_stream_state_bytes server) div unat (sg_chunk_bytes args) in
     try_bind (ensure (max_chunks \<noteq> 0) ''chunk size exceeds stream state capacity'') (\<lambda>_.
     try_bind (run_scenarios E reset A args max_chunks 0
                 (List.product (sg_session_counts args) (sg_chunk_rates args))) (\<lambda>scenarios.
     let report = \<lparr>sb_schema_version = 1, sb_chunk_bytes = sg_chunk_bytes args,
                   sb_duration_secs = sg_duration_secs args, sb_lorem_sha256 = digest LOREM,
                   sb_server = server, sb_scenarios = scenarios\<rparr>
     in try_bind (write report) (\<lambda>_. Inr report))))))"

section \<open>What a session counts\<close>

text \<open>The state of a session after \<open>n\<close> of its indices.\<close>

definition session_inv :: "u16 \<Rightarrow> nat \<Rightarrow> nat \<Rightarrow> nat \<Rightarrow> session_state \<Rightarrow> bool" where
  "session_inv slot chunk_bytes omitted n s \<longleftrightarrow>
     (let run = se_run s in
      length (sr_records run) = n \<and> length (filter (is_complete (unat slot)) (sr_records run)) = sr_completed run \<and>
      sr_completed run + sr_server_throttled run + sr_client_backpressured run + sr_failed run = n + omitted \<and>
      se_next_sequence s = sr_completed run \<and>
      sr_expected run = map to_ascii_uppercase (concat (map (\<lambda>k. lorem_chunk k chunk_bytes) [0..<sr_completed run])))"

lemma backpressure_inv:
  "session_inv slot chunk_bytes omitted n s \<Longrightarrow> session_inv slot chunk_bytes omitted (Suc n) (client_backpressure slot offset s)"
  by (simp add: client_backpressure_def push_record_def session_inv_def Let_def is_complete_def)

lemma chunk_answered_inv:
  assumes inv: "session_inv slot chunk_bytes omitted n s"
    and ans: "chunk_answered slot offset started t u (lorem_chunk (se_next_sequence s) chunk_bytes) response s = Inr s'"
  shows "session_inv slot chunk_bytes omitted (Suc n) s'"
proof (cases "fst response = 429")
  case True
  then show ?thesis
    using ans inv by (simp add: chunk_answered_def Let_def) (auto simp: push_record_def session_inv_def Let_def is_complete_def)
next
  case False
  then obtain body where "snd response = Inr body"
    using ans by (auto simp: chunk_answered_def Let_def result_simps split: if_splits)
  then show ?thesis
    using ans inv False
    by (cases "outcome body = ''complete''"; cases "400 \<le> fst response \<and> fst response < 600")
      (simp_all add: chunk_answered_def Let_def, auto simp: push_record_def session_inv_def Let_def is_complete_def)
qed

lemma session_step_inv:
  assumes "session_inv slot chunk_bytes omitted n s" "session_step E A slot chunk_bytes rate started i s = Inr s'"
  shows "session_inv slot chunk_bytes omitted (Suc n) s'"
proof -
  obtain offset where off: "from_secs_f64 (fdiv A (of_int64 A i) rate) = Some offset"
    using assms(2) by (auto simp: session_step_def result_simps)
  show ?thesis
  proof (cases "started + offset < se_available_at s")
    case True
    then show ?thesis using assms off by (auto simp: session_step_def intro: backpressure_inv)
  next
    case False
    have keep: "session_inv slot chunk_bytes omitted n (s\<lparr>se_requests := qs, se_available_at := t\<rparr>)" for qs t
      using assms(1) by (simp add: session_inv_def)
    show ?thesis
      using assms(2) off False chunk_answered_inv [OF keep] by (auto simp: session_step_def Let_def result_simps)
  qed
qed

lemma session_loop_inv:
  "session_inv slot chunk_bytes omitted n s \<Longrightarrow> session_loop E A slot chunk_bytes rate started indices s = Inr s' \<Longrightarrow>
   session_inv slot chunk_bytes omitted (n + length indices) s'"
proof (induction indices arbitrary: n s)
  case (Cons i indices)
  then obtain s1 where "session_step E A slot chunk_bytes rate started i s = Inr s1"
    "session_loop E A slot chunk_bytes rate started indices s1 = Inr s'"
    by (auto simp: result_simps)
  with Cons.IH [of "Suc n" s1] session_step_inv [OF Cons.prems(1)] show ?case by simp
qed simp

lemma run_session_accounts:
  assumes "run_session E A slot indices omitted chunk_bytes rate started = Inr (k, run)"
  shows "k = slot \<and> length (sr_records run) = length indices \<and>
    length (filter (is_complete (unat slot)) (sr_records run)) = sr_completed run \<and>
    sr_completed run + sr_server_throttled run + sr_client_backpressured run + sr_failed run = length indices + omitted \<and>
    sr_expected run = map to_ascii_uppercase (concat (map (\<lambda>j. lorem_chunk j chunk_bytes) [0..<sr_completed run]))"
proof -
  have "session_inv slot chunk_bytes omitted 0 (initial_session omitted started)"
    by (simp add: session_inv_def initial_session_def Let_def is_complete_def)
  then show ?thesis
    using assms session_loop_inv [of slot chunk_bytes omitted 0 "initial_session omitted started"]
    by (fastforce simp: run_session_def result_simps session_inv_def Let_def)
qed

section \<open>Every offered chunk is accounted for\<close>

lemma upt_split: "a \<le> b \<Longrightarrow> b \<le> c \<Longrightarrow> [a..<c] = [a..<b] @ [b..<c]"
  using upt_add_eq_append [of a b "c - b"] by simp

lemma step_range_mod:
  assumes "0 < step" "low mod step = slot"
  shows "step_range low high step = filter (\<lambda>i. i mod step = slot) [low..<high]"
  using assms
proof (induction "high - low" arbitrary: low rule: less_induct)
  case less
  show ?case
  proof (cases "low < high")
    case False
    then show ?thesis by (simp add: step_range.simps)
  next
    case True
    have gap: "filter (\<lambda>i. i mod step = slot) [Suc low..<min high (low + step)] = []"
    proof -
      have "i mod step \<noteq> slot" if "low < i" "i < low + step" for i
      proof
        assume "i mod step = slot"
        then have "(i - low) mod step = 0" using that less.prems(2) mod_eq_dvd_iff_nat [of low i step] by (simp add: dvd_imp_mod_0 flip: )
        then show False using that by (simp add: mod_eq_0_iff_dvd nat_dvd_not_less)
      qed
      then show ?thesis by (auto simp: filter_empty_conv)
    qed
    have "step_range (low + step) high step = filter (\<lambda>i. i mod step = slot) [low + step..<high]"
      using less.prems True by (intro less.hyps) auto
    moreover have "[low..<high] = low # [Suc low..<min high (low + step)] @ [low + step..<high]"
    proof (cases "low + step \<le> high")
      case True
      then show ?thesis using less.prems(1) upt_split [of "Suc low" "low + step" high]
        by (simp add: upt_conv_Cons min_def)
    next
      case False
      then show ?thesis using \<open>low < high\<close> by (simp add: upt_conv_Cons min_def)
    qed
    ultimately show ?thesis using True less.prems gap by (simp add: step_range.simps [of low])
  qed
qed

lemma total_offered:
  assumes "0 < sessions"
  shows "sum_list (map (\<lambda>slot. length (step_range slot offered sessions)) [0..<sessions]) = offered"
proof -
  have "length (step_range slot offered sessions) = length (filter (\<lambda>i. i mod sessions = slot) [0..<offered])"
    if "slot < sessions" for slot
  proof -
    have "filter (\<lambda>i. i mod sessions = slot) [0..<min slot offered] = []"
      using that by (auto simp: filter_empty_conv)
    moreover have "[0..<offered] = [0..<min slot offered] @ [slot..<offered]"
      using upt_split [of 0 slot offered] by (auto simp: min_def)
    ultimately show ?thesis using step_range_mod [of sessions slot slot offered] that by simp
  qed
  then have eq: "map (\<lambda>slot. length (step_range slot offered sessions)) [0..<sessions] =
      map (\<lambda>slot. length (filter (\<lambda>i. i mod sessions = slot) [0..<offered])) [0..<sessions]"
    by (intro map_cong) auto
  show ?thesis
    unfolding eq using sum_filters [of "[0..<sessions]" "[0..<offered]" "\<lambda>i. i mod sessions"] assms by simp
qed

lemma join_sessions_all2: "join_sessions f is = Inr rs \<Longrightarrow> list_all2 (\<lambda>i r. f i = Inr r) is rs"
  by (induction "is" arbitrary: rs) (auto simp: result_simps)

lemma sum_list_all2: "list_all2 R xs ys \<Longrightarrow> (\<And>x y. R x y \<Longrightarrow> g y = h x) \<Longrightarrow> sum_list (map g ys) = sum_list (map h xs)"
  by (induction rule: list_all2_induct) auto

text \<open>C39: the report of a scenario accounts for every offered chunk: completed, throttled by the server, held
  back by the client (for back-pressure or for want of capacity) and failed chunks add up to the number
  offered, and every session is either verified or reported as a mismatch.\<close>

theorem scenario_accounts_for_every_chunk:
  assumes "run_scenario E A args sessions rate max_chunks = Inr report" and "0 < sessions"
  shows "ss_completed_chunks report + ss_server_throttled_chunks report + ss_client_backpressured_chunks report +
      ss_failed_chunks report = ss_offered_chunks report \<and>
    ss_throttled_chunks report = ss_server_throttled_chunks report + ss_client_backpressured_chunks report \<and>
    ss_verified_sessions report + ss_state_mismatches report = sessions"
proof -
  let ?offered = "offered_chunks A (sg_duration_secs args) rate" and ?order = "sort_key (sn_rank E) [0..<sessions]"
  obtain results verified check where
    r: "join_sessions (scenario_session E A args sessions rate max_chunks) ?order = Inr results"
    and v: "join_sessions check [0..<sessions] = Inr verified"
    and report: "ss_completed_chunks report = sum_list (map (sr_completed \<circ> snd) results)"
    "ss_server_throttled_chunks report = sum_list (map (sr_server_throttled \<circ> snd) results)"
    "ss_client_backpressured_chunks report = sum_list (map (sr_client_backpressured \<circ> snd) results)"
    "ss_failed_chunks report = sum_list (map (sr_failed \<circ> snd) results)"
    "ss_offered_chunks report = ?offered"
    "ss_throttled_chunks report = ss_server_throttled_chunks report + ss_client_backpressured_chunks report"
    "ss_verified_sessions report = length (filter id verified)" "ss_state_mismatches report = length (filter Not verified)"
    using assms(1)
    by (auto simp: run_scenario_def Let_def result_simps)
  have len: "length verified = sessions" using list_all2_lengthD [OF join_sessions_all2 [OF v]] by simp
  have each: "sr_completed (snd y) + sr_server_throttled (snd y) + sr_client_backpressured (snd y) + sr_failed (snd y) =
      length (step_range x ?offered sessions)" if "scenario_session E A args sessions rate max_chunks x = Inr y" for x y
    using that run_session_accounts [of "sn_session E x" A "of_nat x" _ _ _ rate "sn_started E" "fst y" "snd y"]
    by (fastforce simp: scenario_session_def Let_def omitted_for_capacity_def session_indices_def)
  have "ss_completed_chunks report + ss_server_throttled_chunks report + ss_client_backpressured_chunks report +
      ss_failed_chunks report =
      sum_list (map (\<lambda>y. sr_completed (snd y) + sr_server_throttled (snd y) + sr_client_backpressured (snd y) + sr_failed (snd y)) results)"
    by (simp add: report sum_list_addf comp_def)
  also have "\<dots> = sum_list (map (\<lambda>slot. length (step_range slot ?offered sessions)) ?order)"
    using join_sessions_all2 [OF r] each by (rule sum_list_all2)
  also have "\<dots> = sum_list (map (\<lambda>slot. length (step_range slot ?offered sessions)) [0..<sessions])"
    by (simp only: sum_mset_sum_list [symmetric] mset_map mset_sort)
  finally show ?thesis
    using total_offered [OF assms(2)] report(5-8) len sum_length_filter_compl [of id verified] by simp
qed

definition throttling_env :: scenario_env where
  "throttling_env =
     \<lparr>sn_session = \<lambda>_. \<lparr>sv_chunk = \<lambda>_. Inr (429, Inl ''''), sv_request_started = \<lambda>_. 0, sv_answered = \<lambda>_. 5, sv_available = \<lambda>_. 6\<rparr>,
      sn_rank = \<lambda>i. i, sn_state = \<lambda>_. Inr \<lparr>state_session_slot = 0, state_chunks = 0, state_len = 0, state_sha256 = ''''\<rparr>,
      sn_digest = \<lambda>_. '''', sn_started = 0, sn_elapsed = 0\<rparr>"

definition sample_stream_args :: stream_bench_args where
  "sample_stream_args =
     \<lparr>sg_base_url = '''', sg_token = ''0123456789abcdef'', sg_session_counts = [1], sg_chunk_rates = [Fin 1],
      sg_duration_secs = 1, sg_chunk_bytes = 4, sg_output = ''''\<rparr>"

theorem scenario_accounts_for_every_chunk_witness:
  "\<exists>report. run_scenario throttling_env exact sample_stream_args 1 (Fin 1) 8 = Inr report \<and>
     ss_completed_chunks report + ss_server_throttled_chunks report + ss_client_backpressured_chunks report +
       ss_failed_chunks report = ss_offered_chunks report \<and> ss_offered_chunks report = 1"
proof -
  have offered: "offered_chunks exact 1 (Fin 1) = 1" by (simp add: offered_chunks_def of_int64_def)
  have "rne 0 = 0" using rne_of_int [of 0] by simp
  then obtain report where "run_scenario throttling_env exact sample_stream_args 1 (Fin 1) 8 = Inr report"
    by (simp add: run_scenario_def scenario_session_def offered run_session_def session_indices_def
        omitted_for_capacity_def step_range.simps session_step_def chunk_answered_def initial_session_def push_record_def
        throttling_env_def sample_stream_args_def of_int64_def metric_percentiles_def sorted_metric_def
        percentile_u64_def Let_def)
  moreover from this have "ss_offered_chunks report = 1"
    by (auto simp: run_scenario_def Let_def result_simps offered sample_stream_args_def)
  ultimately show ?thesis
    using scenario_accounts_for_every_chunk [of throttling_env exact sample_stream_args 1 "Fin 1" 8 report] by auto
qed

section \<open>The sessions against the server of the lab\<close>

text \<open>C40: the comparison at the end of a scenario succeeds against the model of the service. If the chunks that
  the service stored in a session since its reset are those that the client saw completed, then the
  state that the service reports for it has the digest, the length and the number of chunks that the
  client expects.\<close>

theorem completed_session_is_verified:
  assumes "serve hex sha probe capitalize listen sargs = Inr s0" and "run_of (lab_step E) s0 es s"
    and "capitalizes E (stream_module (lab s0)) (lab_policy_of (lab s0))"
    and "unat slot < unat (sa_session_slots sargs)"
    and "run_session SE A slot indices omitted chunk_bytes rate started = Inr (k, run)"
    and "session_log (unat slot) (concat (map stream_ops es)) =
           map (\<lambda>j. lorem_chunk j chunk_bytes) [0..<sr_completed run]"
    and "stream_state hex sha token slot (lab s) = Some (Inr (State_reply actual))"
  shows "session_verified (hex \<circ> sha) (sr_records run) (unat slot) (sr_expected run) actual"
proof -
  let ?ss = "stream_sessions (lab s) ! unat slot"
  note run = run_session_accounts [OF assms(5)]
  have content: "accumulated ?ss = sr_expected run" "unat (next_sequence ?ss) = sr_completed run"
    using stream_content [OF assms(1-4)] run by (simp_all add: assms(6))
  have inv: "lab_inv s" by (rule reachable_lab_inv [OF assms(1,2)])
  have actual: "unat slot < length (stream_sessions (lab s))" "state_chunks actual = chunks ?ss"
    "state_len actual = of_nat (length (accumulated ?ss))" "state_sha256 actual = hex (sha (accumulated ?ss))"
    using assms(7) by (auto simp: stream_state_def Let_def split: sum.splits if_splits)
  then have ok: "session_ok ?ss" using lab_invD(1) [OF inv] by (simp add: app_ok_def list_all_length)
  then have "unat (of_nat (length (accumulated ?ss)) :: usize) = length (accumulated ?ss)"
    by (simp add: session_ok_def unat_of_nat_less)
  then show ?thesis using ok content actual run by (simp add: session_verified_def session_ok_def)
qed

text \<open>One chunk of two bytes, acknowledged by the service.\<close>

definition acknowledging_env :: stream_env_t where
  "acknowledging_env =
     \<lparr>sv_chunk = \<lambda>_. Inr (200, Inr \<lparr>outcome = ''complete'', resp_session_slot = 1, resp_sequence = 0,
        accumulated_chunks = 1, accumulated_bytes = 2, queue_wait_us = 0, execution_us = 0\<rparr>),
      sv_request_started = \<lambda>_. 0, sv_answered = \<lambda>_. 5, sv_available = \<lambda>_. 6\<rparr>"

lemma sample_session:
  "\<exists>run. run_session acknowledging_env exact 1 [0] 0 2 (Fin 1) 0 = Inr (1, run) \<and> sr_completed run = 1"
proof -
  have "rne 0 = 0" using rne_of_int [of 0] by simp
  then show ?thesis
    by (simp add: run_session_def session_step_def chunk_answered_def initial_session_def push_record_def
        acknowledging_env_def of_int64_def Let_def)
qed

theorem completed_session_is_verified_witness:
  "\<exists>run actual.
     run_session acknowledging_env exact 1 [0] 0 2 (Fin 1) 0 = Inr (1, run) \<and>
     session_verified ((\<lambda>_. []) \<circ> (\<lambda>bs. bs)) (sr_records run) 1 (sr_expected run) actual \<and> state_len actual = 2"
proof -
  let ?s = "finish_process 0 (Success [76, 79]) 0 (sample_lab [chunk_task (Running 0 []) (Some 0)] 0 1 0 0)"
  obtain run where run: "run_session acknowledging_env exact 1 [0] 0 2 (Fin 1) 0 = Inr (1, run)" "sr_completed run = 1"
    using sample_session by blast
  have lorem: "lorem_chunk 0 2 = [76, 111]"
    by (simp add: lorem_chunk_def LOREM_def as_bytes_def numeral_2_eq_2)
  obtain actual where actual:
    "stream_state (\<lambda>_. []) (\<lambda>bs. bs) (Some ''0123456789abcdef'') 1 (lab ?s) = Some (Inr (State_reply actual))"
    "state_len actual = 2"
    by (simp add: stream_state_def authorize_def sample_lab_def finish_process_def update_task_def count_result_def
        commit_result_def chunk_task_def sample_chunk_def serve_policy_def sample_serve_args_def Let_def)
  have "session_verified ((\<lambda>_. []) \<circ> (\<lambda>bs. bs)) (sr_records run) (unat (1 :: u16)) (sr_expected run) actual"
    using completed_session_is_verified [OF sample_serve sample_chunk_run stream_env_capitalizes _ run(1) _ actual(1)]
      run(2) lorem
    by (simp add: sample_serve_args_def)
  then show ?thesis using run(1) actual(2) by auto
qed

end
