(* ===== verification/Spec2Isabelle.thy ===== *)
theory Spec2Isabelle
  imports Healthcheck Bench_Guest Bench_Campaign Lab_Stream_Bench
begin

text \<open>
  \<^bold>\<open>A verification development for Ishtar Oxide.\<close>

  \<^bold>\<open>The program.\<close> Ishtar Oxide runs one untrusted core WebAssembly module inside an attested container.
  The repository has five crates under \<open>src/crates\<close>.

  \<^item> \<open>scheduler\<close> is the deployed service. At start-up it takes three secrets out of its environment, pulls
    one encrypted artifact, authenticates and decrypts it. Every admitted \<open>POST /v1/run\<close> gets a slot
    of fixed length, in which a fresh process (the same executable as \<open>__runner\<close>) confines itself and then
    executes the module; the outcome is discarded and every caller gets the same body at the deadline.
  \<^item> \<open>sequential-lab\<close> is a laboratory for the remaining timing channels: a service that keeps a state per
    session, hands it to a fresh process per turn or per chunk of a text stream through one execution lane,
    and stores what comes back; and two benchmarks that drive it.
  \<^item> \<open>protocol\<close>, \<open>bench-client\<close> and \<open>bench-wasm\<close> are the older research benchmark: messages, a client that
    runs a campaign of trials and estimates the leaked information, and the guest that makes the load.

  \<^bold>\<open>How the code is rendered.\<close> Structures are records, enumerations datatypes, machine integers words of
  their width (\<open>usize\<close> has 64 bits); \<open>Result\<close> is a sum with the error on the left and the question-mark
  operator is \<open>try_bind\<close>; a panic in code that returns a plain value is \<open>None\<close>. Times are natural numbers of
  nanoseconds. Asynchronous code is a labelled step relation in which one step is a stretch of code between two
  suspension points; a client program is a function from an environment, which answers each call from the
  history of calls, to a result and the list of its calls. No definition has fuel: loops with a bound are
  recursive functions with termination proofs, and the one loop of the sources that can run forever
  (\<open>extend_blocks\<close>, when a profile has no offsets) is a partial function whose value is then \<open>None\<close>; that it
  returns otherwise is part of the theorem about the plan.

  \<^bold>\<open>Code that is not in the repository\<close> is an argument of the definitions that use it: the kernel with
  the crates \<open>landlock\<close> and \<open>seccompiler\<close> (\<open>kernel\<close>, \<open>run\<close>), \<open>wasmparser\<close> and \<open>wasmi\<close> (\<open>wasm_api\<close>), \<open>ring\<close>,
  \<open>base64\<close>, \<open>sha2\<close> and \<open>hex\<close> (\<open>crypto\<close>), \<open>reqwest\<close> and \<open>url\<close> (\<open>http_api\<close>, \<open>url_parse\<close>), processes
  (\<open>lab_process_api\<close>), TCP (\<open>tcp_api\<close>), and the platform's \<open>log2\<close>. What a theorem relies on is a
  named hypothesis (\<open>kernel_contract\<close>, \<open>seccompiler_contract\<close>, \<open>granting_kernel\<close>, \<open>aead_laws\<close>, and the locale
  \<open>metered_fixtures\<close> for what the engine does with the two fixtures and charges for it), and every
  theorem that has one has a witness with a concrete instance.

  \<^bold>\<open>Theories, in the order of their imports.\<close>

  \<^descr>[\<open>Ishtar_Prelude\<close>] types, the integer and string operations of the standard library, the error monad,
    decimal printing and parsing with their round trip, runs of a labelled step relation, and the locales
    \<open>inductive_invariant\<close> and \<open>forward_simulation\<close>.
  \<^descr>[\<open>Admission\<close>] \<open>admit_pending\<close>, \<open>PendingGuard\<close> and the semaphore, with the locales \<open>bounded_admission\<close> and
    \<open>permit_pool\<close> that say what a list of tasks may rely on; both services interpret them on their tasks.
  \<^descr>[\<open>Sandbox\<close>] both \<open>sandbox.rs\<close> files: descriptor closure, limits, Landlock, the seccomp tables. A sandbox
    that reports success confines the process; the production filter allows exactly the listed calls; and the
    order of the production sandbox lets it fail for lack of a descriptor.
  \<^descr>[\<open>Wasm_Host\<close>] both \<open>wasm.rs\<close> files: validation of the module, limits of the store, calls of the
    exports, transfer of the state through linear memory. Exactly which modules the production host accepts and
    runs; it admits start functions, the lab does not.
  \<^descr>[\<open>Fixtures\<close>] the two modules under \<open>fixtures/\<close> as functions on linear memory, with
    the number of instructions they execute; the hosts composed with these guests on an engine that meters fuel
    at any cost, with the error of the call when the fuel is not enough. \<open>fixture_api\<close> is an instance that charges
    one unit per instruction; only witnesses use it.
  \<^descr>[\<open>Runner\<close>] \<open>Policy\<close>, \<open>execute_process\<close>, \<open>runner_main\<close> and \<open>validate_artifacts_main\<close> of the scheduler.
  \<^descr>[\<open>Artifact\<close>] \<open>artifact.rs\<close> and \<open>examples/encrypt-artifact.rs\<close>: secrets, pull, decryption, packaging; what
    is loaded is what was sealed, what the packager writes is loaded, and at most one request, by a restricted
    client, is sent.
  \<^descr>[\<open>Scheduler\<close>] \<open>main.rs\<close> of the scheduler: the dispatch, start-up, routes, the run handler and its
    task as \<open>sched_step\<close>. Slots are fixed, resources bounded, the service refines a specification without a
    guest (so no behaviour of the guest is observable), and it can always drain.
  \<^descr>[\<open>Healthcheck\<close>] \<open>healthcheck_main\<close>.
  \<^descr>[\<open>Lab_Process\<close>] the parents and runners of the lab and their composition \<open>process_of\<close>: the arguments and
    the input that one side writes are those that the other reads; the self test \<open>validate_runner\<close> passes.
  \<^descr>[\<open>Lab_Server\<close>] configuration, authorisation, handlers and tasks of the lab as \<open>lab_step\<close>.
  \<^descr>[\<open>Lab_Invariant\<close>] the invariant of that service: sizes, counters, one lane, times, and that a running task holds
    the current content of its slot.
  \<^descr>[\<open>Lab_Stream\<close>] the service refines a store of append-only streams; a session's content is the
    upper-cased concatenation of the chunks stored since its last reset.
  \<^descr>[\<open>Float64\<close>] binary64 with round-to-nearest-even (\<open>ieee\<close>) and exact arithmetic (\<open>exact\<close>), both
    interpretations of the locale \<open>rounding\<close>; an order on the values so that the library's sorting applies.
  \<^descr>[\<open>Protocol\<close>] the crate \<open>protocol\<close>: messages, records, validation, the fixed response.
  \<^descr>[\<open>Bench_Guest\<close>] the crate \<open>bench-wasm\<close>: its raw-pointer accesses stay inside the static array.
  \<^descr>[\<open>Trial_Plan\<close>] the generator, the shuffle and the plans of both clients: a plan is produced, has the length
    asked for and is balanced; seeds and profiles for which this fails are named.
  \<^descr>[\<open>Statistics\<close>] means, percentiles, mutual information, bootstrap and permutation test of both clients.
  \<^descr>[\<open>Bench_Client\<close>] calibration, decoding and report of \<open>bench-client\<close>; the analysis of a planned run never
    panics, and with distinct offsets it scores exactly the usable trials after the calibration.
  \<^descr>[\<open>Bench_Campaign\<close>] \<open>run_matrix\<close> and what it calls, as a history of requests: an experiment that was
    started is stopped, and a control run carries no bit.
  \<^descr>[\<open>Lab_Bench\<close>] the sequential benchmark of the lab: the summary of a gap is that of
    exactly the trials of the gap after the calibration.
  \<^descr>[\<open>Lab_Stream_Bench\<close>] the stream benchmark: every offered chunk is accounted for; and when the
    chunks that the server of \<open>Lab_Server\<close> stored are those the client saw completed, the client's comparison of
    digest, length and count succeeds.

  \<^bold>\<open>Bounds in hypotheses.\<close> The self test of the lab is shown to pass on engines that charge at most 260 units of fuel
  per executed instruction: it executes 3843 instructions in the longer call and has a million units. The analysis theorem asks for at most \<open>2 ^ 53\<close> trials and client records and
  for fewer than \<open>2 ^ 26\<close> server records (whose pairs are then at most \<open>2 ^ 53\<close>): binary64 represents every
  integer up to that bound, so an index computed from a quantile stays in range. The
  bounds on mutual information are stated for \<open>exact\<close>, since rounding may cross them.

  \<^bold>\<open>Not modelled.\<close> The JSON encodings derived by serde, and what axum, tower, tokio and clap do with a
  request or a command line before the code of the repository sees it (body limits, decoding, argument parsing);
  \<open>sha256_hex\<close>, a call into two crates; the subcommand \<open>profiles\<close> of \<open>bench-client\<close>, which prints an answer of the
  server; progress messages; zeroisation of memory that is freed, which no later computation sees; the sign of a
  floating-point zero and the payload of a not-a-number; the scripts, container files, and unit tests. Real
  time is an input: microarchitectural effects of one guest on another are outside of the model, as they are
  outside of what the program promises.
\<close>

end
